(* ===== verification/Prelude.thy ===== *)
theory Prelude
  imports Main "HOL-Library.Word" "HOL-Library.Sublist" "HOL-Library.Multiset"
begin

text \<open>
  What every component shares: the names of Go's fixed-width types, errors as messages, and
  the parts of Go's standard library the program calls on strings, bytes and numbers
  (packages strings, strconv, encoding/hex, fmt with \<open>%d\<close>), with the lemmas the component
  theories use about them. Strings are byte lists, as Go's are.
\<close>

named_theorems go_simps \<open>unfolding rules for the small helpers of the model\<close>
named_theorems db_simps \<open>what a table operation does to the tables it does not touch\<close>

subsection \<open>Types\<close>

type_synonym u8 = "8 word"
type_synonym u32 = "32 word"
type_synonym u64 = "64 word"
type_synonym bytes = "u8 list"
type_synonym go_error = string
type_synonym 'a go_result = "go_error + 'a"

text \<open>A call that may panic: a Go panic in a goroutine ends the whole process.\<close>

datatype 'a outcome = Done 'a | Panic string

primrec is_panic :: "'a outcome \<Rightarrow> bool" where
  "is_panic (Done _) = False"
| "is_panic (Panic _) = True"

text \<open>\<open>int64(x)\<close> for a \<open>uint64\<close>, and \<open>int(x)\<close> on a 64-bit platform: two's complement.\<close>

definition int64 :: "u64 \<Rightarrow> int" where
  "int64 x = sint x"

lemma int64_small: "uint x < 2 ^ 63 \<Longrightarrow> int64 x = uint x"
  by (simp add: int64_def sint_uint signed_take_bit_eq_if_positive take_bit_int_eq_self
      bit_iff_odd drop_bit_int_def flip: take_bit_eq_mod)

text \<open>Signed 64-bit arithmetic: the result of an \<open>int64\<close> operation, wrapped.\<close>

definition wrap64 :: "int \<Rightarrow> int" where
  "wrap64 x = sint (word_of_int x :: u64)"

lemma wrap64_id: "- (2 ^ 63) \<le> x \<Longrightarrow> x < 2 ^ 63 \<Longrightarrow> wrap64 x = x"
  by (simp add: wrap64_def sint_sbintrunc' signed_take_bit_int_eq_self)

lemma int64_bounds: "- (2 ^ 63) \<le> int64 x \<and> int64 x < 2 ^ 63"
  using sint_range_size [of x] by (simp add: int64_def word_size)

subsection \<open>Package strings\<close>

definition contains :: "string \<Rightarrow> string \<Rightarrow> bool" where
  "contains s sub = sublist sub s"

definition hasPrefix :: "string \<Rightarrow> string \<Rightarrow> bool" where
  "hasPrefix s p = prefix p s"

definition trimPrefix :: "string \<Rightarrow> string \<Rightarrow> string" where
  "trimPrefix s p = (if hasPrefix s p then drop (length p) s else s)"

definition lower_char :: "char \<Rightarrow> char" where
  "lower_char c = (if 65 \<le> (of_char c :: nat) \<and> (of_char c :: nat) \<le> 90
     then char_of (of_char c + 32 :: nat) else c)"

text \<open>\<open>strings.ToLower\<close> on ASCII text; the program applies it to hex addresses and identifiers.\<close>

definition toLower :: "string \<Rightarrow> string" where
  "toLower s = map lower_char s"

text \<open>\<open>strings.Index(s, c)\<close> for a one-byte separator: \<open>None\<close> is Go's \<open>-1\<close>.\<close>

fun index_of :: "string \<Rightarrow> char \<Rightarrow> nat option" where
  "index_of [] c = None"
| "index_of (x # xs) c = (if x = c then Some 0 else map_option Suc (index_of xs c))"

text \<open>\<open>strings.Split(s, c)\<close> for a one-byte separator; the result is never empty.\<close>

fun split_on :: "char \<Rightarrow> string \<Rightarrow> string list" where
  "split_on c [] = [[]]"
| "split_on c (x # xs) =
     (if x = c then [] # split_on c xs
      else case split_on c xs of [] \<Rightarrow> [[x]] | y # ys \<Rightarrow> (x # y) # ys)"

fun join_with :: "char \<Rightarrow> string list \<Rightarrow> string" where
  "join_with c [] = []"
| "join_with c [x] = x"
| "join_with c (x # y # ys) = x @ c # join_with c (y # ys)"

lemma contains_append [simp, intro]: "contains (a @ s @ b) s"
  by (simp add: contains_def)

lemma contains_append_left: "contains s sub \<Longrightarrow> contains (a @ s) sub"
  by (auto simp: contains_def sublist_def) (metis append_assoc)

lemma contains_append_right: "contains s sub \<Longrightarrow> contains (s @ a) sub"
  by (auto simp: contains_def sublist_def) (metis append_assoc)

lemma index_of_None: "index_of s c = None \<longleftrightarrow> c \<notin> set s"
  by (induction s) auto

lemma index_of_first: "c \<notin> set h \<Longrightarrow> index_of (h @ c # r) c = Some (length h)"
  by (induction h) auto

lemma split_on_nonempty [simp]: "split_on c s \<noteq> []"
  by (induction s) (auto split: list.splits)

lemma split_on_plain: "c \<notin> set s \<Longrightarrow> split_on c s = [s]"
  by (induction s) auto

lemma split_on_append: "c \<notin> set s \<Longrightarrow> split_on c (s @ c # r) = s # split_on c r"
  by (induction s) auto

text \<open>Splitting what was joined gives the parts back, when no part holds the separator.\<close>

lemma split_on_join:
  "ps \<noteq> [] \<Longrightarrow> \<forall>p \<in> set ps. c \<notin> set p \<Longrightarrow> split_on c (join_with c ps) = ps"
  by (induction ps rule: join_with.induct [of _ c, case_names Nil One Many])
    (auto simp: split_on_plain split_on_append)

lemma join_split_on: "join_with c (split_on c s) = s"
proof (induction s)
  case (Cons x xs)
  then show ?case
    by (cases "split_on c xs"; cases "tl (split_on c xs)") auto
qed simp

subsection \<open>Package strconv and fmt: decimal numbers\<close>

definition digit_char :: "nat \<Rightarrow> char" where
  "digit_char n = char_of (48 + n)"

fun utoa :: "nat \<Rightarrow> string" where
  "utoa n = (if n < 10 then [digit_char n] else utoa (n div 10) @ [digit_char (n mod 10)])"

declare utoa.simps [simp del]

definition itoa :: "int \<Rightarrow> string" where
  "itoa n = (if n < 0 then CHR ''-'' # utoa (nat (- n)) else utoa (nat n))"

definition is_digit :: "char \<Rightarrow> bool" where
  "is_digit c = (48 \<le> (of_char c :: nat) \<and> (of_char c :: nat) \<le> 57)"

definition digit_val :: "char \<Rightarrow> nat" where
  "digit_val c = of_char c - 48"

definition digits_val :: "string \<Rightarrow> nat" where
  "digits_val s = foldl (\<lambda>n c. 10 * n + digit_val c) 0 s"

lemma digit_char_props:
  assumes "n < 10"
  shows "is_digit (digit_char n)" and "digit_val (digit_char n) = n"
  using assms by (simp_all add: is_digit_def digit_val_def digit_char_def)

lemma utoa_digits: "\<forall>c \<in> set (utoa n). is_digit c"
proof (induction n rule: utoa.induct)
  case (1 n)
  then show ?case
    by (subst utoa.simps) (auto simp: digit_char_props)
qed

lemma utoa_nonempty [simp]: "utoa n \<noteq> []"
  by (subst utoa.simps) simp

lemma digits_val_snoc: "digits_val (s @ [c]) = 10 * digits_val s + digit_val c"
  by (simp add: digits_val_def)

lemma digits_val_utoa: "digits_val (utoa n) = n"
proof (induction n rule: utoa.induct)
  case (1 n)
  show ?case
  proof (cases "n < 10")
    case True
    then show ?thesis
      by (subst utoa.simps) (simp add: digits_val_def digit_char_props)
  next
    case False
    with 1 show ?thesis
      by (subst utoa.simps) (simp add: digits_val_snoc digit_char_props)
  qed
qed

text \<open>
  \<open>strconv.Atoi\<close> with its two results: the value, and whether there was an error. A syntax
  error gives 0, a number out of the 64-bit range the nearest bound.
\<close>

definition all_digits :: "string \<Rightarrow> bool" where
  "all_digits s \<longleftrightarrow> s \<noteq> [] \<and> list_all is_digit s"

definition unsign :: "string \<Rightarrow> bool \<times> string" where
  "unsign s = (case s of [] \<Rightarrow> (False, [])
     | c # r \<Rightarrow> if c = CHR ''-'' then (True, r) else if c = CHR ''+'' then (False, r) else (False, s))"

definition parse_int :: "string \<Rightarrow> int option" where
  "parse_int s = (case unsign s of (neg, ds) \<Rightarrow>
     if all_digits ds then Some (if neg then - int (digits_val ds) else int (digits_val ds)) else None)"

definition atoi :: "string \<Rightarrow> int \<times> bool" where
  "atoi s = (case parse_int s of None \<Rightarrow> (0, True)
     | Some n \<Rightarrow> if n \<ge> 2 ^ 63 then (2 ^ 63 - 1, True)
         else if n < - (2 ^ 63) then (- (2 ^ 63), True) else (n, False))"

lemma all_digits_utoa: "all_digits (utoa n)"
  using utoa_digits by (auto simp: all_digits_def list_all_iff)

lemma unsign_utoa: "unsign (utoa n) = (False, utoa n)"
proof -
  have "hd (utoa n) \<in> set (utoa n)" by simp
  then have "is_digit (hd (utoa n))" using utoa_digits by blast
  then have "hd (utoa n) \<noteq> CHR ''-''" "hd (utoa n) \<noteq> CHR ''+''" by (auto simp: is_digit_def)
  then show ?thesis by (cases "utoa n") (auto simp: unsign_def)
qed

lemma itoa_nonempty [simp]: "itoa n \<noteq> []"
  by (simp add: itoa_def)

lemma parse_int_itoa: "parse_int (itoa n) = Some n"
  by (simp add: parse_int_def itoa_def unsign_utoa all_digits_utoa digits_val_utoa)
    (simp add: unsign_def all_digits_utoa digits_val_utoa)

lemma atoi_itoa: "- (2 ^ 63) \<le> n \<Longrightarrow> n < 2 ^ 63 \<Longrightarrow> atoi (itoa n) = (n, False)"
  by (simp add: atoi_def parse_int_itoa)

subsection \<open>Package encoding/hex\<close>

definition hex_digit :: "nat \<Rightarrow> char" where
  "hex_digit n = (if n < 10 then char_of (48 + n) else char_of (87 + n))"

definition hex_byte :: "u8 \<Rightarrow> string" where
  "hex_byte b = [hex_digit (unat b div 16), hex_digit (unat b mod 16)]"

text \<open>\<open>hex.EncodeToString\<close>: two lower-case digits per byte.\<close>

definition hex_encode :: "bytes \<Rightarrow> string" where
  "hex_encode bs = concat (map hex_byte bs)"

definition hex_val :: "char \<Rightarrow> nat option" where
  "hex_val c =
     (let n = (of_char c :: nat) in
      if 48 \<le> n \<and> n \<le> 57 then Some (n - 48)
      else if 97 \<le> n \<and> n \<le> 102 then Some (n - 87)
      else if 65 \<le> n \<and> n \<le> 70 then Some (n - 55)
      else None)"

text \<open>
  \<open>hex.DecodeString\<close>: the first bad digit is an \<open>InvalidByteError\<close>, an odd number of
  digits \<open>ErrLength\<close>. The two errors are kept apart by constructor; the byte is the payload.
\<close>

datatype hex_error = InvalidByte char | OddLength

fun hex_decode :: "string \<Rightarrow> hex_error + bytes" where
  "hex_decode [] = Inr []"
| "hex_decode [c] = (case hex_val c of None \<Rightarrow> Inl (InvalidByte c) | Some _ \<Rightarrow> Inl OddLength)"
| "hex_decode (c # d # s) =
     (case hex_val c of None \<Rightarrow> Inl (InvalidByte c)
      | Some h \<Rightarrow> (case hex_val d of None \<Rightarrow> Inl (InvalidByte d)
         | Some l \<Rightarrow> (case hex_decode s of Inl e \<Rightarrow> Inl e
            | Inr bs \<Rightarrow> Inr (of_nat (16 * h + l) # bs))))"

text \<open>The text of the two errors; \<open>%#U\<close> prints the code point and, if printable, the character.\<close>

definition hex_error_text :: "hex_error \<Rightarrow> string" where
  "hex_error_text e = (case e of
     OddLength \<Rightarrow> ''encoding/hex: odd length hex string''
   | InvalidByte c \<Rightarrow>
       let n = (of_char c :: nat);
           up = (\<lambda>k. if k < 10 then char_of (48 + k) else char_of (55 + k) :: char)
       in ''encoding/hex: invalid byte: U+00'' @ [up (n div 16), up (n mod 16)] @
          (if 32 \<le> n \<and> n < 127 then [CHR '' '', char_of (39 :: nat), c, char_of (39 :: nat)] else []))"

lemma hex_val_digit: "n < 16 \<Longrightarrow> hex_val (hex_digit n) = Some n"
  by (auto simp: hex_val_def hex_digit_def)

lemma hex_byte_cons: "hex_encode (b # bs) = hex_digit (unat b div 16) # hex_digit (unat b mod 16) # hex_encode bs"
  by (simp add: hex_encode_def hex_byte_def)

lemma unat_u8_div: "unat (b :: u8) div 16 < 16"
  using unsigned_less [of b, where ?'a = nat] by (simp add: less_mult_imp_div_less)

lemma hex_decode_encode: "hex_decode (hex_encode bs) = Inr bs"
proof (induction bs)
  case Nil
  show ?case by (simp add: hex_encode_def)
next
  case (Cons b bs)
  have "of_nat (16 * (unat b div 16) + unat b mod 16) = b"
    by simp
  then show ?case
    by (simp add: hex_byte_cons hex_val_digit unat_u8_div Cons.IH)
qed

lemma hex_encode_inject [simp]: "hex_encode a = hex_encode b \<longleftrightarrow> a = b"
  by (metis hex_decode_encode sum.inject(2))

lemma length_hex_encode [simp]: "length (hex_encode bs) = 2 * length bs"
  by (induction bs) (simp_all add: hex_encode_def hex_byte_def)

subsection \<open>Lists\<close>

text \<open>\<open>s[:n]\<close> for a string: a slice bound past the length panics.\<close>

definition slice_to :: "nat \<Rightarrow> string \<Rightarrow> string outcome" where
  "slice_to n s = (if n \<le> length s then Done (take n s) else Panic ''slice bounds out of range'')"

lemma sum_list_mset_cong: "mset xs = mset ys \<Longrightarrow> sum_list xs = sum_list (ys :: nat list)"
  by (metis sum_mset_sum_list)

lemma mset_map_cong: "mset xs = mset ys \<Longrightarrow> mset (map f xs) = mset (map f ys)"
  by simp

lemma mset_filter_cong: "mset xs = mset ys \<Longrightarrow> mset (filter P xs) = mset (filter P ys)"
  by simp

lemma length_mset_cong: "mset xs = mset ys \<Longrightarrow> length xs = length ys"
  by (rule mset_eq_length)

lemma sort_key_empty [simp]: "sort_key f xs = [] \<longleftrightarrow> xs = []"
  by (metis length_0_conv length_sort)

text \<open>
  An arbitrary reordering, for the places where the code leaves an order to something else
  (the scan order of a query, \<open>ORDER BY RANDOM()\<close>, \<open>rand.Perm\<close>): a list of seeds picks the
  next element among those left. Every seed gives a permutation, and every permutation is
  given by some seed.
\<close>

fun reorder :: "nat list \<Rightarrow> 'a list \<Rightarrow> 'a list" where
  "reorder [] xs = xs"
| "reorder (i # is) xs =
     (if xs = [] then []
      else let j = i mod length xs in xs ! j # reorder is (take j xs @ drop (Suc j) xs))"

lemma mset_take_drop_nth: "j < length xs \<Longrightarrow> add_mset (xs ! j) (mset (take j xs @ drop (Suc j) xs)) = mset xs"
proof -
  assume "j < length xs"
  then have "xs = take j xs @ xs ! j # drop (Suc j) xs" by (simp add: id_take_nth_drop)
  then have "mset xs = mset (take j xs @ xs ! j # drop (Suc j) xs)" by simp
  then show ?thesis by simp
qed

lemma mset_reorder [simp]: "mset (reorder is xs) = mset xs"
proof (induction "is" xs rule: reorder.induct)
  case (2 i "is" xs)
  then show ?case
    using mset_take_drop_nth [of "i mod length xs" xs] by (cases "xs = []") (simp_all add: Let_def)
qed simp

lemma set_reorder [simp]: "set (reorder is xs) = set xs"
  by (metis mset_reorder set_mset_mset)

lemma length_reorder [simp]: "length (reorder is xs) = length xs"
  by (metis mset_reorder size_mset)

lemma distinct_reorder [simp]: "distinct (reorder is xs) = distinct xs"
  by (metis mset_reorder mset_eq_imp_distinct_iff)

lemma reorder_complete: "mset ys = mset xs \<Longrightarrow> \<exists>is. reorder is xs = ys"
proof (induction ys arbitrary: xs)
  case Nil
  then show ?case by (intro exI [of _ "[]"]) simp
next
  case (Cons y ys)
  then have "y \<in> set xs" by (metis list.set_intros(1) set_mset_mset)
  then obtain j where j: "j < length xs" "xs ! j = y" by (metis in_set_conv_nth)
  have "add_mset y (mset ys) = add_mset y (mset (take j xs @ drop (Suc j) xs))"
    using mset_take_drop_nth [OF j(1)] Cons.prems unfolding j(2) by simp
  then have "mset ys = mset (take j xs @ drop (Suc j) xs)" by (simp only: add_mset_eq_singleton_iff add_mset_add_mset_same_iff)
  then obtain "is" where "reorder is (take j xs @ drop (Suc j) xs) = ys" using Cons.IH by blast
  then have "reorder (j # is) xs = y # ys" using j by (auto simp: Let_def)
  then show ?case by blast
qed

text \<open>\<open>SELECT DISTINCT ON (k)\<close>: the first row of each group in the given order.\<close>

fun distinct_on :: "('a \<Rightarrow> 'k) \<Rightarrow> 'a list \<Rightarrow> 'a list" where
  "distinct_on k [] = []"
| "distinct_on k (x # xs) = x # distinct_on k (filter (\<lambda>y. k y \<noteq> k x) xs)"

lemma set_distinct_on: "set (distinct_on k xs) \<subseteq> set xs"
  by (induction k xs rule: distinct_on.induct) auto

lemma distinct_on_distinct: "distinct (map k (distinct_on k xs))"
proof (induction k xs rule: distinct_on.induct)
  case (2 k x xs)
  then show ?case using set_distinct_on [of k "filter (\<lambda>y. k y \<noteq> k x) xs"] by auto
qed simp

lemma distinct_on_id: "distinct (map k xs) \<Longrightarrow> distinct_on k xs = xs"
proof (induction xs)
  case (Cons x xs)
  then have "filter (\<lambda>y. k y \<noteq> k x) xs = xs"
    by (intro filter_True) (auto simp: rev_image_eqI)
  with Cons show ?case by simp
qed simp

end
