(* ===== verification/GoFloat.thy ===== *)
theory GoFloat
  imports Prelude Complex_Main "HOL-Library.Log_Nat"
begin

text \<open>
  Go's binary floating point. A finite \<open>float64\<close> is a rational number; an arithmetic
  operation computes the exact result and rounds it to the nearest number with a 53-bit
  significand, ties to even (IEEE 754 binary64). \<open>big.Float\<close> does the same with its own
  precision. The exponent range is not modelled: every value the program computes stays far
  from overflow and from the subnormal numbers.
\<close>

type_synonym float64 = rat

subsection \<open>Rounding to a \<open>p\<close>-bit significand\<close>

text \<open>\<open>binexp x\<close> is the exponent of the leading bit of \<open>x > 0\<close>.\<close>

definition binexp :: "rat \<Rightarrow> int" where
  "binexp x = (let (n, d) = quotient_of x; e = bitlen n - bitlen d
     in if 2 powi e \<le> x then e else e - 1)"

definition round_half_even :: "rat \<Rightarrow> int" where
  "round_half_even x = (let f = \<lfloor>x\<rfloor>; r = x - of_int f
     in if r < 1 / 2 then f else if 1 / 2 < r then f + 1 else if even f then f else f + 1)"

definition rnd :: "nat \<Rightarrow> rat \<Rightarrow> rat" where
  "rnd p x = (if x = 0 then 0
     else let u = 2 powi (binexp \<bar>x\<bar> - int p + 1) in of_int (round_half_even (x / u)) * u)"

definition fl64 :: "rat \<Rightarrow> float64" where
  "fl64 x = rnd 53 x"

subsection \<open>The leading exponent\<close>

lemma bitlen_bounds_rat:
  assumes "0 < (n :: int)"
  shows "(2 :: rat) powi (bitlen n - 1) \<le> of_int n" and "of_int n < (2 :: rat) powi bitlen n"
proof -
  have b: "2 ^ nat (bitlen n - 1) \<le> n \<and> n < 2 ^ nat (bitlen n)"
    using assms by (rule bitlen_bounds)
  have p: "1 \<le> bitlen n"
    using assms bitlen_nonneg [of n] bitlen_eq_zero_iff [of n] by linarith
  have "(of_int (2 ^ nat (bitlen n - 1)) :: rat) \<le> of_int n"
    using b by (simp only: of_int_le_iff)
  then show "(2 :: rat) powi (bitlen n - 1) \<le> of_int n"
    using p by (simp add: power_int_nonneg_exp)
  have "(of_int n :: rat) < of_int (2 ^ nat (bitlen n))"
    using b by (simp only: of_int_less_iff)
  then show "of_int n < (2 :: rat) powi bitlen n"
    using p by (simp add: power_int_nonneg_exp)
qed

lemma binexp_bounds:
  assumes "0 < x"
  shows "2 powi binexp x \<le> x" and "x < 2 powi (binexp x + 1)"
proof -
  obtain n d where q: "quotient_of x = (n, d)" by fastforce
  then have x: "x = of_int n / of_int d" and d: "0 < d"
    by (auto simp: quotient_of_div quotient_of_denom_pos)
  with assms have n: "0 < n" by (simp add: zero_less_divide_iff)
  define e where "e = bitlen n - bitlen d"
  have "x < 2 powi bitlen n / 2 powi (bitlen d - 1)"
    unfolding x using bitlen_bounds_rat [OF n] bitlen_bounds_rat [OF d] d n
    by (intro frac_less) auto
  also have "\<dots> = 2 powi (e + 1)"
    by (simp add: e_def power_int_diff [symmetric] algebra_simps)
  finally have hi: "x < 2 powi (e + 1)" .
  have "2 powi (e - 1) = 2 powi (bitlen n - 1) / (2 powi bitlen d :: rat)"
    by (simp add: e_def power_int_diff [symmetric] algebra_simps)
  also have "\<dots> \<le> x"
    unfolding x using bitlen_bounds_rat [OF n] bitlen_bounds_rat [OF d] d n
    by (intro frac_le) auto
  finally have lo: "2 powi (e - 1) \<le> x" .
  have "binexp x = (if 2 powi e \<le> x then e else e - 1)"
    by (simp add: binexp_def q e_def)
  with hi lo show "2 powi binexp x \<le> x" and "x < 2 powi (binexp x + 1)"
    by (simp_all add: not_le)
qed

lemma powi2_less_imp: "(2 :: rat) powi a < 2 powi b \<Longrightarrow> a < b"
  by (rule ccontr) (use power_int_increasing [of b a "2 :: rat"] in simp)

lemma binexp_unique:
  assumes "2 powi e \<le> x" and "x < (2 :: rat) powi (e + 1)"
  shows "binexp x = e"
proof -
  have "0 < x" using assms(1) zero_less_power_int [of "2 :: rat" e] by linarith
  note b = binexp_bounds [OF this]
  have "(2 :: rat) powi binexp x < 2 powi (e + 1)" using b(1) assms(2) by linarith
  then have "binexp x < e + 1" by (rule powi2_less_imp)
  moreover have "(2 :: rat) powi e < 2 powi (binexp x + 1)" using b(2) assms(1) by linarith
  then have "e < binexp x + 1" by (rule powi2_less_imp)
  ultimately show ?thesis by linarith
qed

lemma binexp_mono: "0 < x \<Longrightarrow> x \<le> y \<Longrightarrow> binexp x \<le> binexp y"
proof -
  assume a: "0 < x" "x \<le> y"
  have "(2 :: rat) powi binexp x < 2 powi (binexp y + 1)"
    using binexp_bounds [of x] binexp_bounds [of y] a by linarith
  then have "binexp x < binexp y + 1" by (rule powi2_less_imp)
  then show ?thesis by linarith
qed

subsection \<open>Rounding to an integer\<close>

lemma round_half_even_cases: "round_half_even x = \<lfloor>x\<rfloor> \<or> round_half_even x = \<lfloor>x\<rfloor> + 1"
  by (simp add: round_half_even_def Let_def)

lemma round_half_even_of_int [simp]: "round_half_even (of_int n) = n"
  by (simp add: round_half_even_def)

lemma round_half_even_mono: "x \<le> y \<Longrightarrow> round_half_even x \<le> round_half_even y"
proof -
  assume a: "x \<le> y"
  then have f: "\<lfloor>x\<rfloor> \<le> \<lfloor>y\<rfloor>" by (rule floor_mono)
  show ?thesis
  proof (cases "\<lfloor>x\<rfloor> = \<lfloor>y\<rfloor>")
    case True
    then show ?thesis using a by (auto simp: round_half_even_def Let_def)
  next
    case False
    then show ?thesis
      using f round_half_even_cases [of x] round_half_even_cases [of y] by linarith
  qed
qed

lemma round_half_even_error: "\<bar>of_int (round_half_even x) - x\<bar> \<le> 1 / 2"
proof -
  have "of_int \<lfloor>x\<rfloor> \<le> x" and "x < of_int \<lfloor>x\<rfloor> + 1" by linarith+
  then show ?thesis by (auto simp: round_half_even_def Let_def)
qed

lemma round_half_even_minus: "round_half_even (- x) = - round_half_even x"
proof (cases "x = of_int \<lfloor>x\<rfloor>")
  case True
  then show ?thesis by (metis of_int_minus round_half_even_of_int)
next
  case False
  then have "\<lfloor>- x\<rfloor> = - \<lfloor>x\<rfloor> - 1"
    by (simp add: floor_minus ceiling_altdef)
  then show ?thesis
    by (auto simp: round_half_even_def Let_def field_simps) presburger+
qed

subsection \<open>Rounding to a significand\<close>

lemma rnd_zero [simp]: "rnd p 0 = 0"
  by (simp add: rnd_def)

lemma rnd_minus: "rnd p (- x) = - rnd p x"
  by (simp add: rnd_def Let_def round_half_even_minus minus_divide_left [symmetric])

text \<open>
  Within one binade (numbers with the same leading exponent) rounding is rounding to a
  multiple of the last place; a power of two is a fixed point.
\<close>

lemma rnd_bounds:
  assumes "0 < x" and "0 < p"
  shows "2 powi binexp x \<le> rnd p x" and "rnd p x \<le> 2 powi (binexp x + 1)"
proof -
  define u :: rat where "u = 2 powi (binexp x - int p + 1)"
  have u: "0 < u" by (simp add: u_def)
  have r: "rnd p x = of_int (round_half_even (x / u)) * u"
    using assms by (simp add: rnd_def u_def Let_def)
  have lo: "2 powi binexp x = of_int (2 ^ (p - 1)) * u"
    using assms(2) by (simp add: u_def power_int_of_nat [symmetric] power_int_add [symmetric] of_nat_diff
        del: power_int_of_nat)
  have hi: "2 powi (binexp x + 1) = of_int (2 ^ p) * u"
    by (simp add: u_def power_int_of_nat [symmetric] power_int_add [symmetric] del: power_int_of_nat)
  have "of_int (2 ^ (p - 1)) \<le> x / u"
    using binexp_bounds(1) [OF assms(1)] u unfolding lo by (simp add: pos_le_divide_eq)
  then have "2 ^ (p - 1) \<le> round_half_even (x / u)"
    using round_half_even_mono [of "of_int (2 ^ (p - 1))" "x / u"] by (simp del: of_int_power)
  then have "(of_int (2 ^ (p - 1)) :: rat) \<le> of_int (round_half_even (x / u))"
    by (simp only: of_int_le_iff)
  then show "2 powi binexp x \<le> rnd p x"
    unfolding r lo using u by (intro mult_right_mono) auto
  have "x / u \<le> of_int (2 ^ p)"
    using binexp_bounds(2) [OF assms(1)] u unfolding hi by (simp add: pos_divide_le_eq)
  then have "round_half_even (x / u) \<le> 2 ^ p"
    using round_half_even_mono [of "x / u" "of_int (2 ^ p)"] by (simp del: of_int_power)
  then have "of_int (round_half_even (x / u)) \<le> (of_int (2 ^ p) :: rat)"
    by (simp only: of_int_le_iff)
  then show "rnd p x \<le> 2 powi (binexp x + 1)"
    unfolding r hi using u by (intro mult_right_mono) auto
qed

lemma rnd_mono_pos:
  assumes "0 < x" and "x \<le> y" and "0 < p"
  shows "rnd p x \<le> rnd p y"
proof (cases "binexp x = binexp y")
  case True
  define u :: rat where "u = 2 powi (binexp x - int p + 1)"
  have u: "0 < u" by (simp add: u_def)
  have "round_half_even (x / u) \<le> round_half_even (y / u)"
    using assms u by (intro round_half_even_mono divide_right_mono) auto
  then have "(of_int (round_half_even (x / u)) :: rat) * u \<le> of_int (round_half_even (y / u)) * u"
    using u by (intro mult_right_mono) auto
  then show ?thesis
    using assms True by (simp add: rnd_def u_def Let_def)
next
  case False
  with binexp_mono [OF assms(1,2)] have "binexp x + 1 \<le> binexp y" by linarith
  then have "(2 :: rat) powi (binexp x + 1) \<le> 2 powi binexp y"
    by (intro power_int_increasing) auto
  then show ?thesis
    using rnd_bounds(2) [OF assms(1,3)] rnd_bounds(1) [of y p] assms by linarith
qed

lemma rnd_nonneg: "0 \<le> x \<Longrightarrow> 0 < p \<Longrightarrow> 0 \<le> rnd p x"
proof (cases "x = 0")
  case False
  assume "0 \<le> x" "0 < p"
  with False show ?thesis
    using rnd_bounds(1) [of x p] zero_less_power_int [of "2 :: rat" "binexp x"] by linarith
qed simp

lemma rnd_mono: 
  assumes "x \<le> y" and "0 < p"
  shows "rnd p x \<le> rnd p y"
proof -
  consider "0 < x" | "x \<le> 0" "0 \<le> y" | "y < 0" by linarith
  then show ?thesis
  proof cases
    case 1
    then show ?thesis using assms by (intro rnd_mono_pos)
  next
    case 2
    then show ?thesis
      using rnd_nonneg [of y p] rnd_nonneg [of "- x" p] assms by (simp add: rnd_minus)
  next
    case 3
    then show ?thesis
      using rnd_mono_pos [of "- y" "- x" p] assms by (simp add: rnd_minus)
  qed
qed

text \<open>An integer of at most \<open>p\<close> bits is representable.\<close>

lemma rnd_of_nat:
  assumes "n \<le> 2 ^ p" and "0 < p"
  shows "rnd p (of_nat n) = of_nat n"
proof (cases "n = 0 \<or> n = 2 ^ p")
  case True
  obtain q where q: "p = Suc q" using assms(2) gr0_conv_Suc by auto
  have "binexp (2 ^ p) = int p"
    by (rule binexp_unique) (simp_all add: power_int_add)
  then have "rnd p (2 ^ p) = of_int (round_half_even (of_int (2 ^ q))) * 2"
    by (simp add: rnd_def q Let_def)
  then have "rnd p (2 ^ p) = 2 ^ p"
    unfolding round_half_even_of_int by (simp add: q)
  with True show ?thesis by auto
next
  case False
  then have n: "0 < n" "n < 2 ^ p" using assms by auto
  define x :: rat where "x = of_nat n"
  have x: "0 < x" using n by (simp add: x_def)
  have "x < 2 ^ p" unfolding x_def using n(2) by (metis of_nat_less_iff of_nat_numeral of_nat_power)
  then have "(2 :: rat) powi binexp x < 2 powi int p"
    using binexp_bounds(1) [OF x] by (simp del: zero_less_power_int)
  then have e: "binexp x < int p" by (rule powi2_less_imp)
  define k where "k = nat (int p - 1 - binexp x)"
  have u: "(2 :: rat) powi (binexp x - int p + 1) = 1 / 2 ^ k"
    using e by (simp add: k_def power_int_minus_divide [symmetric] power_int_of_nat [symmetric] algebra_simps
        del: power_int_of_nat)
  have "x / (1 / 2 ^ k) = of_int (int n * 2 ^ k)" by (simp add: x_def)
  then show ?thesis
    using x unfolding x_def [symmetric]
    by (simp add: rnd_def u del: of_int_mult) (simp add: x_def)
qed

lemma fl64_mono: "x \<le> y \<Longrightarrow> fl64 x \<le> fl64 y"
  by (simp add: fl64_def rnd_mono)

lemma fl64_nonneg [simp]: "0 \<le> x \<Longrightarrow> 0 \<le> fl64 x"
  by (simp add: fl64_def rnd_nonneg)

lemma fl64_of_nat: "n \<le> 2 ^ 53 \<Longrightarrow> fl64 (of_nat n) = of_nat n"
  by (simp add: fl64_def rnd_of_nat)

lemma fl64_numeral [simp]: "fl64 0 = 0" "fl64 1 = 1"
  using fl64_of_nat [of 0] fl64_of_nat [of 1] by simp_all

text \<open>Rounding commutes with powers of two.\<close>

lemma binexp_powi: "0 < x \<Longrightarrow> binexp (x * 2 powi k) = binexp x + k"
  using binexp_bounds [of x]
  by (intro binexp_unique) (simp_all add: power_int_add mult.commute mult.left_commute)

lemma rnd_powi: "rnd p (x * 2 powi k) = rnd p x * 2 powi k"
proof (cases "x = 0")
  case False
  have "binexp \<bar>x * 2 powi k\<bar> - int p + 1 = (binexp \<bar>x\<bar> - int p + 1) + k"
    using False binexp_powi [of "\<bar>x\<bar>" k] by (simp add: abs_mult)
  then have "(2 :: rat) powi (binexp \<bar>x * 2 powi k\<bar> - int p + 1) = 2 powi (binexp \<bar>x\<bar> - int p + 1) * 2 powi k"
    by (metis power_int_add zero_neq_numeral)
  then show ?thesis using False by (simp add: rnd_def Let_def)
qed simp

lemma fl64_div_1024: "fl64 (x / 1024) = fl64 x / 1024"
  using rnd_powi [of 53 x "-10"] by (simp add: fl64_def power_int_minus field_simps)

subsection \<open>Relative error\<close>

lemma rnd_error:
  assumes "0 < x" and "0 < p"
  shows "\<bar>rnd p x - x\<bar> \<le> x / 2 ^ p"
proof -
  define u :: rat where "u = 2 powi (binexp x - int p + 1)"
  have u: "0 < u" by (simp add: u_def)
  have "rnd p x - x = (of_int (round_half_even (x / u)) - x / u) * u"
    using assms u by (simp add: rnd_def u_def [symmetric] Let_def left_diff_distrib)
  then have "\<bar>rnd p x - x\<bar> = \<bar>of_int (round_half_even (x / u)) - x / u\<bar> * u"
    using u by (simp add: abs_mult)
  also have "\<dots> \<le> 1 / 2 * u"
    using u by (intro mult_right_mono round_half_even_error) simp
  also have "1 / 2 * u = 2 powi binexp x / 2 ^ p"
    by (simp add: u_def power_int_add power_int_diff)
  also have "\<dots> \<le> x / 2 ^ p"
    using binexp_bounds(1) [OF assms(1)] by (intro divide_right_mono) simp_all
  finally show ?thesis .
qed

text \<open>\<open>approx k x y\<close>: \<open>x\<close> is \<open>y\<close> up to \<open>k\<close> roundings to 53 bits.\<close>

definition unit_roundoff :: rat where
  "unit_roundoff = 1 / 2 ^ 53"

definition approx :: "nat \<Rightarrow> rat \<Rightarrow> rat \<Rightarrow> bool" where
  "approx k x y \<longleftrightarrow> (1 - unit_roundoff) ^ k * y \<le> x \<and> x \<le> (1 + unit_roundoff) ^ k * y"

lemma roundoff_bounds: "0 < 1 - unit_roundoff" "1 - unit_roundoff \<le> 1" "1 \<le> 1 + unit_roundoff"
  by (simp_all add: unit_roundoff_def)

lemma approx_refl: "approx 0 x x"
  by (simp add: approx_def)

lemma approx_nonneg: "approx k x y \<Longrightarrow> 0 \<le> y \<Longrightarrow> 0 \<le> x"
  unfolding approx_def using roundoff_bounds(1) by (meson less_imp_le mult_nonneg_nonneg order_trans zero_le_power)

lemma approx_mono:
  assumes "approx k x y" and "k \<le> m" and "0 \<le> y"
  shows "approx m x y"
proof -
  have "(1 - unit_roundoff) ^ m \<le> (1 - unit_roundoff) ^ k"
    using roundoff_bounds assms(2) by (intro power_decreasing) auto
  moreover have "(1 + unit_roundoff) ^ k \<le> (1 + unit_roundoff) ^ m"
    using roundoff_bounds assms(2) by (intro power_increasing) auto
  ultimately show ?thesis
    using assms(1,3) unfolding approx_def by (meson mult_right_mono order_trans)
qed

lemma approx_rnd:
  assumes "approx k x y" and "0 \<le> y" and "53 \<le> p"
  shows "approx (Suc k) (rnd p x) y"
proof (cases "x = 0")
  case True
  then show ?thesis using approx_mono [OF assms(1) _ assms(2), of "Suc k"] by simp
next
  case False
  then have x: "0 < x" using approx_nonneg [OF assms(1,2)] by simp
  have "x / 2 ^ p \<le> x / 2 ^ 53" using x assms(3) by (intro divide_left_mono power_increasing) auto
  moreover have "\<bar>rnd p x - x\<bar> \<le> x / 2 ^ p" using rnd_error [OF x, of p] assms(3) by linarith
  ultimately have "\<bar>rnd p x - x\<bar> \<le> x / 2 ^ 53" by (rule order_trans [rotated])
  then have "\<bar>rnd p x - x\<bar> \<le> x * unit_roundoff" by (simp add: unit_roundoff_def)
  then have "(1 - unit_roundoff) * x \<le> rnd p x" "rnd p x \<le> (1 + unit_roundoff) * x"
    by (simp_all add: algebra_simps abs_le_iff)
  moreover have "(1 - unit_roundoff) * ((1 - unit_roundoff) ^ k * y) \<le> (1 - unit_roundoff) * x"
    using assms(1) roundoff_bounds by (intro mult_left_mono) (simp_all add: approx_def)
  moreover have "(1 + unit_roundoff) * x \<le> (1 + unit_roundoff) * ((1 + unit_roundoff) ^ k * y)"
    using assms(1) roundoff_bounds by (intro mult_left_mono) (simp_all add: approx_def)
  ultimately show ?thesis by (simp add: approx_def mult.assoc)
qed

lemma approx_fl64: "approx k x y \<Longrightarrow> 0 \<le> y \<Longrightarrow> approx (Suc k) (fl64 x) y"
  by (simp add: fl64_def approx_rnd)

lemma approx_scale: "approx k x y \<Longrightarrow> 0 \<le> c \<Longrightarrow> approx k (x * c) (y * c)"
  unfolding approx_def by (metis mult.assoc mult_right_mono)

lemma approx_square:
  assumes "approx k x y" and "0 \<le> y"
  shows "approx (2 * k) (x * x) (y * y)"
proof -
  have x: "0 \<le> x" using approx_nonneg assms by blast
  have lo: "0 \<le> (1 - unit_roundoff) ^ k * y" using roundoff_bounds assms(2) by simp
  have "((1 - unit_roundoff) ^ k * y) * ((1 - unit_roundoff) ^ k * y) \<le> x * x"
    using assms(1) lo x by (intro mult_mono) (simp_all add: approx_def)
  moreover have "x * x \<le> ((1 + unit_roundoff) ^ k * y) * ((1 + unit_roundoff) ^ k * y)"
    using assms(1) x by (intro mult_mono) (auto simp: approx_def intro: order_trans)
  moreover have "(a ^ k * y) * (a ^ k * y) = a ^ (2 * k) * (y * y)" for a by (simp add: power_mult_distrib power_mult power2_eq_square mult_ac)
  ultimately show ?thesis by (simp only: approx_def)
qed

lemma approx_add:
  assumes "approx k x y" and "approx k x' y'"
  shows "approx k (x + x') (y + y')"
  using assms by (simp add: approx_def distrib_left add_mono)

subsection \<open>Square roots\<close>

text \<open>The integer square root, two bits at a time.\<close>

function isqrt :: "int \<Rightarrow> int" where
  "isqrt n = (if n \<le> 0 then 0 else let r = 2 * isqrt (n div 4) in if (r + 1) * (r + 1) \<le> n then r + 1 else r)"
  by pat_completeness auto
termination by (relation "measure nat") auto

declare isqrt.simps [simp del]

lemma isqrt_bounds: "0 \<le> n \<Longrightarrow> 0 \<le> isqrt n \<and> (isqrt n)\<^sup>2 \<le> n \<and> n < (isqrt n + 1)\<^sup>2"
proof (induction n rule: isqrt.induct)
  case (1 n)
  show ?case
  proof (cases "n = 0")
    case False
    let ?r = "isqrt (n div 4)"
    have b: "0 \<le> ?r" "?r\<^sup>2 \<le> n div 4" "n div 4 < (?r + 1)\<^sup>2" using 1 False by simp_all
    have "(2 * ?r)\<^sup>2 \<le> 4 * (n div 4)" using b(2) by (simp add: power_mult_distrib)
    then have lo: "(2 * ?r)\<^sup>2 \<le> n" by linarith
    have "n < 4 * (n div 4 + 1)" by simp
    also have "\<dots> \<le> 4 * (?r + 1)\<^sup>2" using b(3) by simp
    finally have hi: "n < (2 * ?r + 1 + 1)\<^sup>2" by (simp add: power2_eq_square algebra_simps)
    have "isqrt n = (if (2 * ?r + 1)\<^sup>2 \<le> n then 2 * ?r + 1 else 2 * ?r)"
      using False "1.prems" by (subst isqrt.simps) (simp add: Let_def power2_eq_square)
    then show ?thesis using lo hi b(1) by auto
  qed (simp add: isqrt.simps)
qed

text \<open>
  \<open>math.Sqrt\<close>, correctly rounded. The root is computed as an integer \<open>m\<close> in units of \<open>2 powi e\<close>,
  two bits finer than a 53-bit significand; a root that is not exact lies strictly between \<open>m\<close>
  and \<open>m + 1\<close>, which round like \<open>m + 1 / 2\<close>.
\<close>

definition sqrt_unit :: "rat \<Rightarrow> int" where
  "sqrt_unit x = binexp x div 2 - 55"

definition sqrt_floor :: "rat \<Rightarrow> int" where
  "sqrt_floor x = isqrt \<lfloor>x / (2 powi sqrt_unit x)\<^sup>2\<rfloor>"

definition fl_sqrt :: "rat \<Rightarrow> float64" where
  "fl_sqrt x = (if x \<le> 0 then 0
     else let u = 2 powi sqrt_unit x; m = of_int (sqrt_floor x)
       in fl64 (if (m * u)\<^sup>2 = x then m * u else (m + 1 / 2) * u))"

lemma sqrt_floor_bounds:
  assumes "0 \<le> x"
  shows "(of_int (sqrt_floor x) * 2 powi sqrt_unit x)\<^sup>2 \<le> x \<and> x < ((of_int (sqrt_floor x) + 1) * 2 powi sqrt_unit x)\<^sup>2"
proof -
  let ?u = "2 powi sqrt_unit x :: rat" and ?y = "x / (2 powi sqrt_unit x)\<^sup>2" and ?m = "sqrt_floor x"
  have u: "0 < ?u\<^sup>2" by simp
  have y: "0 \<le> ?y" using assms by simp
  have b: "?m\<^sup>2 \<le> \<lfloor>?y\<rfloor>" "\<lfloor>?y\<rfloor> < (?m + 1)\<^sup>2" using isqrt_bounds [of "\<lfloor>?y\<rfloor>"] y by (simp_all add: sqrt_floor_def)
  then have lo: "(of_int ?m)\<^sup>2 \<le> ?y" and hi: "?y < (of_int ?m + 1)\<^sup>2" by (simp_all add: le_floor_iff floor_less_iff)
  show ?thesis using lo hi u by (simp add: power_mult_distrib pos_le_divide_eq pos_divide_less_eq)
qed

lemma sqrt_floor_nonneg [simp]: "0 \<le> x \<Longrightarrow> 0 \<le> sqrt_floor x"
  using isqrt_bounds by (simp add: sqrt_floor_def)

lemma fl_sqrt_nonneg [simp]: "0 \<le> fl_sqrt x"
  by (simp add: fl_sqrt_def Let_def)

text \<open>The result lies between the roundings of a lower and an upper bound of the root.\<close>

lemma fl_sqrt_bracket:
  assumes "0 < x"
  shows "\<exists>l u. 0 \<le> l \<and> l\<^sup>2 \<le> x \<and> x < u\<^sup>2 \<and> u = l + 2 powi sqrt_unit x \<and> fl64 l \<le> fl_sqrt x \<and> fl_sqrt x \<le> fl64 u"
proof (intro exI conjI)
  let ?u = "2 powi sqrt_unit x :: rat" and ?m = "of_int (sqrt_floor x) :: rat"
  have u: "0 < ?u" by simp
  show "0 \<le> ?m * ?u" "?m * ?u + ?u = ?m * ?u + 2 powi sqrt_unit x" using u assms by simp_all
  show "(?m * ?u)\<^sup>2 \<le> x" "x < (?m * ?u + ?u)\<^sup>2" using sqrt_floor_bounds [of x] assms by (simp_all add: algebra_simps)
  show "fl64 (?m * ?u) \<le> fl_sqrt x" "fl_sqrt x \<le> fl64 (?m * ?u + ?u)"
    using assms u by (auto simp: fl_sqrt_def Let_def distrib_right not_le intro!: fl64_mono)
qed

subsection \<open>Ages\<close>

definition hour_ns :: rat where
  "hour_ns = 3600000000000"

text \<open>
  \<open>float64(time.Now().UnixNano()-int64(requestedAt)) / float64(time.Hour)\<close>: a 64-bit
  subtraction that wraps, a conversion that rounds, a division that rounds.
\<close>

definition age_hours :: "u64 \<Rightarrow> u64 \<Rightarrow> float64" where
  "age_hours nowNano requestedAt = fl64 (fl64 (of_int (sint (nowNano - requestedAt))) / hour_ns)"

end
