(* ===== verification/Schema.thy ===== *)
theory Schema
  imports GoFloat
begin

text \<open>
  The PostgreSQL schema that \<open>RunMigrations\<close> (internal/db/db.go) creates: per table the
  columns with their type, NOT NULL and DEFAULT, and what the server checks of an INSERT
  before it stores a row: every column named exists and its value fits, and every NOT NULL
  column is either given or has a default.
\<close>

subsection \<open>Values, column types\<close>

datatype sqlval = SNull | SText string | SInt int | SBool bool | SFlt float64 | STime int

datatype sqltype = TVarchar nat | TText | TInteger | TBigint | TBool | TFloat | TNumeric | TTimestamptz

record column =
  col_name :: string
  col_type :: sqltype
  col_not_null :: bool
  col_default :: bool

text \<open>
  The decimal text a NUMERIC parameter may hold. The program only sends what \<open>%d\<close> and
  \<open>big.Int.String\<close> print: an optional minus sign and digits.
\<close>

definition numeric_text :: "string \<Rightarrow> bool" where
  "numeric_text s = (let ds = (if hasPrefix s ''-'' then tl s else s)
     in ds \<noteq> [] \<and> list_all is_digit ds)"

fun fits :: "sqltype \<Rightarrow> sqlval \<Rightarrow> bool" where
  "fits _ SNull = True"
| "fits (TVarchar n) (SText s) = (length s \<le> n)"
| "fits TText (SText s) = True"
| "fits TInteger (SInt i) = (- (2 ^ 31) \<le> i \<and> i < 2 ^ 31)"
| "fits TBigint (SInt i) = (- (2 ^ 63) \<le> i \<and> i < 2 ^ 63)"
| "fits TBool (SBool b) = True"
| "fits TFloat (SFlt x) = True"
| "fits TNumeric (SInt i) = True"
| "fits TNumeric (SText s) = numeric_text s"
| "fits TTimestamptz (STime t) = True"
| "fits _ _ = False"

definition find_col :: "column list \<Rightarrow> string \<Rightarrow> column option" where
  "find_col cols n = find (\<lambda>c. col_name c = n) cols"

definition value_ok :: "column list \<Rightarrow> string \<times> sqlval \<Rightarrow> bool" where
  "value_ok cols = (\<lambda>(n, v). case find_col cols n of None \<Rightarrow> False
     | Some c \<Rightarrow> fits (col_type c) v \<and> (col_not_null c \<longrightarrow> v \<noteq> SNull))"

text \<open>What the server checks of \<open>INSERT INTO t (n1, n2, ..) VALUES (v1, v2, ..)\<close>.\<close>

definition insert_ok :: "column list \<Rightarrow> (string \<times> sqlval) list \<Rightarrow> bool" where
  "insert_ok cols vals =
     (list_all (value_ok cols) vals \<and>
      list_all (\<lambda>c. col_not_null c \<and> \<not> col_default c \<longrightarrow> col_name c \<in> set (map fst vals)) cols)"

text \<open>A NOT NULL column without a default that the statement does not name refuses it.\<close>

lemma insert_missing_column:
  assumes "c \<in> set cols" and "col_not_null c" and "\<not> col_default c"
    and "col_name c \<notin> set (map fst vals)"
  shows "\<not> insert_ok cols vals"
  using assms by (auto simp: insert_ok_def list_all_iff)

subsection \<open>The catalog that the migrations create\<close>

definition nullable :: "string \<Rightarrow> sqltype \<Rightarrow> column" where
  "nullable n t = \<lparr>col_name = n, col_type = t, col_not_null = False, col_default = False\<rparr>"

definition defaulted :: "string \<Rightarrow> sqltype \<Rightarrow> column" where
  "defaulted n t = \<lparr>col_name = n, col_type = t, col_not_null = False, col_default = True\<rparr>"

definition required :: "string \<Rightarrow> sqltype \<Rightarrow> column" where
  "required n t = \<lparr>col_name = n, col_type = t, col_not_null = True, col_default = False\<rparr>"

definition required_defaulted :: "string \<Rightarrow> sqltype \<Rightarrow> column" where
  "required_defaulted n t = \<lparr>col_name = n, col_type = t, col_not_null = True, col_default = True\<rparr>"

lemmas column_defs = nullable_def defaulted_def required_def required_defaulted_def

type_synonym catalog = "string \<rightharpoonup> column list"

text \<open>The CREATE TABLE IF NOT EXISTS statements, in the order of the migration text.\<close>

definition created_tables :: "(string \<times> column list) list" where
  "created_tables = [
    (''observed_blobs'',
      [required ''blob_key'' (TVarchar 128), nullable ''account_id'' (TVarchar 64),
       nullable ''blob_status'' (TVarchar 32), nullable ''blob_size_bytes'' TInteger,
       nullable ''requested_at'' TBigint, nullable ''expiry_unix_sec'' TBigint,
       nullable ''commitment_x'' TText, nullable ''commitment_y'' TText,
       nullable ''quorum_numbers'' TText, defaulted ''is_self_dispersed'' TBool,
       nullable ''dispersal_latency_ms'' TInteger, defaulted ''first_observed_at'' TTimestamptz]),
    (''indexer_cursors'',
      [required ''indexer_name'' (TVarchar 64), required_defaulted ''last_block'' TBigint,
       defaulted ''updated_at'' TTimestamptz]),
    (''retrieval_probes'',
      [required_defaulted ''probe_time'' TTimestamptz, required ''blob_key'' (TVarchar 128),
       nullable ''blob_age_hours'' TFloat, nullable ''relay_key'' TInteger,
       nullable ''success'' TBool, nullable ''latency_ms'' TInteger,
       nullable ''error_message'' TText, nullable ''data_size_bytes'' TInteger,
       nullable ''kzg_verified'' TBool, nullable ''kzg_error'' TText]),
    (''operator_probes'',
      [required_defaulted ''probe_time'' TTimestamptz, required ''blob_key'' (TVarchar 128),
       nullable ''blob_age_hours'' TFloat, nullable ''operator_id'' (TVarchar 128),
       nullable ''operator_socket'' TText, nullable ''quorum_id'' TInteger,
       nullable ''success'' TBool, nullable ''latency_ms'' TInteger,
       nullable ''chunks_returned'' TInteger, nullable ''error_message'' TText]),
    (''attestation_snapshots'',
      [required_defaulted ''snapshot_time'' TTimestamptz, required ''blob_key'' (TVarchar 128),
       nullable ''quorum_number'' TInteger, nullable ''total_nonsigners'' TInteger,
       nullable ''signing_stake_percentage'' TFloat]),
    (''stake_snapshots'',
      [required_defaulted ''snapshot_time'' TTimestamptz, required ''quorum_id'' TInteger,
       nullable ''total_stake'' TNumeric, nullable ''operator_count'' TInteger,
       nullable ''hhi'' TFloat]),
    (''stake_snapshot_operators'',
      [required ''snapshot_time'' TTimestamptz, required ''quorum_id'' TInteger,
       nullable ''operator_id'' (TVarchar 128), nullable ''stake'' TNumeric,
       nullable ''stake_pct'' TFloat]),
    (''operator_status_snapshots'',
      [required_defaulted ''snapshot_time'' TTimestamptz, required ''operator_address'' (TVarchar 42),
       nullable ''metadata_name'' TText, required ''status'' (TVarchar 16),
       nullable ''total_stakers'' TInteger, nullable ''total_avs'' TInteger,
       nullable ''tvl_eth'' TFloat]),
    (''ejection_events'',
      [required ''event_time'' TTimestamptz, required ''block_number'' TBigint,
       nullable ''tx_hash'' (TVarchar 66), nullable ''log_index'' TInteger,
       nullable ''operator_id'' (TVarchar 128), nullable ''quorum_number'' TInteger]),
    (''da_layer_metadata'',
      [required ''da_layer'' TText, nullable ''chain_decimals'' TInteger,
       nullable ''native_token'' TText, nullable ''block_time_seconds'' TNumeric,
       nullable ''retention_policy'' TText, nullable ''retention_days_claim'' TNumeric,
       nullable ''retention_source_url'' TText, nullable ''finality_seconds_claim'' TNumeric,
       nullable ''notes'' TText, defaulted ''updated_at'' TTimestamptz]),
    (''prober_health'',
      [required_defaulted ''ts'' TTimestamptz, nullable ''goroutines'' TInteger,
       nullable ''heap_alloc_mb'' TFloat, nullable ''heap_sys_mb'' TFloat,
       nullable ''db_open_conns'' TInteger, nullable ''db_in_use'' TInteger,
       nullable ''db_idle'' TInteger, nullable ''db_wait_count'' TBigint,
       nullable ''db_wait_duration_ms'' TBigint, nullable ''uptime_seconds'' TBigint]),
    (''attestation_nonsigners'',
      [defaulted ''snapshot_timestamp'' TTimestamptz, required ''blob_key'' (TVarchar 128),
       required ''quorum_number'' TInteger, required ''operator_id'' (TVarchar 66)])]"

definition create_table :: "string \<times> column list \<Rightarrow> catalog \<Rightarrow> catalog" where
  "create_table = (\<lambda>(t, cols) cat. case cat t of None \<Rightarrow> cat(t \<mapsto> cols) | Some _ \<Rightarrow> cat)"

text \<open>\<open>ALTER TABLE t ADD COLUMN IF NOT EXISTS c\<close>.\<close>

definition add_column :: "string \<Rightarrow> column \<Rightarrow> catalog \<Rightarrow> catalog" where
  "add_column t c cat = (case cat t of None \<Rightarrow> cat
     | Some cols \<Rightarrow> if find_col cols (col_name c) = None then cat(t \<mapsto> cols @ [c]) else cat)"

definition migrate_catalog :: "catalog \<Rightarrow> catalog" where
  "migrate_catalog cat =
     add_column ''observed_blobs'' (nullable ''cumulative_payment'' TNumeric)
       (fold create_table created_tables cat)"

text \<open>The catalog of a database whose tables were all created by the migrations.\<close>

definition schema :: catalog where
  "schema = migrate_catalog Map.empty"

lemma find_col_snoc: "find_col (cols @ [c]) (col_name c) \<noteq> None"
  by (induction cols) (auto simp: find_col_def)

lemma create_table_dom: "dom (create_table t cat) = insert (fst t) (dom cat)"
  by (auto simp: create_table_def split: prod.splits option.splits if_splits)

lemma create_table_present: "fst t \<in> dom cat \<Longrightarrow> create_table t cat = cat"
  by (auto simp: create_table_def split: prod.splits)

lemma fold_create_table_dom: "dom (fold create_table ts cat) = fst ` set ts \<union> dom cat"
  by (induction ts arbitrary: cat) (auto simp: create_table_dom)

lemma fold_create_table_present: "fst ` set ts \<subseteq> dom cat \<Longrightarrow> fold create_table ts cat = cat"
  by (induction ts) (auto simp: create_table_present)

lemma add_column_dom: "dom (add_column t c cat) = dom cat"
  by (auto simp: add_column_def split: option.splits if_splits)

lemma add_column_twice: "add_column t c (add_column t c cat) = add_column t c cat"
  by (auto simp: add_column_def find_col_snoc split: option.splits)

text \<open>Running the migrations again changes nothing, whatever tables there were before.\<close>

lemma migrate_catalog_idem: "migrate_catalog (migrate_catalog cat) = migrate_catalog cat"
proof -
  have "fst ` set created_tables \<subseteq> dom (migrate_catalog cat)"
    by (auto simp: migrate_catalog_def add_column_dom fold_create_table_dom)
  then have "fold create_table created_tables (migrate_catalog cat) = migrate_catalog cat"
    by (rule fold_create_table_present)
  then show ?thesis
    by (simp add: migrate_catalog_def add_column_twice)
qed

text \<open>A table that already exists keeps its columns; only \<open>observed_blobs\<close> can gain one.\<close>

lemma migrate_catalog_keeps:
  assumes "cat t = Some cols" and "t \<noteq> ''observed_blobs''"
  shows "migrate_catalog cat t = Some cols"
proof -
  have "fold create_table ts cat t = Some cols" for ts
    using assms(1)
  proof (induction ts arbitrary: cat)
    case (Cons a ts)
    have "create_table a cat t = Some cols"
      using Cons.prems by (auto simp: create_table_def split: prod.splits option.splits)
    then show ?case using Cons.IH by simp
  qed simp
  then show ?thesis
    using assms(2) by (auto simp: migrate_catalog_def add_column_def split: option.splits)
qed

lemma schema_tables:
  "schema ''observed_blobs'' = Some (snd (created_tables ! 0) @ [nullable ''cumulative_payment'' TNumeric])"
  "schema ''indexer_cursors'' = Some (snd (created_tables ! 1))"
  "schema ''retrieval_probes'' = Some (snd (created_tables ! 2))"
  "schema ''operator_probes'' = Some (snd (created_tables ! 3))"
  "schema ''attestation_snapshots'' = Some (snd (created_tables ! 4))"
  "schema ''stake_snapshots'' = Some (snd (created_tables ! 5))"
  "schema ''stake_snapshot_operators'' = Some (snd (created_tables ! 6))"
  "schema ''operator_status_snapshots'' = Some (snd (created_tables ! 7))"
  "schema ''ejection_events'' = Some (snd (created_tables ! 8))"
  "schema ''prober_health'' = Some (snd (created_tables ! 10))"
  "schema ''attestation_nonsigners'' = Some (snd (created_tables ! 11))"
  by code_simp+

end
