(* ===== verification/Database.thy ===== *)
theory Database
  imports Schema
begin

text \<open>
  Package db (internal/db/db.go): the structs the workers hand over, the tables as lists of
  rows in insertion order (each with the time its DEFAULT NOW() column got), and one
  definition per query function. A statement can be refused, or be executed while its
  acknowledgement is lost; which happens to the n-th statement is part of the state and
  arbitrary, so every theorem holds whatever the connection does. The order in which the
  server scans a table, and \<open>ORDER BY RANDOM()\<close>, come from the seeds in \<open>plan\<close>: any permutation.
\<close>

subsection \<open>Structs\<close>

record ObservedBlob =
  ob_BlobKey :: string
  ob_AccountID :: string
  ob_BlobStatus :: string
  ob_BlobSizeBytes :: int
  ob_RequestedAt :: u64
  ob_ExpiryUnixSec :: u64
  ob_CommitmentX :: string
  ob_CommitmentY :: string
  ob_QuorumNumbers :: string
  ob_IsSelfDispersed :: bool
  ob_DispersalLatencyMs :: int
  ob_CumulativePayment :: "string option"

record ProbeResult =
  pr_BlobKey :: string
  pr_BlobAgeHours :: float64
  pr_RelayKey :: int
  pr_Success :: bool
  pr_LatencyMs :: int
  pr_ErrorMessage :: string
  pr_DataSizeBytes :: int
  pr_KZGVerified :: "bool option"
  pr_KZGError :: string

record AttestationSnapshot =
  as_BlobKey :: string
  as_QuorumNumber :: int
  as_TotalNonSigners :: int
  as_SigningStakePercentage :: float64

record OperatorProbeResult =
  op_BlobKey :: string
  op_BlobAgeHours :: float64
  op_OperatorID :: string
  op_OperatorSocket :: string
  op_QuorumID :: int
  op_Success :: bool
  op_LatencyMs :: int
  op_ChunksReturned :: int
  op_ErrorMessage :: string

record StakeSnapshot =
  ss_QuorumID :: int
  ss_TotalStake :: string
  ss_OperatorCount :: int
  ss_HHI :: float64

record StakeSnapshotOperator =
  so_QuorumID :: int
  so_OperatorID :: string
  so_Stake :: string
  so_StakePct :: float64

record EjectionEvent =
  ee_EventTime :: int
  ee_BlockNumber :: int
  ee_TxHash :: string
  ee_LogIndex :: int
  ee_OperatorID :: string
  ee_QuorumNumber :: int

record OperatorStatus =
  os_OperatorAddress :: string
  os_MetadataName :: string
  os_Status :: string
  os_TotalStakers :: int
  os_TotalAvs :: int
  os_TVLETH :: float64

record AttestationNonsigner =
  an_BlobKey :: string
  an_QuorumNumber :: int
  an_OperatorID :: string

record AgedBlobKey =
  ab_BlobKey :: string
  ab_RequestedAt :: u64

record ProberHealth =
  ph_Goroutines :: int
  ph_HeapAllocMB :: float64
  ph_HeapSysMB :: float64
  ph_DBOpenConns :: int
  ph_DBInUse :: int
  ph_DBIdle :: int
  ph_DBWaitCount :: int
  ph_DBWaitDurationMs :: int
  ph_UptimeSeconds :: int

subsection \<open>The database\<close>

text \<open>A row with the time of its NOW() column.\<close>

type_synonym 'a stamped = "int \<times> 'a"

datatype stmt_fate = Acked | Refused | AckLost

datatype db_error = Unavailable | Rejected | NoRows

record db =
  catalog :: catalog
  observed_blobs :: "ObservedBlob stamped list"
  retrieval_probes :: "ProbeResult stamped list"
  operator_probes :: "OperatorProbeResult stamped list"
  attestation_snapshots :: "AttestationSnapshot stamped list"
  attestation_nonsigners :: "AttestationNonsigner stamped list"
  stake_snapshots :: "StakeSnapshot stamped list"
  stake_snapshot_operators :: "StakeSnapshotOperator stamped list"
  operator_status_snapshots :: "OperatorStatus stamped list"
  ejection_events :: "EjectionEvent list"
  indexer_cursors :: "string \<rightharpoonup> int stamped"
  prober_health :: "ProberHealth stamped list"
  stmts :: nat
  fate :: "nat \<Rightarrow> stmt_fate"
  sql_now :: "nat \<Rightarrow> int"
  plan :: "nat \<Rightarrow> nat list"

text \<open>A database before the first migration, behind a connection that loses nothing.\<close>

definition empty_db :: db where
  "empty_db = \<lparr>catalog = Map.empty, observed_blobs = [], retrieval_probes = [], operator_probes = [],
     attestation_snapshots = [], attestation_nonsigners = [], stake_snapshots = [],
     stake_snapshot_operators = [], operator_status_snapshots = [], ejection_events = [],
     indexer_cursors = Map.empty, prober_health = [], stmts = 0, fate = (\<lambda>_. Acked),
     sql_now = (\<lambda>n. int n), plan = (\<lambda>_. [])\<rparr>"

text \<open>The time NOW() gives to the statement that is being executed.\<close>

definition now_of :: "db \<Rightarrow> int" where
  "now_of d = sql_now d (stmts d)"

text \<open>The order in which the statement that is being executed produces the rows of a table.\<close>

definition scan :: "db \<Rightarrow> 'a list \<Rightarrow> 'a list" where
  "scan d xs = reorder (plan d (stmts d)) xs"

text \<open>
  \<open>ExecContext\<close>: one statement. Its body either fails (a constraint, an unknown table) or
  gives the new tables; the connection can lose the statement or its acknowledgement.
\<close>

definition exec :: "(db \<Rightarrow> db option) \<Rightarrow> db \<Rightarrow> db_error option \<times> db" where
  "exec body d =
     (let next = (\<lambda>x. x\<lparr>stmts := Suc (stmts d)\<rparr>) in
      case fate d (stmts d) of
        Refused \<Rightarrow> (Some Unavailable, next d)
      | Acked \<Rightarrow> (case body d of None \<Rightarrow> (Some Rejected, next d) | Some d' \<Rightarrow> (None, next d'))
      | AckLost \<Rightarrow> (case body d of None \<Rightarrow> (Some Rejected, next d) | Some d' \<Rightarrow> (Some Unavailable, next d')))"

text \<open>\<open>QueryContext\<close> and \<open>QueryRowContext\<close>: rows or an error; no table changes.\<close>

definition query :: "(db \<Rightarrow> db_error + 'a) \<Rightarrow> db \<Rightarrow> (db_error + 'a) \<times> db" where
  "query f d =
     (if fate d (stmts d) = Acked then f d else Inl Unavailable, d\<lparr>stmts := Suc (stmts d)\<rparr>)"

text \<open>The constraint check of an INSERT against the table's columns.\<close>

definition accepts :: "string \<Rightarrow> (string \<times> sqlval) list \<Rightarrow> db \<Rightarrow> bool" where
  "accepts t vals d = (case catalog d t of None \<Rightarrow> False | Some cols \<Rightarrow> insert_ok cols vals)"

subsection \<open>Migrations\<close>

text \<open>
  The migration text is sent as one simple-protocol message, which the server runs as one
  transaction. The seed rows of \<open>da_layer_metadata\<close>, the indexes and the views hold no state
  that the program reads back, so the model's effect is the catalog.
\<close>

definition runMigrations :: "db \<Rightarrow> db_error option \<times> db" where
  "runMigrations d = exec (\<lambda>d. Some (d\<lparr>catalog := migrate_catalog (catalog d)\<rparr>)) d"

definition migrated :: "db \<Rightarrow> bool" where
  "migrated d \<longleftrightarrow> catalog d = schema"

subsection \<open>Inserts\<close>

definition opt_val :: "('a \<Rightarrow> sqlval) \<Rightarrow> 'a option \<Rightarrow> sqlval" where
  "opt_val f x = (case x of None \<Rightarrow> SNull | Some v \<Rightarrow> f v)"

definition blob_values :: "ObservedBlob \<Rightarrow> (string \<times> sqlval) list" where
  "blob_values b = [
     (''blob_key'', SText (ob_BlobKey b)), (''account_id'', SText (ob_AccountID b)),
     (''blob_status'', SText (ob_BlobStatus b)), (''blob_size_bytes'', SInt (ob_BlobSizeBytes b)),
     (''requested_at'', SInt (uint (ob_RequestedAt b))),
     (''expiry_unix_sec'', SInt (uint (ob_ExpiryUnixSec b))),
     (''commitment_x'', SText (ob_CommitmentX b)), (''commitment_y'', SText (ob_CommitmentY b)),
     (''quorum_numbers'', SText (ob_QuorumNumbers b)),
     (''is_self_dispersed'', SBool (ob_IsSelfDispersed b)),
     (''dispersal_latency_ms'', SInt (ob_DispersalLatencyMs b)),
     (''cumulative_payment'', opt_val SText (ob_CumulativePayment b))]"

text \<open>
  \<open>ON CONFLICT (blob_key) DO UPDATE\<close>: three columns take part, the others keep what the
  first insert stored. \<open>COALESCE(NULLIF(new, 0), old)\<close> keeps the old latency for a new 0.
\<close>

definition merge_blob :: "ObservedBlob \<Rightarrow> ObservedBlob \<Rightarrow> ObservedBlob" where
  "merge_blob b old = old\<lparr>
     ob_IsSelfDispersed := ob_IsSelfDispersed b \<or> ob_IsSelfDispersed old,
     ob_DispersalLatencyMs := (if ob_DispersalLatencyMs b \<noteq> 0 then ob_DispersalLatencyMs b
                               else ob_DispersalLatencyMs old),
     ob_CumulativePayment := (case ob_CumulativePayment b of None \<Rightarrow> ob_CumulativePayment old
                              | Some p \<Rightarrow> Some p)\<rparr>"

fun upsert_row :: "int \<Rightarrow> ObservedBlob \<Rightarrow> ObservedBlob stamped list \<Rightarrow> ObservedBlob stamped list" where
  "upsert_row t b [] = [(t, b)]"
| "upsert_row t b (r # rs) =
     (if ob_BlobKey (snd r) = ob_BlobKey b then (fst r, merge_blob b (snd r)) # rs
      else r # upsert_row t b rs)"

definition upsertBlob :: "ObservedBlob \<Rightarrow> db \<Rightarrow> db_error option \<times> db" where
  "upsertBlob b d = exec (\<lambda>d. if accepts ''observed_blobs'' (blob_values b) d
     then Some (d\<lparr>observed_blobs := upsert_row (now_of d) b (observed_blobs d)\<rparr>) else None) d"

definition probe_values :: "ProbeResult \<Rightarrow> (string \<times> sqlval) list" where
  "probe_values p = [
     (''blob_key'', SText (pr_BlobKey p)), (''blob_age_hours'', SFlt (pr_BlobAgeHours p)),
     (''relay_key'', SInt (pr_RelayKey p)), (''success'', SBool (pr_Success p)),
     (''latency_ms'', SInt (pr_LatencyMs p)), (''error_message'', SText (pr_ErrorMessage p)),
     (''data_size_bytes'', SInt (pr_DataSizeBytes p)),
     (''kzg_verified'', opt_val SBool (pr_KZGVerified p)), (''kzg_error'', SText (pr_KZGError p))]"

definition insertProbeResult :: "ProbeResult \<Rightarrow> db \<Rightarrow> db_error option \<times> db" where
  "insertProbeResult p d = exec (\<lambda>d. if accepts ''retrieval_probes'' (probe_values p) d
     then Some (d\<lparr>retrieval_probes := retrieval_probes d @ [(now_of d, p)]\<rparr>) else None) d"

definition attestation_values :: "AttestationSnapshot \<Rightarrow> (string \<times> sqlval) list" where
  "attestation_values a = [
     (''blob_key'', SText (as_BlobKey a)), (''quorum_number'', SInt (as_QuorumNumber a)),
     (''total_nonsigners'', SInt (as_TotalNonSigners a)),
     (''signing_stake_percentage'', SFlt (as_SigningStakePercentage a))]"

definition insertAttestation :: "AttestationSnapshot \<Rightarrow> db \<Rightarrow> db_error option \<times> db" where
  "insertAttestation a d = exec (\<lambda>d. if accepts ''attestation_snapshots'' (attestation_values a) d
     then Some (d\<lparr>attestation_snapshots := attestation_snapshots d @ [(now_of d, a)]\<rparr>) else None) d"

definition nonsigner_values :: "AttestationNonsigner \<Rightarrow> (string \<times> sqlval) list" where
  "nonsigner_values n = [
     (''blob_key'', SText (an_BlobKey n)), (''quorum_number'', SInt (an_QuorumNumber n)),
     (''operator_id'', SText (an_OperatorID n))]"

definition insertAttestationNonsigner :: "AttestationNonsigner \<Rightarrow> db \<Rightarrow> db_error option \<times> db" where
  "insertAttestationNonsigner n d = exec (\<lambda>d. if accepts ''attestation_nonsigners'' (nonsigner_values n) d
     then Some (d\<lparr>attestation_nonsigners := attestation_nonsigners d @ [(now_of d, n)]\<rparr>) else None) d"

definition operator_probe_values :: "OperatorProbeResult \<Rightarrow> (string \<times> sqlval) list" where
  "operator_probe_values p = [
     (''blob_key'', SText (op_BlobKey p)), (''blob_age_hours'', SFlt (op_BlobAgeHours p)),
     (''operator_id'', SText (op_OperatorID p)), (''operator_socket'', SText (op_OperatorSocket p)),
     (''quorum_id'', SInt (op_QuorumID p)), (''success'', SBool (op_Success p)),
     (''latency_ms'', SInt (op_LatencyMs p)), (''chunks_returned'', SInt (op_ChunksReturned p)),
     (''error_message'', SText (op_ErrorMessage p))]"

definition insertOperatorProbe :: "OperatorProbeResult \<Rightarrow> db \<Rightarrow> db_error option \<times> db" where
  "insertOperatorProbe p d = exec (\<lambda>d. if accepts ''operator_probes'' (operator_probe_values p) d
     then Some (d\<lparr>operator_probes := operator_probes d @ [(now_of d, p)]\<rparr>) else None) d"

definition stake_values :: "StakeSnapshot \<Rightarrow> (string \<times> sqlval) list" where
  "stake_values s = [
     (''quorum_id'', SInt (ss_QuorumID s)), (''total_stake'', SText (ss_TotalStake s)),
     (''operator_count'', SInt (ss_OperatorCount s)), (''hhi'', SFlt (ss_HHI s))]"

definition insertStakeSnapshot :: "StakeSnapshot \<Rightarrow> db \<Rightarrow> db_error option \<times> db" where
  "insertStakeSnapshot s d = exec (\<lambda>d. if accepts ''stake_snapshots'' (stake_values s) d
     then Some (d\<lparr>stake_snapshots := stake_snapshots d @ [(now_of d, s)]\<rparr>) else None) d"

definition stake_operator_values :: "StakeSnapshotOperator \<Rightarrow> (string \<times> sqlval) list" where
  "stake_operator_values s = [
     (''quorum_id'', SInt (so_QuorumID s)), (''operator_id'', SText (so_OperatorID s)),
     (''stake'', SText (so_Stake s)), (''stake_pct'', SFlt (so_StakePct s))]"

definition insertStakeSnapshotOperator :: "StakeSnapshotOperator \<Rightarrow> db \<Rightarrow> db_error option \<times> db" where
  "insertStakeSnapshotOperator s d = exec (\<lambda>d. if accepts ''stake_snapshot_operators'' (stake_operator_values s) d
     then Some (d\<lparr>stake_snapshot_operators := stake_snapshot_operators d @ [(now_of d, s)]\<rparr>) else None) d"

definition ejection_values :: "EjectionEvent \<Rightarrow> (string \<times> sqlval) list" where
  "ejection_values e = [
     (''event_time'', STime (ee_EventTime e)), (''block_number'', SInt (ee_BlockNumber e)),
     (''tx_hash'', SText (ee_TxHash e)), (''log_index'', SInt (ee_LogIndex e)),
     (''operator_id'', SText (ee_OperatorID e)), (''quorum_number'', SInt (ee_QuorumNumber e))]"

text \<open>The UNIQUE(tx_hash, log_index) constraint and \<open>ON CONFLICT (tx_hash, log_index) DO NOTHING\<close>.\<close>

definition event_id :: "EjectionEvent \<Rightarrow> string \<times> int" where
  "event_id e = (ee_TxHash e, ee_LogIndex e)"

definition add_event :: "EjectionEvent \<Rightarrow> EjectionEvent list \<Rightarrow> EjectionEvent list" where
  "add_event e es = (if event_id e \<in> set (map event_id es) then es else es @ [e])"

definition insertEjectionEvent :: "EjectionEvent \<Rightarrow> db \<Rightarrow> db_error option \<times> db" where
  "insertEjectionEvent e d = exec (\<lambda>d. if accepts ''ejection_events'' (ejection_values e) d
     then Some (d\<lparr>ejection_events := add_event e (ejection_events d)\<rparr>) else None) d"

definition status_values :: "OperatorStatus \<Rightarrow> (string \<times> sqlval) list" where
  "status_values s = [
     (''operator_address'', SText (os_OperatorAddress s)), (''metadata_name'', SText (os_MetadataName s)),
     (''status'', SText (os_Status s)), (''total_stakers'', SInt (os_TotalStakers s)),
     (''total_avs'', SInt (os_TotalAvs s)), (''tvl_eth'', SFlt (os_TVLETH s))]"

definition upsertOperatorStatus :: "OperatorStatus \<Rightarrow> db \<Rightarrow> db_error option \<times> db" where
  "upsertOperatorStatus s d = exec (\<lambda>d. if accepts ''operator_status_snapshots'' (status_values s) d
     then Some (d\<lparr>operator_status_snapshots := operator_status_snapshots d @ [(now_of d, s)]\<rparr>) else None) d"

definition health_values :: "ProberHealth \<Rightarrow> (string \<times> sqlval) list" where
  "health_values h = [
     (''goroutines'', SInt (ph_Goroutines h)), (''heap_alloc_mb'', SFlt (ph_HeapAllocMB h)),
     (''heap_sys_mb'', SFlt (ph_HeapSysMB h)), (''db_open_conns'', SInt (ph_DBOpenConns h)),
     (''db_in_use'', SInt (ph_DBInUse h)), (''db_idle'', SInt (ph_DBIdle h)),
     (''db_wait_count'', SInt (ph_DBWaitCount h)),
     (''db_wait_duration_ms'', SInt (ph_DBWaitDurationMs h)), (''uptime_seconds'', SInt (ph_UptimeSeconds h))]"

definition insertProberHealth :: "ProberHealth \<Rightarrow> db \<Rightarrow> db_error option \<times> db" where
  "insertProberHealth h d = exec (\<lambda>d. if accepts ''prober_health'' (health_values h) d
     then Some (d\<lparr>prober_health := prober_health d @ [(now_of d, h)]\<rparr>) else None) d"

subsection \<open>Indexer cursors\<close>

definition getIndexerCursor :: "string \<Rightarrow> db \<Rightarrow> (db_error + int) \<times> db" where
  "getIndexerCursor name d =
     query (\<lambda>d. Inr (case indexer_cursors d name of None \<Rightarrow> 0 | Some c \<Rightarrow> snd c)) d"

definition cursor_values :: "string \<Rightarrow> int \<Rightarrow> int \<Rightarrow> (string \<times> sqlval) list" where
  "cursor_values name b t = [
     (''indexer_name'', SText name), (''last_block'', SInt b), (''updated_at'', STime t)]"

definition updateIndexerCursor :: "string \<Rightarrow> int \<Rightarrow> db \<Rightarrow> db_error option \<times> db" where
  "updateIndexerCursor name b d = exec (\<lambda>d. if accepts ''indexer_cursors'' (cursor_values name b (now_of d)) d
     then Some (d\<lparr>indexer_cursors := (indexer_cursors d)(name \<mapsto> (now_of d, b))\<rparr>) else None) d"

subsection \<open>Queries\<close>

text \<open>\<open>LEFT JOIN .. ON fa x = fb y\<close>.\<close>

definition left_join :: "('a \<Rightarrow> 'k) \<Rightarrow> ('b \<Rightarrow> 'k) \<Rightarrow> 'a list \<Rightarrow> 'b list \<Rightarrow> ('a \<times> 'b option) list" where
  "left_join fa fb xs ys = concat (map (\<lambda>x.
     let ms = filter (\<lambda>y. fa x = fb y) ys
     in if ms = [] then [(x, None)] else map (\<lambda>y. (x, Some y)) ms) xs)"

definition aged_key :: "ObservedBlob stamped \<Rightarrow> AgedBlobKey" where
  "aged_key r = \<lparr>ab_BlobKey = ob_BlobKey (snd r), ab_RequestedAt = ob_RequestedAt (snd r)\<rparr>"

text \<open>
  The anti-join both work queues use: blobs without a matching probe row, newest first,
  at most \<open>limit\<close>. The scan order of the blobs decides among equal \<open>requested_at\<close>.
\<close>

definition unprobed :: "('p stamped \<Rightarrow> string) \<Rightarrow> nat \<Rightarrow> ObservedBlob stamped list
    \<Rightarrow> 'p stamped list \<Rightarrow> AgedBlobKey list" where
  "unprobed key limit blobs probes =
     take limit (map aged_key (sort_key (\<lambda>r. - uint (ob_RequestedAt (snd r)))
       (map fst (filter (\<lambda>(_, p). p = None)
         (left_join (\<lambda>r. ob_BlobKey (snd r)) key blobs probes)))))"

definition getUnprobedBlobs :: "nat \<Rightarrow> db \<Rightarrow> (db_error + AgedBlobKey list) \<times> db" where
  "getUnprobedBlobs limit d = query (\<lambda>d. Inr
     (unprobed (\<lambda>p. pr_BlobKey (snd p)) limit (scan d (observed_blobs d)) (retrieval_probes d))) d"

definition getUnprobedOperatorBlobs :: "nat \<Rightarrow> db \<Rightarrow> (db_error + AgedBlobKey list) \<times> db" where
  "getUnprobedOperatorBlobs limit d = query (\<lambda>d. Inr
     (unprobed (\<lambda>p. op_BlobKey (snd p)) limit (scan d (observed_blobs d)) (operator_probes d))) d"

text \<open>\<open>int64(h * float64(time.Hour))\<close>: the rounded product, truncated towards zero.\<close>

definition hours_to_ns :: "float64 \<Rightarrow> int" where
  "hours_to_ns h = (let x = fl64 (h * hour_ns) in if 0 \<le> x then \<lfloor>x\<rfloor> else \<lceil>x\<rceil>)"

definition in_window :: "int \<Rightarrow> float64 \<Rightarrow> float64 \<Rightarrow> int \<Rightarrow> bool" where
  "in_window nowNano hoursAgo windowHours t =
     (let target = nowNano - hours_to_ns hoursAgo; w = hours_to_ns windowHours
      in target - w \<le> t \<and> t \<le> target + w)"

text \<open>The rows of the window in random order, at most \<open>limit\<close>.\<close>

definition getAgedBlobKeys :: "int \<Rightarrow> float64 \<Rightarrow> float64 \<Rightarrow> nat \<Rightarrow> db
    \<Rightarrow> (db_error + AgedBlobKey list) \<times> db" where
  "getAgedBlobKeys nowNano hoursAgo windowHours limit d = query (\<lambda>d. Inr
     (take limit (map aged_key (scan d
       (filter (\<lambda>r. in_window nowNano hoursAgo windowHours (uint (ob_RequestedAt (snd r))))
          (observed_blobs d)))))) d"

definition getBlobCommitment :: "string \<Rightarrow> db \<Rightarrow> (db_error + string \<times> string) \<times> db" where
  "getBlobCommitment k d = query (\<lambda>d.
     case find (\<lambda>r. ob_BlobKey (snd r) = k) (observed_blobs d) of
       None \<Rightarrow> Inl NoRows
     | Some r \<Rightarrow> Inr (ob_CommitmentX (snd r), ob_CommitmentY (snd r))) d"

text \<open>The latest snapshot of every operator address.\<close>

definition latest_statuses :: "OperatorStatus stamped list \<Rightarrow> OperatorStatus stamped list" where
  "latest_statuses rows =
     distinct_on (\<lambda>r. os_OperatorAddress (snd r)) (sort_key (\<lambda>r. - fst r) rows)"

definition getDeadOperators :: "db \<Rightarrow> (db_error + OperatorStatus list) \<times> db" where
  "getDeadOperators d = query (\<lambda>d. Inr
     (map snd (filter (\<lambda>r. os_Status (snd r) = ''inactive'')
       (latest_statuses (scan d (operator_status_snapshots d)))))) d"

end
