(* ===== verification/DatabaseFacts.thy ===== *)
theory DatabaseFacts
  imports Database
begin

text \<open>
  What the operations of Database guarantee: the frame of each statement, when a migrated
  database accepts a row, the primary key of \<open>observed_blobs\<close> and the meaning of its upsert,
  the uniqueness of ejection events, the two work queues as an interface (the locale
  \<open>probe_queue\<close>) with its two instances, and the cursor table as a key-value store (the
  locale \<open>indexer_store\<close>).
\<close>

subsection \<open>Statements\<close>

definition acked :: "db \<Rightarrow> bool" where
  "acked d \<longleftrightarrow> fate d (stmts d) = Acked"

lemma exec_cases:
  obtains (same) e where "exec body d = (Some e, d\<lparr>stmts := Suc (stmts d)\<rparr>)"
  | (run) e d' where "body d = Some d'" and "exec body d = (e, d'\<lparr>stmts := Suc (stmts d)\<rparr>)"
      and "e = None \<longleftrightarrow> acked d"
  by (cases "fate d (stmts d)"; cases "body d") (auto simp: exec_def Let_def acked_def)

lemma exec_acked:
  "acked d \<Longrightarrow> exec body d = (case body d of None \<Rightarrow> (Some Rejected, d\<lparr>stmts := Suc (stmts d)\<rparr>)
     | Some d' \<Rightarrow> (None, d'\<lparr>stmts := Suc (stmts d)\<rparr>))"
  by (simp add: exec_def Let_def acked_def split: option.splits)

lemma exec_None: "exec body d = (None, e) \<Longrightarrow> \<exists>d'. body d = Some d' \<and> e = d'\<lparr>stmts := Suc (stmts d)\<rparr>"
  by (cases "fate d (stmts d)"; cases "body d") (auto simp: exec_def Let_def)

text \<open>A field that neither the statement counter nor the body touches is unchanged.\<close>

lemma exec_frame:
  assumes "\<And>d'. body d = Some d' \<Longrightarrow> f d' = f d" and "\<And>x n. f (x\<lparr>stmts := n\<rparr>) = f x"
  shows "f (snd (exec body d)) = f d"
  using assms by (cases rule: exec_cases [of body d]) auto

lemma exec_stmts [simp]: "stmts (snd (exec body d)) = Suc (stmts d)"
  by (cases rule: exec_cases [of body d]) auto

lemma exec_rejected: "body d = None \<Longrightarrow> fst (exec body d) \<noteq> None \<and> snd (exec body d) = d\<lparr>stmts := Suc (stmts d)\<rparr>"
  by (simp add: exec_def Let_def split: stmt_fate.splits)

lemma query_state [simp]: "snd (query f d) = d\<lparr>stmts := Suc (stmts d)\<rparr>"
  by (simp add: query_def)

lemma query_acked: "acked d \<Longrightarrow> fst (query f d) = f d"
  by (simp add: query_def acked_def)

lemma query_Inr: "fst (query f d) = Inr x \<Longrightarrow> f d = Inr x"
  by (simp add: query_def split: if_splits)

lemmas insert_defs = upsertBlob_def insertProbeResult_def insertAttestation_def
  insertAttestationNonsigner_def insertOperatorProbe_def insertStakeSnapshot_def
  insertStakeSnapshotOperator_def insertEjectionEvent_def upsertOperatorStatus_def
  insertProberHealth_def updateIndexerCursor_def

text \<open>Each insert leaves the catalog, the connection's fate and all the other tables alone.\<close>

lemma insert_frame [simp, db_simps]:
  "catalog (snd (upsertBlob b d)) = catalog d"
  "fate (snd (upsertBlob b d)) = fate d"
  "retrieval_probes (snd (upsertBlob b d)) = retrieval_probes d"
  "operator_probes (snd (upsertBlob b d)) = operator_probes d"
  "catalog (snd (insertProbeResult p d)) = catalog d"
  "fate (snd (insertProbeResult p d)) = fate d"
  "observed_blobs (snd (insertProbeResult p d)) = observed_blobs d"
  "operator_probes (snd (insertProbeResult p d)) = operator_probes d"
  "catalog (snd (insertOperatorProbe o' d)) = catalog d"
  "fate (snd (insertOperatorProbe o' d)) = fate d"
  "observed_blobs (snd (insertOperatorProbe o' d)) = observed_blobs d"
  "retrieval_probes (snd (insertOperatorProbe o' d)) = retrieval_probes d"
  "catalog (snd (insertEjectionEvent e d)) = catalog d"
  "fate (snd (insertEjectionEvent e d)) = fate d"
  "indexer_cursors (snd (insertEjectionEvent e d)) = indexer_cursors d"
  "catalog (snd (updateIndexerCursor n c d)) = catalog d"
  "fate (snd (updateIndexerCursor n c d)) = fate d"
  "ejection_events (snd (updateIndexerCursor n c d)) = ejection_events d"
  "catalog (snd (upsertOperatorStatus s d)) = catalog d"
  "fate (snd (upsertOperatorStatus s d)) = fate d"
  "observed_blobs (snd (upsertOperatorStatus s d)) = observed_blobs d"
  "catalog (snd (insertAttestation a d)) = catalog d"
  "fate (snd (insertAttestation a d)) = fate d"
  "observed_blobs (snd (insertAttestation a d)) = observed_blobs d"
  "retrieval_probes (snd (insertAttestation a d)) = retrieval_probes d"
  "catalog (snd (insertAttestationNonsigner x d)) = catalog d"
  "fate (snd (insertAttestationNonsigner x d)) = fate d"
  "observed_blobs (snd (insertAttestationNonsigner x d)) = observed_blobs d"
  "retrieval_probes (snd (insertAttestationNonsigner x d)) = retrieval_probes d"
  "catalog (snd (insertStakeSnapshot y d)) = catalog d"
  "fate (snd (insertStakeSnapshot y d)) = fate d"
  "catalog (snd (insertStakeSnapshotOperator z d)) = catalog d"
  "fate (snd (insertStakeSnapshotOperator z d)) = fate d"
  by (simp_all add: insert_defs exec_def Let_def split: stmt_fate.splits)

lemma insert_stmts [simp]:
  "stmts (snd (upsertBlob b d)) = Suc (stmts d)"
  "stmts (snd (insertProbeResult p d)) = Suc (stmts d)"
  "stmts (snd (insertOperatorProbe o' d)) = Suc (stmts d)"
  "stmts (snd (insertEjectionEvent e d)) = Suc (stmts d)"
  "stmts (snd (updateIndexerCursor n c d)) = Suc (stmts d)"
  "stmts (snd (upsertOperatorStatus s d)) = Suc (stmts d)"
  by (simp_all add: insert_defs)

lemma query_frame [simp]:
  "snd (getIndexerCursor n d) = d\<lparr>stmts := Suc (stmts d)\<rparr>"
  "snd (getBlobCommitment k d) = d\<lparr>stmts := Suc (stmts d)\<rparr>"
  "snd (getUnprobedBlobs l d) = d\<lparr>stmts := Suc (stmts d)\<rparr>"
  "snd (getUnprobedOperatorBlobs l d) = d\<lparr>stmts := Suc (stmts d)\<rparr>"
  "snd (getAgedBlobKeys t h w l d) = d\<lparr>stmts := Suc (stmts d)\<rparr>"
  by (simp_all add: getIndexerCursor_def getBlobCommitment_def getUnprobedBlobs_def
      getUnprobedOperatorBlobs_def getAgedBlobKeys_def)

text \<open>The database after the migrations of a first start.\<close>

definition fresh_db :: db where
  "fresh_db = snd (runMigrations empty_db)"

lemma fresh_db: "fresh_db = empty_db\<lparr>catalog := schema, stmts := 1\<rparr>"
  by (simp add: fresh_db_def runMigrations_def exec_def empty_db_def schema_def Let_def)

lemma fresh_db_migrated [simp]: "migrated fresh_db" and fresh_db_fate [simp]: "fate fresh_db = (\<lambda>_. Acked)"
  and fresh_db_acked [simp]: "acked fresh_db"
  by (simp_all add: migrated_def fresh_db acked_def empty_db_def)

definition demo_blob :: "string \<Rightarrow> u64 \<Rightarrow> ObservedBlob" where
  "demo_blob k t = \<lparr>ob_BlobKey = k, ob_AccountID = ''0xacc'', ob_BlobStatus = ''COMPLETE'', ob_BlobSizeBytes = 131072,
     ob_RequestedAt = t, ob_ExpiryUnixSec = 0, ob_CommitmentX = ''1'', ob_CommitmentY = ''2'', ob_QuorumNumbers = ''0,1'',
     ob_IsSelfDispersed = False, ob_DispersalLatencyMs = 0, ob_CumulativePayment = None\<rparr>"

subsection \<open>What a migrated database accepts\<close>

lemma accepts_schema:
  "migrated d \<Longrightarrow> accepts t vals d = (case schema t of None \<Rightarrow> False | Some cols \<Rightarrow> insert_ok cols vals)"
  by (simp add: accepts_def migrated_def)

lemma find_col_Cons: "find_col (c # cs) n = (if col_name c = n then Some c else find_col cs n)"
  by (simp add: find_col_def)

lemmas accepts_simps = accepts_schema schema_tables created_tables_def insert_ok_def value_ok_def
  find_col_Cons column_defs

lemma accepts_probe:
  "migrated d \<Longrightarrow> accepts ''retrieval_probes'' (probe_values p) d \<longleftrightarrow>
     length (pr_BlobKey p) \<le> 128 \<and> fits TInteger (SInt (pr_RelayKey p)) \<and>
     fits TInteger (SInt (pr_LatencyMs p)) \<and> fits TInteger (SInt (pr_DataSizeBytes p))"
  by (simp add: accepts_simps probe_values_def opt_val_def split: option.splits)

lemma accepts_operator_probe:
  "migrated d \<Longrightarrow> accepts ''operator_probes'' (operator_probe_values p) d \<longleftrightarrow>
     length (op_BlobKey p) \<le> 128 \<and> length (op_OperatorID p) \<le> 128 \<and>
     fits TInteger (SInt (op_QuorumID p)) \<and> fits TInteger (SInt (op_LatencyMs p)) \<and>
     fits TInteger (SInt (op_ChunksReturned p))"
  by (simp add: accepts_simps operator_probe_values_def)

lemma accepts_ejection:
  "migrated d \<Longrightarrow> accepts ''ejection_events'' (ejection_values e) d \<longleftrightarrow>
     fits TBigint (SInt (ee_BlockNumber e)) \<and> length (ee_TxHash e) \<le> 66 \<and>
     fits TInteger (SInt (ee_LogIndex e)) \<and> length (ee_OperatorID e) \<le> 128 \<and>
     fits TInteger (SInt (ee_QuorumNumber e))"
  by (simp add: accepts_simps ejection_values_def)

lemma accepts_cursor:
  "migrated d \<Longrightarrow> accepts ''indexer_cursors'' (cursor_values n b t) d \<longleftrightarrow>
     length n \<le> 64 \<and> fits TBigint (SInt b)"
  by (simp add: accepts_simps cursor_values_def)

lemma accepts_status:
  "migrated d \<Longrightarrow> accepts ''operator_status_snapshots'' (status_values s) d \<longleftrightarrow>
     length (os_OperatorAddress s) \<le> 42 \<and> length (os_Status s) \<le> 16 \<and>
     fits TInteger (SInt (os_TotalStakers s)) \<and> fits TInteger (SInt (os_TotalAvs s))"
  by (simp add: accepts_simps status_values_def)

lemma accepts_blob:
  "migrated d \<Longrightarrow> accepts ''observed_blobs'' (blob_values b) d \<longleftrightarrow>
     length (ob_BlobKey b) \<le> 128 \<and> length (ob_AccountID b) \<le> 64 \<and> length (ob_BlobStatus b) \<le> 32 \<and>
     fits TInteger (SInt (ob_BlobSizeBytes b)) \<and> fits TBigint (SInt (uint (ob_RequestedAt b))) \<and>
     fits TBigint (SInt (uint (ob_ExpiryUnixSec b))) \<and>
     fits TInteger (SInt (ob_DispersalLatencyMs b)) \<and>
     fits TNumeric (opt_val SText (ob_CumulativePayment b))"
  by (simp add: accepts_simps blob_values_def)

lemma accepts_stake:
  "migrated d \<Longrightarrow> accepts ''stake_snapshots'' (stake_values s) d \<longleftrightarrow>
     fits TInteger (SInt (ss_QuorumID s)) \<and> numeric_text (ss_TotalStake s) \<and>
     fits TInteger (SInt (ss_OperatorCount s))"
  by (simp add: accepts_simps stake_values_def)

lemma rejects_stake_operator:
  "migrated d \<Longrightarrow> \<not> accepts ''stake_snapshot_operators'' (stake_operator_values s) d"
  by (simp add: accepts_simps stake_operator_values_def)

subsection \<open>The primary key of \<open>observed_blobs\<close>\<close>

definition blob_keys :: "ObservedBlob stamped list \<Rightarrow> string list" where
  "blob_keys rows = map (\<lambda>r. ob_BlobKey (snd r)) rows"

text \<open>The table as a finite map from blob key to blob.\<close>

definition blob_map :: "ObservedBlob stamped list \<Rightarrow> string \<Rightarrow> ObservedBlob option" where
  "blob_map rows k = map_option snd (find (\<lambda>r. ob_BlobKey (snd r) = k) rows)"

lemma blob_map_simps [simp]:
  "blob_map [] k = None"
  "blob_map (r # rs) k = (if ob_BlobKey (snd r) = k then Some (snd r) else blob_map rs k)"
  by (simp_all add: blob_map_def)

lemma merge_blob_key [simp]: "ob_BlobKey (merge_blob b old) = ob_BlobKey old"
  by (simp add: merge_blob_def)

lemma upsert_row_keys: "blob_keys (upsert_row t b rs) =
    (if ob_BlobKey b \<in> set (blob_keys rs) then blob_keys rs else blob_keys rs @ [ob_BlobKey b])"
  by (induction rs) (auto simp: blob_keys_def)

lemma upsert_row_distinct: "distinct (blob_keys rs) \<Longrightarrow> distinct (blob_keys (upsert_row t b rs))"
  by (simp add: upsert_row_keys)

text \<open>The upsert is a map update: insert when the key is new, merge when it is there.\<close>

lemma upsert_row_map: "blob_map (upsert_row t b rs) = (blob_map rs)(ob_BlobKey b \<mapsto>
    (case blob_map rs (ob_BlobKey b) of None \<Rightarrow> b | Some old \<Rightarrow> merge_blob b old))"
  by (induction rs) (auto simp: fun_eq_iff)

lemma merge_blob_idem: "merge_blob b (merge_blob b old) = merge_blob b old"
  by (simp add: merge_blob_def split: option.splits)

lemma merge_blob_self: "merge_blob b b = b"
  by (simp add: merge_blob_def split: option.splits)

lemma upsert_row_idem: "upsert_row t' b (upsert_row t b rs) = upsert_row t b rs"
  by (induction rs) (auto simp: merge_blob_idem merge_blob_self)

lemma upsertBlob_distinct:
  "distinct (blob_keys (observed_blobs d)) \<Longrightarrow> distinct (blob_keys (observed_blobs (snd (upsertBlob b d))))"
  unfolding upsertBlob_def
  by (cases rule: exec_cases [of "\<lambda>d. if accepts ''observed_blobs'' (blob_values b) d
     then Some (d\<lparr>observed_blobs := upsert_row (now_of d) b (observed_blobs d)\<rparr>) else None" d])
    (auto simp: upsert_row_distinct split: if_splits)

lemma upsertBlob_acked:
  "acked d \<Longrightarrow> accepts ''observed_blobs'' (blob_values b) d \<Longrightarrow>
   upsertBlob b d = (None, d\<lparr>observed_blobs := upsert_row (now_of d) b (observed_blobs d), stmts := Suc (stmts d)\<rparr>)"
  by (simp add: upsertBlob_def exec_acked)

lemma upsertBlob_ok:
  "fst (upsertBlob b d) = None \<Longrightarrow>
   observed_blobs (snd (upsertBlob b d)) = upsert_row (now_of d) b (observed_blobs d)"
  by (auto simp: upsertBlob_def exec_def Let_def split: stmt_fate.splits option.splits if_splits)

lemma upsertBlob_keys:
  "set (blob_keys (observed_blobs d)) \<subseteq> set (blob_keys (observed_blobs (snd (upsertBlob b d))))"
  by (auto simp: upsertBlob_def exec_def Let_def upsert_row_keys split: stmt_fate.splits option.splits if_splits)

lemma getBlobCommitment_acked:
  "acked d \<Longrightarrow> fst (getBlobCommitment k d) = (case blob_map (observed_blobs d) k of None \<Rightarrow> Inl NoRows
     | Some b \<Rightarrow> Inr (ob_CommitmentX b, ob_CommitmentY b))"
  by (simp add: getBlobCommitment_def query_acked blob_map_def split: option.splits)

subsection \<open>Work queues\<close>

text \<open>
  What a worker relies on when it takes blobs from a queue and records a probe for each:
  what it gets is pending, at most as many as asked for, an empty answer means nothing is
  pending, and a recorded probe takes its blob out of the queue for good.
\<close>

locale probe_queue =
  fixes pending :: "'s \<Rightarrow> string set"
    and take_next :: "nat \<Rightarrow> 's \<Rightarrow> AgedBlobKey list"
    and record_probe :: "'p \<Rightarrow> 's \<Rightarrow> 's"
    and key :: "'p \<Rightarrow> string"
  assumes take_pending: "x \<in> set (take_next n s) \<Longrightarrow> ab_BlobKey x \<in> pending s"
    and take_length: "length (take_next n s) \<le> n"
    and take_empty: "take_next (Suc n) s = [] \<Longrightarrow> pending s = {}"
    and record_pending: "pending (record_probe p s) = pending s - {key p}"
begin

lemma recorded_not_taken: "x \<in> set (take_next n (record_probe p s)) \<Longrightarrow> ab_BlobKey x \<noteq> key p"
  using take_pending record_pending by blast

lemma record_all_pending: "pending (fold record_probe ps s) = pending s - key ` set ps"
  by (induction ps arbitrary: s) (auto simp: record_pending)

lemma recorded_batch_not_taken:
  "x \<in> set (take_next n (fold record_probe ps s)) \<Longrightarrow> ab_BlobKey x \<notin> key ` set ps"
  using take_pending record_all_pending by blast

end

lemma left_join_unmatched:
  "map fst (filter (\<lambda>(_, p). p = None) (left_join fa fb xs ys)) = filter (\<lambda>x. fa x \<notin> fb ` set ys) xs"
proof (induction xs)
  case (Cons x xs)
  show ?case
  proof (cases "fa x \<in> fb ` set ys")
    case True
    then have "filter (\<lambda>y. fa x = fb y) ys \<noteq> []" by (auto simp: filter_empty_conv)
    moreover have "filter (\<lambda>(_, p). p = None) (map (\<lambda>y. (x, Some y)) zs) = []" for zs
      by (simp add: filter_empty_conv)
    ultimately show ?thesis using True Cons by (simp add: left_join_def Let_def)
  next
    case False
    then have "filter (\<lambda>y. fa x = fb y) ys = []" by (auto simp: filter_empty_conv)
    then show ?thesis using False Cons by (simp add: left_join_def Let_def)
  qed
qed (simp add: left_join_def)

lemma unprobed_alt:
  "unprobed key limit blobs probes = take limit (map aged_key (sort_key (\<lambda>r. - uint (ob_RequestedAt (snd r)))
     (filter (\<lambda>r. ob_BlobKey (snd r) \<notin> key ` set probes) blobs)))"
  by (simp add: unprobed_def left_join_unmatched)

definition pending_keys :: "('p stamped \<Rightarrow> string) \<Rightarrow> ObservedBlob stamped list \<Rightarrow> 'p stamped list \<Rightarrow> string set" where
  "pending_keys key blobs probes = set (blob_keys blobs) - key ` set probes"

lemma ab_BlobKey_aged [simp]: "ab_BlobKey (aged_key r) = ob_BlobKey (snd r)"
  and ab_RequestedAt_aged [simp]: "ab_RequestedAt (aged_key r) = ob_RequestedAt (snd r)"
  by (simp_all add: aged_key_def)

lemma unprobed_pending:
  "x \<in> set (unprobed key n blobs probes) \<Longrightarrow> ab_BlobKey x \<in> pending_keys key blobs probes"
  by (force simp: unprobed_alt pending_keys_def blob_keys_def dest!: in_set_takeD)

lemma unprobed_length: "length (unprobed key n blobs probes) \<le> n"
  by (simp add: unprobed_alt)

lemma unprobed_empty: "unprobed key (Suc n) blobs probes = [] \<Longrightarrow> pending_keys key blobs probes = {}"
  by (auto simp: unprobed_alt pending_keys_def blob_keys_def filter_empty_conv)

lemma pending_keys_scan [simp]: "pending_keys key (scan d blobs) probes = pending_keys key blobs probes"
  by (simp add: pending_keys_def blob_keys_def scan_def)

lemma pending_keys_snoc: "pending_keys key blobs (probes @ [p]) = pending_keys key blobs probes - {key p}"
  by (auto simp: pending_keys_def)

interpretation relay_queue: probe_queue
  "\<lambda>d. pending_keys (\<lambda>p. pr_BlobKey (snd p)) (observed_blobs d) (retrieval_probes d)"
  "\<lambda>n d. unprobed (\<lambda>p. pr_BlobKey (snd p)) n (scan d (observed_blobs d)) (retrieval_probes d)"
  "\<lambda>p d. d\<lparr>retrieval_probes := retrieval_probes d @ [p]\<rparr>"
  "\<lambda>p. pr_BlobKey (snd p)"
  by unfold_locales
    (auto simp: pending_keys_snoc unprobed_length dest: unprobed_pending unprobed_empty)

interpretation operator_queue: probe_queue
  "\<lambda>d. pending_keys (\<lambda>p. op_BlobKey (snd p)) (observed_blobs d) (operator_probes d)"
  "\<lambda>n d. unprobed (\<lambda>p. op_BlobKey (snd p)) n (scan d (observed_blobs d)) (operator_probes d)"
  "\<lambda>p d. d\<lparr>operator_probes := operator_probes d @ [p]\<rparr>"
  "\<lambda>p. op_BlobKey (snd p)"
  by unfold_locales
    (auto simp: pending_keys_snoc unprobed_length dest: unprobed_pending unprobed_empty)

subsection \<open>Indexers\<close>

text \<open>
  What an indexer relies on when it records the events of a range and then advances its
  cursor: advancing touches no event and either takes effect or leaves the cursor, recording
  leaves the cursor and adds at most the one event. From it: what one round of an indexer
  does, even if statements are lost.
\<close>

locale indexer_store =
  fixes cursor_of :: "'s \<Rightarrow> int"
    and advance :: "int \<Rightarrow> 's \<Rightarrow> 's"
    and ids :: "'s \<Rightarrow> 'i set"
    and record_event :: "'e \<Rightarrow> 's \<Rightarrow> 's"
    and id_of :: "'e \<Rightarrow> 'i"
  assumes cursor_advance: "cursor_of (advance b s) = b \<or> cursor_of (advance b s) = cursor_of s"
    and ids_advance: "ids (advance b s) = ids s"
    and cursor_record: "cursor_of (record_event e s) = cursor_of s"
    and ids_record: "ids s \<subseteq> ids (record_event e s)" "ids (record_event e s) \<subseteq> insert (id_of e) (ids s)"
begin

lemma cursor_fold: "cursor_of (fold record_event es s) = cursor_of s"
  by (induction es arbitrary: s) (simp_all add: cursor_record)

lemma ids_fold: "ids s \<subseteq> ids (fold record_event es s)" "ids (fold record_event es s) \<subseteq> ids s \<union> id_of ` set es"
proof (induction es arbitrary: s)
  case (Cons e es)
  { case 1 show ?case using Cons(1) [of "record_event e s"] ids_record(1) [of s e] by simp }
  { case 2 show ?case using Cons(2) [of "record_event e s"] ids_record(2) [of e s] by auto }
qed simp_all

lemma round_cursor:
  "cursor_of s \<le> b \<Longrightarrow> cursor_of s \<le> cursor_of (advance b (fold record_event es s)) \<and>
     cursor_of (advance b (fold record_event es s)) \<in> {b, cursor_of s}"
  using cursor_advance [of b "fold record_event es s"] by (auto simp: cursor_fold)

lemma round_ids:
  "ids s \<subseteq> ids (advance b (fold record_event es s))"
  "ids (advance b (fold record_event es s)) \<subseteq> ids s \<union> id_of ` set es"
  using ids_fold by (simp_all add: ids_advance)

end

definition cursor_value :: "string \<Rightarrow> db \<Rightarrow> int" where
  "cursor_value name d = (case indexer_cursors d name of None \<Rightarrow> 0 | Some c \<Rightarrow> snd c)"

definition event_ids :: "db \<Rightarrow> (string \<times> int) set" where
  "event_ids d = set (map event_id (ejection_events d))"

lemma add_event_ids: "set (map event_id (add_event e es)) = insert (event_id e) (set (map event_id es))"
  by (auto simp: add_event_def)

lemma add_event_distinct: "distinct (map event_id es) \<Longrightarrow> distinct (map event_id (add_event e es))"
  by (auto simp: add_event_def)

lemma insertEjectionEvent_events:
  "ejection_events (snd (insertEjectionEvent e d)) \<in> {ejection_events d, add_event e (ejection_events d)}"
  by (auto simp: insertEjectionEvent_def exec_def Let_def split: stmt_fate.splits)

lemma insertEjectionEvent_ids: "event_ids (snd (insertEjectionEvent e d)) \<in> {event_ids d, insert (event_id e) (event_ids d)}"
proof -
  consider "ejection_events (snd (insertEjectionEvent e d)) = ejection_events d"
    | "ejection_events (snd (insertEjectionEvent e d)) = add_event e (ejection_events d)"
    using insertEjectionEvent_events [of e d] by blast
  then show ?thesis by cases (simp_all add: event_ids_def add_event_ids del: set_map)
qed

lemma insertEjectionEvent_distinct:
  "distinct (map event_id (ejection_events d)) \<Longrightarrow> distinct (map event_id (ejection_events (snd (insertEjectionEvent e d))))"
  using insertEjectionEvent_events [of e d] add_event_distinct by auto

lemma updateIndexerCursor_value:
  "cursor_value n (snd (updateIndexerCursor n b d)) = b \<or> cursor_value n (snd (updateIndexerCursor n b d)) = cursor_value n d"
  by (auto simp: updateIndexerCursor_def exec_def Let_def cursor_value_def split: stmt_fate.splits)

interpretation ejection_store: indexer_store "cursor_value n" "\<lambda>b d. snd (updateIndexerCursor n b d)"
  event_ids "\<lambda>e d. snd (insertEjectionEvent e d)" event_id for n
proof unfold_locales
  fix b d show "cursor_value n (snd (updateIndexerCursor n b d)) = b \<or> cursor_value n (snd (updateIndexerCursor n b d)) = cursor_value n d"
    by (rule updateIndexerCursor_value)
next
  fix e d
  show "event_ids d \<subseteq> event_ids (snd (insertEjectionEvent e d))"
    and "event_ids (snd (insertEjectionEvent e d)) \<subseteq> insert (event_id e) (event_ids d)"
    using insertEjectionEvent_ids [of e d] by auto
qed (simp_all add: event_ids_def cursor_value_def)

lemma getIndexerCursor_fst: "fst (getIndexerCursor n d) = (if acked d then Inr (cursor_value n d) else Inl Unavailable)"
  by (simp add: getIndexerCursor_def query_def acked_def cursor_value_def)

lemma cursor_value_stmts [simp]: "cursor_value n (d\<lparr>stmts := k\<rparr>) = cursor_value n d"
  and event_ids_stmts [simp]: "event_ids (d\<lparr>stmts := k\<rparr>) = event_ids d"
  by (simp_all add: cursor_value_def event_ids_def)

end
