(* ===== verification/Contracts.thy ===== *)
theory Contracts
  imports Prelude
begin

text \<open>
  Calls to Ethereum contracts (package internal/contracts and its callers). go-ethereum's
  ABI encoder, RPC client and decoder are a parameter: a call made through them gives an
  \<open>abi_reply\<close>, whose constructors are the places where the Go code tests for an error.
  A decoded reply has one value per declared output, so an empty value list is one of the
  ways to fail to unpack.
\<close>

datatype 'a abi_reply = PackFails go_error | CallFails go_error | UnpackFails go_error
  | WrongType | Value 'a

type_synonym address = bytes

definition zero_address :: address where
  "zero_address = replicate 20 0"

text \<open>\<open>contracts.ResolveAddress\<close>: the directory's \<open>getAddress(name)\<close>.\<close>

definition resolveAddress :: "(string \<Rightarrow> address abi_reply) \<Rightarrow> string \<Rightarrow> address go_result" where
  "resolveAddress directory name = (case directory name of
     PackFails e \<Rightarrow> Inl e
   | CallFails e \<Rightarrow> Inl e
   | UnpackFails e \<Rightarrow> Inl (''unpack getAddress('' @ name @ '') failed'')
   | WrongType \<Rightarrow> Inl ''unexpected type for address''
   | Value a \<Rightarrow> Inr a)"

text \<open>
  \<open>StakeRegistryClient.GetCurrentStake\<close>: a \<open>uint96\<close>, decoded to a \<open>big.Int\<close>.
\<close>

definition getCurrentStake :: "(bytes \<Rightarrow> u8 \<Rightarrow> int abi_reply) \<Rightarrow> bytes \<Rightarrow> u8 \<Rightarrow> int go_result" where
  "getCurrentStake stake_registry operatorID quorumNumber = (case stake_registry operatorID quorumNumber of
     PackFails e \<Rightarrow> Inl (''pack getCurrentStake: '' @ e)
   | CallFails e \<Rightarrow> Inl (''call getCurrentStake: '' @ e)
   | UnpackFails e \<Rightarrow> Inl (''unpack getCurrentStake: '' @ e)
   | WrongType \<Rightarrow> Inl ''unexpected type for stake''
   | Value s \<Rightarrow> Inr s)"

end
