(* ===== verification/Discovery.thy ===== *)
theory Discovery
  imports Contracts
begin

text \<open>
  Package operator, discovery.go: the operator set read from the IndexRegistry and
  SocketRegistry contracts, its one-hour cache, the per-operator count of consecutive
  failures with its blacklist, and the parsing of socket strings. The contracts are a
  parameter (a \<open>chain\<close>): the reply to each call.
\<close>

subsection \<open>Contract calls\<close>

record chain =
  ch_totalOperators :: "nat \<Rightarrow> u32 abi_reply"
  ch_latestUpdate :: "nat \<Rightarrow> nat \<Rightarrow> bytes abi_reply"
  ch_socket :: "bytes \<Rightarrow> string abi_reply"

record OperatorInfo =
  oi_OperatorID :: bytes
  oi_Socket :: string

definition empty_info :: OperatorInfo where
  "empty_info = \<lparr>oi_OperatorID = replicate 32 0, oi_Socket = []\<rparr>"

definition getOperatorSocket :: "chain \<Rightarrow> bytes \<Rightarrow> string go_result" where
  "getOperatorSocket c opid = (case ch_socket c opid of
     PackFails e \<Rightarrow> Inl e
   | CallFails e \<Rightarrow> Inl e
   | UnpackFails e \<Rightarrow> Inl ''unpack failed''
   | WrongType \<Rightarrow> Inl ''unexpected type''
   | Value s \<Rightarrow> Inr s)"

definition getOperatorAtIndex :: "chain \<Rightarrow> nat \<Rightarrow> nat \<Rightarrow> OperatorInfo go_result" where
  "getOperatorAtIndex c q i = (case ch_latestUpdate c q i of
     PackFails e \<Rightarrow> Inl e
   | CallFails e \<Rightarrow> Inl e
   | UnpackFails e \<Rightarrow> Inl e
   | WrongType \<Rightarrow> Inl (''unexpected type for operator update at index '' @ utoa i)
   | Value opid \<Rightarrow>
       if opid = replicate 32 0 then Inr empty_info
       else (case getOperatorSocket c opid of
         Inl e \<Rightarrow> Inl (''get socket for operator '' @ hex_encode (take 8 opid) @ '': '' @ e)
       | Inr s \<Rightarrow> Inr \<lparr>oi_OperatorID = opid, oi_Socket = s\<rparr>))"

text \<open>The loop over the indices of a quorum: failures and empty sockets are skipped.\<close>

fun scan_indices :: "chain \<Rightarrow> nat \<Rightarrow> nat list \<Rightarrow> OperatorInfo list" where
  "scan_indices c q [] = []"
| "scan_indices c q (i # is) = (case getOperatorAtIndex c q i of
     Inl _ \<Rightarrow> scan_indices c q is
   | Inr info \<Rightarrow> if oi_Socket info \<noteq> [] then info # scan_indices c q is else scan_indices c q is)"

definition fetchOperators :: "chain \<Rightarrow> nat \<Rightarrow> OperatorInfo list go_result" where
  "fetchOperators c q = (case ch_totalOperators c q of
     PackFails e \<Rightarrow> Inl (''pack totalOperatorsForQuorum: '' @ e)
   | CallFails e \<Rightarrow> Inl (''call totalOperatorsForQuorum: '' @ e)
   | UnpackFails e \<Rightarrow> Inl (''unpack totalOperatorsForQuorum: '' @ e)
   | WrongType \<Rightarrow> Inl ''unexpected type for total operators''
   | Value n \<Rightarrow> Inr (scan_indices c q [0..<unat n]))"

subsection \<open>The discovery state\<close>

record discovery =
  di_cache :: "OperatorInfo list"
  di_cacheTime :: int
  di_ttl :: int
  di_failCount :: "bytes \<rightharpoonup> nat"

definition newDiscovery :: discovery where
  "newDiscovery = \<lparr>di_cache = [], di_cacheTime = 0, di_ttl = 3600000000000, di_failCount = Map.empty\<rparr>"

text \<open>The method \<open>resolveAddress\<close> of the discovery has its own messages.\<close>

definition di_resolveAddress :: "(string \<Rightarrow> address abi_reply) \<Rightarrow> string \<Rightarrow> address go_result" where
  "di_resolveAddress directory name = (case directory name of
     PackFails e \<Rightarrow> Inl e
   | CallFails e \<Rightarrow> Inl e
   | UnpackFails e \<Rightarrow> Inl (''unpack failed for '' @ name)
   | WrongType \<Rightarrow> Inl (''unexpected type for '' @ name @ '' address'')
   | Value a \<Rightarrow> Inr a)"

text \<open>
  \<open>NewDiscovery\<close>: the RPC connection and the two registry addresses must be there. The
  embedded ABI texts always parse, so those error returns have no counterpart.
\<close>

definition connectDiscovery :: "unit go_result \<Rightarrow> (string \<Rightarrow> address abi_reply) \<Rightarrow> discovery go_result" where
  "connectDiscovery dial directory = (case dial of
     Inl e \<Rightarrow> Inl (''connect to eth RPC: '' @ e)
   | Inr _ \<Rightarrow> (case di_resolveAddress directory ''INDEX_REGISTRY'' of
       Inl e \<Rightarrow> Inl (''resolve INDEX_REGISTRY: '' @ e)
     | Inr _ \<Rightarrow> (case di_resolveAddress directory ''SOCKET_REGISTRY'' of
         Inl e \<Rightarrow> Inl (''resolve SOCKET_REGISTRY: '' @ e)
       | Inr _ \<Rightarrow> Inr newDiscovery)))"

text \<open>Reading a missing key of a Go map gives the zero value.\<close>

definition fails :: "discovery \<Rightarrow> bytes \<Rightarrow> nat" where
  "fails d opid = (case di_failCount d opid of None \<Rightarrow> 0 | Some n \<Rightarrow> n)"

text \<open>\<open>sort.SliceStable\<close> by fail count: healthy operators first.\<close>

definition healthy_first :: "discovery \<Rightarrow> OperatorInfo list \<Rightarrow> OperatorInfo list" where
  "healthy_first d ops = sort_key (\<lambda>op. fails d (oi_OperatorID op)) ops"

text \<open>The inner loop: keep an operator the first time its ID is seen.\<close>

fun add_unseen :: "OperatorInfo list \<Rightarrow> bytes set \<Rightarrow> OperatorInfo list \<Rightarrow> bytes set \<times> OperatorInfo list" where
  "add_unseen [] seen acc = (seen, acc)"
| "add_unseen (op # ops) seen acc =
     (if oi_OperatorID op \<notin> seen
      then add_unseen ops (insert (oi_OperatorID op) seen) (acc @ [op])
      else add_unseen ops seen acc)"

text \<open>The loop over the quorums: it stops at the first quorum that gives an error.\<close>

fun gather_quorums :: "chain \<Rightarrow> nat list \<Rightarrow> bytes set \<Rightarrow> OperatorInfo list \<Rightarrow> OperatorInfo list" where
  "gather_quorums c [] seen acc = acc"
| "gather_quorums c (q # qs) seen acc = (case fetchOperators c q of
     Inl _ \<Rightarrow> acc
   | Inr ops \<Rightarrow> (case add_unseen ops seen acc of (seen', acc') \<Rightarrow> gather_quorums c qs seen' acc'))"

definition gatherOperators :: "chain \<Rightarrow> OperatorInfo list" where
  "gatherOperators c = gather_quorums c [0..<10] {} []"

definition cache_valid :: "int \<Rightarrow> discovery \<Rightarrow> bool" where
  "cache_valid now d \<longleftrightarrow> di_cache d \<noteq> [] \<and> now - di_cacheTime d < di_ttl d"

text \<open>\<open>now\<close> is the clock at the cache check, \<open>stored\<close> the clock when the cache is written.\<close>

definition getOperators :: "chain \<Rightarrow> int \<Rightarrow> int \<Rightarrow> discovery \<Rightarrow> OperatorInfo list go_result \<times> discovery" where
  "getOperators c now stored d =
     (if cache_valid now d then (Inr (healthy_first d (di_cache d)), d)
      else let all_ops = gatherOperators c in
        if all_ops = [] then (Inl ''no operators found across any quorum'', d)
        else let ops = healthy_first d all_ops
          in (Inr ops, d\<lparr>di_cache := ops, di_cacheTime := stored\<rparr>))"

text \<open>\<open>rand.Perm(n)\<close> is the reordering of \<open>0..<n\<close> given by \<open>seeds\<close>.\<close>

definition sampleOperators :: "chain \<Rightarrow> int \<Rightarrow> int \<Rightarrow> nat list \<Rightarrow> int \<Rightarrow> discovery
    \<Rightarrow> OperatorInfo list go_result outcome \<times> discovery" where
  "sampleOperators c now stored seeds cnt d = (case getOperators c now stored d of
     (Inl e, d') \<Rightarrow> (Done (Inl e), d')
   | (Inr ops, d') \<Rightarrow>
       if int (length ops) \<le> cnt then (Done (Inr ops), d')
       else if cnt < 0 then (Panic ''makeslice: len out of range'', d')
       else (Done (Inr (map (\<lambda>i. ops ! (reorder seeds [0..<length ops] ! i)) [0..<nat cnt])), d'))"

subsection \<open>Consecutive failures\<close>

definition blacklistThreshold :: nat where
  "blacklistThreshold = 5"

definition reportResult :: "bytes \<Rightarrow> bool \<Rightarrow> discovery \<Rightarrow> discovery" where
  "reportResult opid success d =
     (if success then d\<lparr>di_failCount := (di_failCount d)(opid := None)\<rparr>
      else d\<lparr>di_failCount := (di_failCount d)(opid \<mapsto> fails d opid + 1)\<rparr>)"

definition isBlacklisted :: "bytes \<Rightarrow> discovery \<Rightarrow> bool" where
  "isBlacklisted opid d \<longleftrightarrow> fails d opid \<ge> blacklistThreshold"

text \<open>
  \<open>BlacklistedCount\<close> ranges over the map. The map's entries are given as a list of its keys,
  in whatever order the range statement visits them.
\<close>

definition blacklistedCount :: "bytes list \<Rightarrow> discovery \<Rightarrow> nat" where
  "blacklistedCount keys d = length (filter (\<lambda>k. fails d k \<ge> blacklistThreshold) keys)"

subsection \<open>Socket strings\<close>

definition parseSocket :: "string \<Rightarrow> nat \<Rightarrow> string" where
  "parseSocket socket portIndex = (case index_of socket CHR '':'' of
     None \<Rightarrow> socket
   | Some colonIdx \<Rightarrow>
       let host = take colonIdx socket;
           ports = split_on CHR '';'' (drop (colonIdx + 1) socket)
       in if portIndex < length ports then host @ '':'' @ ports ! portIndex else socket)"

definition parseRetrievalSocket :: "string \<Rightarrow> string" where
  "parseRetrievalSocket socket = parseSocket socket 1"

definition parseV2RetrievalSocket :: "string \<Rightarrow> string" where
  "parseV2RetrievalSocket socket = parseSocket socket 3"

subsection \<open>The failure counter as an interface\<close>

text \<open>
  What a client of the failure counter relies on: a success resets the operator's count, a
  failure adds one, no other operator is touched. From it: the count is the number of
  failures since the operator's last success.
\<close>

definition trailing_failures :: "'o \<Rightarrow> ('o \<times> bool) list \<Rightarrow> nat" where
  "trailing_failures opid hist =
     length (takeWhile Not (rev (map snd (filter (\<lambda>r. fst r = opid) hist))))"

locale fail_counter =
  fixes fails_of :: "'s \<Rightarrow> 'o \<Rightarrow> nat"
    and report :: "'o \<Rightarrow> bool \<Rightarrow> 's \<Rightarrow> 's"
  assumes report_success: "fails_of (report opid True s) opid = 0"
    and report_failure: "fails_of (report opid False s) opid = Suc (fails_of s opid)"
    and report_other: "other \<noteq> opid \<Longrightarrow> fails_of (report opid b s) other = fails_of s other"
begin

lemma count_history:
  assumes "\<And>x. fails_of s0 x = 0"
  shows "fails_of (foldl (\<lambda>s (x, b). report x b s) s0 hist) opid = trailing_failures opid hist"
proof (induction hist rule: rev_induct)
  case Nil
  then show ?case by (simp add: trailing_failures_def assms)
next
  case (snoc r hist)
  obtain x b where r: "r = (x, b)" by fastforce
  show ?case
    using snoc by (cases "x = opid"; cases b)
      (simp_all add: r trailing_failures_def report_success report_failure report_other)
qed

lemma count_ge_iff:
  assumes "\<And>x. fails_of s0 x = 0"
  shows "n \<le> fails_of (foldl (\<lambda>s (x, b). report x b s) s0 hist) opid \<longleftrightarrow>
    (let bs = map snd (filter (\<lambda>r. fst r = opid) hist)
     in n \<le> length bs \<and> (\<forall>b \<in> set (take n (rev bs)). \<not> b))"
proof -
  have "n \<le> length (takeWhile Not xs) \<longleftrightarrow> n \<le> length xs \<and> (\<forall>b \<in> set (take n xs). \<not> b)" for xs
  proof (induction xs arbitrary: n)
    case (Cons x xs)
    then show ?case by (cases n) auto
  qed simp
  then show ?thesis
    by (simp add: count_history [OF assms] trailing_failures_def Let_def)
qed

end

lemma fails_report:
  "fails (reportResult opid b d) x = (if x = opid then (if b then 0 else Suc (fails d opid)) else fails d x)"
  by (simp add: reportResult_def fails_def)

interpretation disc: fail_counter fails reportResult
  by unfold_locales (simp_all add: fails_report)

lemma reportResult_cache [simp]:
  "di_cache (reportResult x b d) = di_cache d" "di_cacheTime (reportResult x b d) = di_cacheTime d"
  "di_ttl (reportResult x b d) = di_ttl d"
  by (simp_all add: reportResult_def)

lemma reportResult_commute:
  "x \<noteq> y \<Longrightarrow> reportResult x a (reportResult y b d) = reportResult y b (reportResult x a d)"
  by (simp add: reportResult_def fails_def fun_upd_twist)

subsection \<open>The gathered set\<close>

lemma add_unseen_acc:
  fixes ops :: "OperatorInfo list"
  assumes "distinct (map oi_OperatorID acc)"
  defines "r \<equiv> add_unseen ops (oi_OperatorID ` set acc) acc"
  shows "fst r = oi_OperatorID ` set (snd r) \<and> distinct (map oi_OperatorID (snd r)) \<and>
    oi_OperatorID ` set (snd r) = oi_OperatorID ` (set acc \<union> set ops) \<and> set (snd r) \<subseteq> set acc \<union> set ops"
  using assms(1) unfolding r_def
proof (induction ops arbitrary: acc)
  case Nil
  then show ?case by simp
next
  case (Cons op ops)
  show ?case
  proof (cases "oi_OperatorID op \<in> oi_OperatorID ` set acc")
    case True
    with Cons.IH [OF Cons.prems] show ?thesis by (simp add: image_Un insert_absorb) blast
  next
    case False
    then have "distinct (map oi_OperatorID (acc @ [op]))" using Cons.prems by auto
    from Cons.IH [OF this] False show ?thesis by (simp add: image_Un Un_assoc)
  qed
qed

lemma add_unseen_spec:
  assumes "seen = oi_OperatorID ` set acc" and "distinct (map oi_OperatorID acc)"
    and "add_unseen ops seen acc = (seen', acc')"
  shows "seen' = oi_OperatorID ` set acc'" and "distinct (map oi_OperatorID acc')"
    and "oi_OperatorID ` set acc' = oi_OperatorID ` (set acc \<union> set ops)"
    and "set acc' \<subseteq> set acc \<union> set ops"
  using add_unseen_acc [OF assms(2), of ops] assms(1,3) by simp_all

text \<open>The operators of the quorums before the first one that fails.\<close>

fun reachable_quorums :: "chain \<Rightarrow> nat list \<Rightarrow> OperatorInfo list list" where
  "reachable_quorums c [] = []"
| "reachable_quorums c (q # qs) = (case fetchOperators c q of Inl _ \<Rightarrow> [] | Inr ops \<Rightarrow> ops # reachable_quorums c qs)"

lemma gather_quorums_spec:
  assumes "seen = oi_OperatorID ` set acc" and "distinct (map oi_OperatorID acc)"
  shows "distinct (map oi_OperatorID (gather_quorums c qs seen acc)) \<and>
    oi_OperatorID ` set (gather_quorums c qs seen acc) =
      oi_OperatorID ` (set acc \<union> set (concat (reachable_quorums c qs))) \<and>
    set (gather_quorums c qs seen acc) \<subseteq> set acc \<union> set (concat (reachable_quorums c qs))"
  using assms
proof (induction qs arbitrary: seen acc)
  case (Cons q qs)
  show ?case
  proof (cases "fetchOperators c q")
    case (Inl e)
    then show ?thesis using Cons.prems by simp
  next
    case (Inr ops)
    obtain seen' acc' where a: "add_unseen ops seen acc = (seen', acc')" by fastforce
    note s = add_unseen_spec [OF Cons.prems a]
    show ?thesis
      using Cons.IH [OF s(1,2)] s(3,4) Inr a by (auto simp: image_Un)
  qed
qed auto

lemma set_healthy_first [simp]: "set (healthy_first d ops) = set ops"
  and mset_healthy_first [simp]: "mset (healthy_first d ops) = mset ops"
  and length_healthy_first [simp]: "length (healthy_first d ops) = length ops"
  by (simp_all add: healthy_first_def)

lemma distinct_ids_healthy_first [simp]:
  "distinct (map oi_OperatorID (healthy_first d ops)) = distinct (map oi_OperatorID ops)"
  by (metis mset_healthy_first mset_map mset_eq_imp_distinct_iff)

lemma sorted_healthy_first: "sorted (map (\<lambda>op. fails d (oi_OperatorID op)) (healthy_first d ops))"
  by (simp add: healthy_first_def)

text \<open>Every operator list ever cached has distinct operator IDs.\<close>

definition cache_ok :: "discovery \<Rightarrow> bool" where
  "cache_ok d \<longleftrightarrow> distinct (map oi_OperatorID (di_cache d))"

lemma gathered_distinct: "distinct (map oi_OperatorID (gatherOperators c))"
  using gather_quorums_spec [of "{}" "[]" c "[0..<10]"] by (simp only: gatherOperators_def) simp

lemma healthy_first_empty [simp]: "healthy_first d ops = [] \<longleftrightarrow> ops = []"
  by (simp add: healthy_first_def)

lemma getOperators_ok:
  assumes "cache_ok d" and "getOperators c now stored d = (r, d')"
  shows "cache_ok d'" and "r = Inr ops \<Longrightarrow> distinct (map oi_OperatorID ops) \<and> ops \<noteq> []"
    and "di_failCount d' = di_failCount d"
  using assms gathered_distinct
  by (auto simp: getOperators_def cache_ok_def cache_valid_def Let_def split: if_splits)

subsection \<open>Properties\<close>

text \<open>C27: A cache miss that succeeds returns the operators of the quorums that come before the
  first failing one, each ID once, healthy operators first, and stores exactly this list with
  the time of the fetch.\<close>

theorem getOperators_miss:
  assumes "\<not> cache_valid now d" and "getOperators c now stored d = (Inr ops, d')"
  shows "distinct (map oi_OperatorID ops) \<and>
    oi_OperatorID ` set ops = oi_OperatorID ` set (concat (reachable_quorums c [0..<10])) \<and>
    set ops \<subseteq> set (concat (reachable_quorums c [0..<10])) \<and>
    sorted (map (\<lambda>op. fails d (oi_OperatorID op)) ops) \<and>
    d' = d\<lparr>di_cache := ops, di_cacheTime := stored\<rparr>"
proof -
  have ops: "ops = healthy_first d (gatherOperators c)"
    and d': "d' = d\<lparr>di_cache := ops, di_cacheTime := stored\<rparr>"
    using assms by (auto simp: getOperators_def Let_def split: if_splits)
  have "distinct (map oi_OperatorID (gatherOperators c)) \<and>
    oi_OperatorID ` set (gatherOperators c) = oi_OperatorID ` set (concat (reachable_quorums c [0..<10])) \<and>
    set (gatherOperators c) \<subseteq> set (concat (reachable_quorums c [0..<10]))"
    unfolding gatherOperators_def using gather_quorums_spec [of "{}" "[]" c "[0..<10]"]
    by (simp only: set_empty set_append image_empty list.set) simp
  then show ?thesis
    unfolding ops d' by (simp only: distinct_ids_healthy_first set_healthy_first sorted_healthy_first simp_thms)
qed

definition demo_chain :: chain where
  "demo_chain = \<lparr>
     ch_totalOperators = (\<lambda>q. if q = 0 then Value 2 else CallFails ''execution reverted''),
     ch_latestUpdate = (\<lambda>q i. if i = 0 then Value (replicate 32 7) else CallFails ''timeout''),
     ch_socket = (\<lambda>opid. Value ''op.example:32003;32004;32005;32006'')\<rparr>"

theorem getOperators_miss_witness:
  "\<exists>ops d'. getOperators demo_chain 0 5 newDiscovery = (Inr ops, d') \<and> length ops = 1 \<and>
    distinct (map oi_OperatorID ops) \<and> d' = newDiscovery\<lparr>di_cache := ops, di_cacheTime := 5\<rparr>"
proof -
  let ?r = "getOperators demo_chain 0 5 newDiscovery"
  have m: "\<not> cache_valid 0 newDiscovery" by (simp add: cache_valid_def newDiscovery_def)
  have l: "case ?r of (Inl _, _) \<Rightarrow> False | (Inr ops, _) \<Rightarrow> length ops = 1"
    by code_simp
  then obtain ops d' where r: "?r = (Inr ops, d')" "length ops = 1"
    by (cases ?r; cases "fst ?r") auto
  from getOperators_miss [OF m r(1)] r show ?thesis by blast
qed


definition demo_disc :: discovery where
  "demo_disc = newDiscovery\<lparr>di_cache := [\<lparr>oi_OperatorID = [1], oi_Socket = ''a:1''\<rparr>,
     \<lparr>oi_OperatorID = [2], oi_Socket = ''b:1''\<rparr>], di_failCount := [[1] \<mapsto> 3]\<rparr>"


text \<open>C29: An operator is blacklisted exactly when it has at least five recorded results and the
  last five are all failures, whatever happened to the other operators in between.\<close>

theorem isBlacklisted_iff:
  "isBlacklisted opid (foldl (\<lambda>d (x, b). reportResult x b d) newDiscovery hist) \<longleftrightarrow>
     (let bs = map snd (filter (\<lambda>r. fst r = opid) hist)
      in 5 \<le> length bs \<and> (\<forall>b \<in> set (take 5 (rev bs)). \<not> b))"
  unfolding isBlacklisted_def blacklistThreshold_def
  by (rule disc.count_ge_iff) (simp add: fails_def newDiscovery_def)

theorem isBlacklisted_iff_witness:
  "isBlacklisted [1] (foldl (\<lambda>d (x, b). reportResult x b d) newDiscovery
     [([1], True), ([1], False), ([1], False), ([2], True), ([1], False), ([1], False), ([1], False)])"
  unfolding isBlacklisted_iff by (simp add: Let_def)

text \<open>A socket string \<open>host:p0;p1;..\<close> (no colon in the host, no semicolon in a port) parses
  to \<open>host:p_i\<close> for every index it has a port for; for a missing index the whole string comes
  back, so an operator that only registered v1 ports is dialled at an address that still holds
  the semicolons.\<close>

theorem parseSocket_spec:
  assumes "CHR '':'' \<notin> set host" and "ports \<noteq> []" and "\<forall>p \<in> set ports. CHR '';'' \<notin> set p"
  shows "parseSocket (host @ '':'' @ join_with CHR '';'' ports) i =
    (if i < length ports then host @ '':'' @ ports ! i else host @ '':'' @ join_with CHR '';'' ports)"
  using assms by (simp add: parseSocket_def index_of_first split_on_join)

theorem parseSocket_spec_witness:
  "parseV2RetrievalSocket ''op.example:32003;32004;32005;32006'' = ''op.example:32006'' \<and>
   parseV2RetrievalSocket ''op.example:32003;32004'' = ''op.example:32003;32004''"
  using parseSocket_spec [of "''op.example''" "[''32003'', ''32004'', ''32005'', ''32006'']" 3]
    parseSocket_spec [of "''op.example''" "[''32003'', ''32004'']" 3]
  by (simp add: parseV2RetrievalSocket_def)

end
