(* ===== verification/Clients.thy ===== *)
theory Clients
  imports Discovery
begin

text \<open>
  The two gRPC clients: package relay (internal/relay/client.go, \<open>GetBlob\<close>) and package
  operator (internal/operator/client.go, \<open>ProbeChunks\<close>). The gRPC library and the peer are a
  parameter: what dialling an address gives, and what the call then gives, each with the
  milliseconds elapsed since the start of the operation.
\<close>

subsection \<open>Relay\<close>

record RetrieveResult =
  rr_Success :: bool
  rr_LatencyMs :: int
  rr_DataSizeBytes :: int
  rr_Error :: string
  rr_Data :: bytes

record relay_net =
  rn_dial :: "string \<Rightarrow> (go_error \<times> int) option"
  rn_getBlob :: "string \<Rightarrow> bytes \<Rightarrow> bytes go_result \<times> int"

definition relay_failure :: "int \<Rightarrow> string \<Rightarrow> RetrieveResult" where
  "relay_failure ms e = \<lparr>rr_Success = False, rr_LatencyMs = ms, rr_DataSizeBytes = 0, rr_Error = e, rr_Data = []\<rparr>"

definition with_port :: "string \<Rightarrow> string" where
  "with_port relayURL = (if contains relayURL '':'' then relayURL else relayURL @ '':443'')"

definition getBlob :: "relay_net \<Rightarrow> string \<Rightarrow> string \<Rightarrow> RetrieveResult" where
  "getBlob net relayURL blobKeyHex = (case hex_decode (trimPrefix blobKeyHex ''0x'') of
     Inl e \<Rightarrow> relay_failure 0 (''decode blob key: '' @ hex_error_text e)
   | Inr key \<Rightarrow>
       let url = with_port relayURL in
       (case rn_dial net url of
          Some (e, ms) \<Rightarrow> relay_failure ms (''dial relay '' @ url @ '': '' @ e)
        | None \<Rightarrow> (case rn_getBlob net url key of
            (Inl e, ms) \<Rightarrow> relay_failure ms (''GetBlob: '' @ e)
          | (Inr blob, ms) \<Rightarrow> \<lparr>rr_Success = True, rr_LatencyMs = ms,
               rr_DataSizeBytes = int (length blob), rr_Error = '''', rr_Data = blob\<rparr>)))"

lemma getBlob_failure_empty: "\<not> rr_Success (getBlob net u k) \<Longrightarrow> rr_Data (getBlob net u k) = [] \<and> rr_DataSizeBytes (getBlob net u k) = 0"
  by (auto simp: getBlob_def relay_failure_def Let_def split: sum.splits option.splits prod.splits)

lemma getBlob_success: "rr_Success (getBlob net u k) \<Longrightarrow>
    rr_Error (getBlob net u k) = '''' \<and> rr_DataSizeBytes (getBlob net u k) = int (length (rr_Data (getBlob net u k)))"
  by (auto simp: getBlob_def relay_failure_def Let_def split: sum.splits option.splits prod.splits)

subsection \<open>Operator\<close>

record ChunkProbeResult =
  cp_Success :: bool
  cp_LatencyMs :: int
  cp_ChunksReturned :: nat
  cp_ChunkData :: "bytes list"
  cp_Error :: string

record operator_net =
  on_dial :: "string \<Rightarrow> (go_error \<times> int) option"
  on_getChunks :: "string \<Rightarrow> bytes \<Rightarrow> u32 \<Rightarrow> bytes list go_result \<times> int"

definition chunk_failure :: "int \<Rightarrow> string \<Rightarrow> ChunkProbeResult" where
  "chunk_failure ms e = \<lparr>cp_Success = False, cp_LatencyMs = ms, cp_ChunksReturned = 0, cp_ChunkData = [], cp_Error = e\<rparr>"

definition probeChunks :: "operator_net \<Rightarrow> string \<Rightarrow> string \<Rightarrow> u32 \<Rightarrow> ChunkProbeResult" where
  "probeChunks net operatorSocket blobKeyHex quorumID =
     (let retrievalSocket = parseV2RetrievalSocket operatorSocket in
      case hex_decode (trimPrefix blobKeyHex ''0x'') of
        Inl e \<Rightarrow> chunk_failure 0 (''decode blob key: '' @ hex_error_text e)
      | Inr key \<Rightarrow> (case on_dial net retrievalSocket of
          Some (e, ms) \<Rightarrow> chunk_failure ms (''dial '' @ retrievalSocket @ '': '' @ e)
        | None \<Rightarrow> (case on_getChunks net retrievalSocket key quorumID of
            (Inl e, ms) \<Rightarrow> chunk_failure ms (''GetChunks: '' @ e)
          | (Inr chunks, ms) \<Rightarrow> \<lparr>cp_Success = True, cp_LatencyMs = ms,
               cp_ChunksReturned = length chunks, cp_ChunkData = chunks, cp_Error = ''''\<rparr>)))"

text \<open>Only a successful probe returns chunks, and it counts exactly what it returns.\<close>

lemma probeChunks_counts:
  "cp_ChunksReturned (probeChunks net s k q) = length (cp_ChunkData (probeChunks net s k q))"
  "\<not> cp_Success (probeChunks net s k q) \<Longrightarrow> cp_ChunksReturned (probeChunks net s k q) = 0"
  by (auto simp: probeChunks_def chunk_failure_def Let_def split: sum.splits option.splits prod.splits)

end
