(* ===== verification/Pool.thy ===== *)
theory Pool
  imports Prelude
begin

text \<open>
  The goroutine pool that two workers build from a WaitGroup and a buffered channel used as a
  semaphore: one goroutine per job, at most \<open>cap\<close> of them between acquire and release, the
  caller waiting for all. A job is a list of atomic actions on the shared state (a mutex
  section, a database statement). The scheduler is a step relation. The operator verifier
  acquires before it starts a goroutine, so its jobs start in order; the relay verifier
  acquires inside the goroutine, so its jobs start in any order.
\<close>

subsection \<open>The step relation\<close>

datatype 's job = Waiting | Running "('s \<Rightarrow> 's) list" | Finished

record 's pool =
  shared :: 's
  jobs :: "'s job list"

primrec is_running :: "'s job \<Rightarrow> bool" where
  "is_running Waiting = False"
| "is_running (Running _) = True"
| "is_running Finished = False"

definition in_flight :: "'s pool \<Rightarrow> nat" where
  "in_flight p = length (filter is_running (jobs p))"

definition all_finished :: "'s pool \<Rightarrow> bool" where
  "all_finished p \<longleftrightarrow> (\<forall>j \<in> set (jobs p). j = Finished)"

definition init_pool :: "('s \<Rightarrow> 's) list list \<Rightarrow> 's \<Rightarrow> 's pool" where
  "init_pool bodies s = \<lparr>shared = s, jobs = map (\<lambda>_. Waiting) bodies\<rparr>"

inductive pool_step :: "nat \<Rightarrow> bool \<Rightarrow> ('s \<Rightarrow> 's) list list \<Rightarrow> 's pool \<Rightarrow> 's pool \<Rightarrow> bool"
  for cap ordered bodies where
  acquire: "i < length (jobs p) \<Longrightarrow> jobs p ! i = Waiting \<Longrightarrow> in_flight p < cap \<Longrightarrow>
     (ordered \<Longrightarrow> \<forall>j < i. jobs p ! j \<noteq> Waiting) \<Longrightarrow>
     pool_step cap ordered bodies p (p\<lparr>jobs := (jobs p)[i := Running (bodies ! i)]\<rparr>)"
| action: "i < length (jobs p) \<Longrightarrow> jobs p ! i = Running (a # as) \<Longrightarrow>
     pool_step cap ordered bodies p (p\<lparr>shared := a (shared p), jobs := (jobs p)[i := Running as]\<rparr>)"
| release: "i < length (jobs p) \<Longrightarrow> jobs p ! i = Running [] \<Longrightarrow>
     pool_step cap ordered bodies p (p\<lparr>jobs := (jobs p)[i := Finished]\<rparr>)"

inductive_cases pool_stepE: "pool_step cap ordered bodies p q"

definition pool_reach :: "nat \<Rightarrow> bool \<Rightarrow> ('s \<Rightarrow> 's) list list \<Rightarrow> 's \<Rightarrow> 's pool \<Rightarrow> bool" where
  "pool_reach cap ordered bodies s p \<longleftrightarrow> (pool_step cap ordered bodies)\<^sup>*\<^sup>* (init_pool bodies s) p"

lemma pool_reach_induct [consumes 1, case_names init step]:
  assumes "pool_reach cap ordered bodies s p" and "P (init_pool bodies s)"
    and "\<And>p q. pool_reach cap ordered bodies s p \<Longrightarrow> pool_step cap ordered bodies p q \<Longrightarrow> P p \<Longrightarrow> P q"
  shows "P p"
  using assms(1) unfolding pool_reach_def
proof (induction rule: rtranclp_induct)
  case base
  show ?case by (rule assms(2))
next
  case (step p q)
  then show ?case using assms(3) by (simp add: pool_reach_def)
qed

subsection \<open>Never more than \<open>cap\<close> in flight\<close>

lemma length_filter_update:
  "i < length xs \<Longrightarrow> length (filter P (xs[i := y])) + (if P (xs ! i) then 1 else 0) =
     length (filter P xs) + (if P y then 1 else 0)"
proof (induction xs arbitrary: i)
  case (Cons x xs)
  then show ?case using Cons.IH [of "i - 1"] by (cases i) auto
qed simp

lemma in_flight_update:
  "i < length (jobs p) \<Longrightarrow> in_flight (p\<lparr>jobs := (jobs p)[i := j]\<rparr>) + (if is_running (jobs p ! i) then 1 else 0) =
     in_flight p + (if is_running j then 1 else 0)"
  by (simp add: in_flight_def length_filter_update)

lemma in_flight_shared [simp]: "in_flight (p\<lparr>shared := s, jobs := js\<rparr>) = in_flight (p\<lparr>jobs := js\<rparr>)"
  by (simp add: in_flight_def)

lemma pool_step_cap: "pool_step cap ordered bodies p q \<Longrightarrow> in_flight p \<le> cap \<Longrightarrow> in_flight q \<le> cap"
proof (induction rule: pool_step.induct)
  case (acquire i p)
  then show ?case using in_flight_update [of i p "Running (bodies ! i)"] by simp
next
  case (action i p a as)
  then show ?case using in_flight_update [of i p "Running as"] by simp
next
  case (release i p)
  then show ?case using in_flight_update [of i p Finished] by simp
qed

lemma in_flight_init: "in_flight (init_pool bodies s) = 0"
  by (simp add: in_flight_def init_pool_def filter_empty_conv)

lemma pool_cap: "pool_reach cap ordered bodies s p \<Longrightarrow> in_flight p \<le> cap"
  by (induction rule: pool_reach_induct) (auto simp: in_flight_init intro: pool_step_cap)

lemma pool_length: "pool_reach cap ordered bodies s p \<Longrightarrow> length (jobs p) = length bodies"
  by (induction rule: pool_reach_induct) (auto simp: init_pool_def elim: pool_stepE)

subsection \<open>No deadlock, and every run ends\<close>

lemma in_flight_pos: "in_flight p \<noteq> 0 \<Longrightarrow> \<exists>i as. i < length (jobs p) \<and> jobs p ! i = Running as"
proof -
  assume "in_flight p \<noteq> 0"
  then obtain j where "j \<in> set (jobs p)" "is_running j"
    by (auto simp: in_flight_def filter_empty_conv)
  then show ?thesis by (cases j rule: job.exhaust) (auto simp del: list.set_cases simp: in_set_conv_nth)
qed

lemma first_waiting:
  assumes "i < length js" "js ! i = Waiting"
  obtains k where "k < length js" "js ! k = Waiting" "\<forall>j < k. js ! j \<noteq> Waiting"
proof -
  define k where "k = (LEAST k. js ! k = Waiting)"
  have "js ! k = Waiting" unfolding k_def using assms(2) by (rule LeastI)
  moreover have "k \<le> i" unfolding k_def using assms(2) by (rule Least_le)
  moreover have "\<forall>j < k. js ! j \<noteq> Waiting" unfolding k_def using not_less_Least by blast
  ultimately show ?thesis using assms(1) by (intro that [of k]) auto
qed

lemma pool_progress:
  assumes "0 < cap" and "\<not> all_finished p"
  shows "\<exists>q. pool_step cap ordered bodies p q"
proof (cases "in_flight p = 0")
  case False
  then obtain i as where "i < length (jobs p)" "jobs p ! i = Running as"
    using in_flight_pos by blast
  then show ?thesis by (cases as) (auto intro: pool_step.intros)
next
  case True
  obtain j where j: "j \<in> set (jobs p)" "j \<noteq> Finished"
    using assms(2) by (auto simp: all_finished_def)
  have "\<not> is_running j" using True j by (auto simp: in_flight_def filter_empty_conv)
  then have "j = Waiting" using j(2) by (cases j rule: job.exhaust) auto
  then obtain i where "i < length (jobs p)" "jobs p ! i = Waiting"
    using j by (auto simp: in_set_conv_nth)
  then obtain k where "k < length (jobs p)" "jobs p ! k = Waiting" "\<forall>j < k. jobs p ! j \<noteq> Waiting"
    using first_waiting by blast
  then show ?thesis using assms(1) True pool_step.acquire [of k p cap ordered bodies] by auto
qed

text \<open>With no capacity the channel is unbuffered and has no receiver: nothing ever starts.\<close>

lemma pool_stuck: "\<not> pool_step 0 ordered bodies (init_pool bodies s) q"
  by (auto simp: init_pool_def elim: pool_stepE)

definition job_weight :: "('s \<Rightarrow> 's) list \<Rightarrow> 's job \<Rightarrow> nat" where
  "job_weight body j = (case j of Waiting \<Rightarrow> length body + 2 | Running as \<Rightarrow> length as + 1 | Finished \<Rightarrow> 0)"

definition pool_weight :: "('s \<Rightarrow> 's) list list \<Rightarrow> 's pool \<Rightarrow> nat" where
  "pool_weight bodies p = (\<Sum>i < length (jobs p). job_weight (bodies ! i) (jobs p ! i))"

lemma pool_weight_update:
  assumes "i < length (jobs p)"
  shows "pool_weight bodies (p\<lparr>shared := s, jobs := (jobs p)[i := j]\<rparr>) + job_weight (bodies ! i) (jobs p ! i) =
    pool_weight bodies p + job_weight (bodies ! i) j"
proof -
  let ?f = "\<lambda>js k. job_weight (bodies ! k) (js ! k)"
  have i: "i \<in> {..<length (jobs p)}" using assms by simp
  have "sum (?f ((jobs p)[i := j])) ({..<length (jobs p)} - {i}) = sum (?f (jobs p)) ({..<length (jobs p)} - {i})"
    by (rule sum.cong) auto
  then show ?thesis
    using assms by (simp add: pool_weight_def sum.remove [OF _ i])
qed

lemma pool_step_weight: "pool_step cap ordered bodies p q \<Longrightarrow> pool_weight bodies q < pool_weight bodies p"
proof (induction rule: pool_step.induct)
  case (acquire i p)
  then show ?case using pool_weight_update [where s = "shared p" and j = "Running (bodies ! i)" and p = p and i = i and bodies = bodies]
    by (simp add: job_weight_def)
next
  case (action i p a as)
  then show ?case using pool_weight_update [where s = "a (shared p)" and j = "Running as" and p = p and i = i and bodies = bodies]
    by (simp add: job_weight_def)
next
  case (release i p)
  then show ?case using pool_weight_update [where s = "shared p" and j = Finished and p = p and i = i and bodies = bodies]
    by (simp add: job_weight_def)
qed

lemma pool_terminates: "wfP (\<lambda>q p. pool_step cap ordered bodies p q)"
  by (rule wfp_if_convertible_to_nat [where f = "pool_weight bodies"]) (rule pool_step_weight)

lemma pool_can_finish:
  assumes "0 < cap"
  shows "\<exists>q. (pool_step cap ordered bodies)\<^sup>*\<^sup>* p q \<and> all_finished q"
proof (induction "pool_weight bodies p" arbitrary: p rule: less_induct)
  case less
  show ?case
  proof (cases "all_finished p")
    case False
    then obtain q where q: "pool_step cap ordered bodies p q" using pool_progress assms by blast
    with less pool_step_weight obtain r where "(pool_step cap ordered bodies)\<^sup>*\<^sup>* q r" "all_finished r" by blast
    with q show ?thesis by (meson converse_rtranclp_into_rtranclp)
  qed blast
qed

subsection \<open>Jobs that commute\<close>

text \<open>
  The interface to a set of jobs whose actions do not interfere, as far as an observation
  \<open>obs\<close> of the shared state goes and while an invariant \<open>ok\<close> holds: an action's effect on
  the observation depends on the observation only, and actions of different jobs commute.
  Then every complete run ends in the observation of the sequential execution.
\<close>

definition run_actions :: "('s \<Rightarrow> 's) list \<Rightarrow> 's \<Rightarrow> 's" where
  "run_actions as s = fold (\<lambda>a s. a s) as s"

lemma run_actions_simps [simp]:
  "run_actions [] s = s" "run_actions (a # as) s = run_actions as (a s)"
  "run_actions (as @ bs) s = run_actions bs (run_actions as s)"
  by (simp_all add: run_actions_def)

definition remaining :: "('s \<Rightarrow> 's) list \<Rightarrow> 's job \<Rightarrow> ('s \<Rightarrow> 's) list" where
  "remaining body j = (case j of Waiting \<Rightarrow> body | Running as \<Rightarrow> as | Finished \<Rightarrow> [])"

definition rest :: "('s \<Rightarrow> 's) list list \<Rightarrow> 's job list \<Rightarrow> ('s \<Rightarrow> 's) list" where
  "rest bodies js = concat (map2 remaining bodies js)"

locale commuting_jobs =
  fixes obs :: "'s \<Rightarrow> 'o"
    and ok :: "'s \<Rightarrow> bool"
    and bodies :: "('s \<Rightarrow> 's) list list"
  assumes ok_action: "i < length bodies \<Longrightarrow> a \<in> set (bodies ! i) \<Longrightarrow> ok s \<Longrightarrow> ok (a s)"
    and obs_action: "i < length bodies \<Longrightarrow> a \<in> set (bodies ! i) \<Longrightarrow> ok s \<Longrightarrow> ok t \<Longrightarrow>
      obs s = obs t \<Longrightarrow> obs (a s) = obs (a t)"
    and commute: "i < length bodies \<Longrightarrow> j < length bodies \<Longrightarrow> i \<noteq> j \<Longrightarrow> a \<in> set (bodies ! i) \<Longrightarrow>
      b \<in> set (bodies ! j) \<Longrightarrow> ok s \<Longrightarrow> obs (a (b s)) = obs (b (a s))"
begin

definition known :: "('s \<Rightarrow> 's) \<Rightarrow> bool" where
  "known a \<longleftrightarrow> (\<exists>i < length bodies. a \<in> set (bodies ! i))"

lemma ok_run: "\<forall>a \<in> set as. known a \<Longrightarrow> ok s \<Longrightarrow> ok (run_actions as s)"
  by (induction as arbitrary: s) (auto simp: known_def ok_action)

lemma obs_run:
  "\<forall>a \<in> set as. known a \<Longrightarrow> ok s \<Longrightarrow> ok t \<Longrightarrow> obs s = obs t \<Longrightarrow> obs (run_actions as s) = obs (run_actions as t)"
proof (induction as arbitrary: s t)
  case (Cons a as)
  then obtain i where "i < length bodies" "a \<in> set (bodies ! i)" by (auto simp: known_def)
  with Cons show ?case by (auto intro!: Cons.IH intro: ok_action obs_action)
qed simp

text \<open>An action can be moved in front of actions of other jobs.\<close>

lemma move_front:
  assumes "i < length bodies" "a \<in> set (bodies ! i)"
    and "\<forall>b \<in> set bs. \<exists>j < length bodies. j \<noteq> i \<and> b \<in> set (bodies ! j)" and "ok s"
  shows "obs (run_actions bs (a s)) = obs (a (run_actions bs s))"
  using assms(3,4)
proof (induction bs arbitrary: s)
  case (Cons b bs)
  then obtain j where j: "j < length bodies" "j \<noteq> i" "b \<in> set (bodies ! j)" by auto
  have k: "\<forall>b \<in> set bs. known b" using Cons.prems(1) by (auto simp: known_def)
  have "obs (run_actions bs (b (a s))) = obs (run_actions bs (a (b s)))"
    using commute [OF j(1) assms(1) j(2) j(3) assms(2) Cons.prems(2)] Cons.prems(2) j assms(1,2)
    by (intro obs_run k) (auto intro: ok_action)
  also have "\<dots> = obs (a (run_actions bs (b s)))"
    using Cons.IH [of "b s"] Cons.prems j by (auto intro: ok_action)
  finally show ?case by simp
qed simp

lemma in_rest:
  assumes "length js = length bodies" "\<forall>k < length bodies. set (remaining (bodies ! k) (js ! k)) \<subseteq> set (bodies ! k)"
    and "b \<in> set (concat (map2 remaining (take n bodies) (take n js)))" and "n \<le> length bodies"
  shows "\<exists>j < n. b \<in> set (bodies ! j)"
proof -
  obtain x y where xy: "(x, y) \<in> set (zip (take n bodies) (take n js))" "b \<in> set (remaining x y)"
    using assms(3) by auto
  then obtain m where m: "take n bodies ! m = x" "take n js ! m = y" "m < length (take n bodies)"
    by (auto simp: in_set_zip)
  then have "b \<in> set (remaining (bodies ! m) (js ! m))" "m < n" "m < length bodies"
    using xy(2) by auto
  then show ?thesis using assms(2) by blast
qed

lemma rest_split:
  assumes "length js = length bodies" "i < length bodies"
  shows "rest bodies (js[i := j]) = concat (map2 remaining (take i bodies) (take i js)) @
    remaining (bodies ! i) j @ concat (map2 remaining (drop (Suc i) bodies) (drop (Suc i) js))"
proof -
  have "js[i := j] = take i js @ j # drop (Suc i) js"
    using assms by (simp add: upd_conv_take_nth_drop)
  moreover have "bodies = take i bodies @ bodies ! i # drop (Suc i) bodies"
    using assms(2) by (simp add: id_take_nth_drop)
  ultimately have "rest bodies (js[i := j]) = concat (map2 remaining (take i bodies @ bodies ! i # drop (Suc i) bodies)
      (take i js @ j # drop (Suc i) js))"
    by (simp add: rest_def)
  also have "\<dots> = concat (map2 remaining (take i bodies) (take i js)) @
    remaining (bodies ! i) j @ concat (map2 remaining (drop (Suc i) bodies) (drop (Suc i) js))"
    using assms by (subst zip_append) simp_all
  finally show ?thesis .
qed

lemmas rest_here = rest_split [where j = "js ! i" and js = js and i = i for js i, unfolded list_update_id]

definition suffixes :: "'s pool \<Rightarrow> bool" where
  "suffixes p \<longleftrightarrow> length (jobs p) = length bodies \<and>
     (\<forall>k < length bodies. set (remaining (bodies ! k) (jobs p ! k)) \<subseteq> set (bodies ! k))"

lemma suffixes_update:
  assumes "suffixes p" and "i < length (jobs p)" and "set (remaining (bodies ! i) j) \<subseteq> set (bodies ! i)"
  shows "suffixes (p\<lparr>shared := s, jobs := (jobs p)[i := j]\<rparr>)" "suffixes (p\<lparr>jobs := (jobs p)[i := j]\<rparr>)"
  using assms by (simp_all add: suffixes_def nth_list_update)

lemma suffixes_remaining: "suffixes p \<Longrightarrow> i < length (jobs p) \<Longrightarrow> set (remaining (bodies ! i) (jobs p ! i)) \<subseteq> set (bodies ! i)"
  by (simp add: suffixes_def)

lemma suffixes_step: "pool_step cap ordered bodies p q \<Longrightarrow> suffixes p \<Longrightarrow> suffixes q"
proof (induction rule: pool_step.induct)
  case (action i p a as)
  then show ?case using suffixes_remaining [of p i] by (intro suffixes_update) (auto simp: remaining_def)
qed (auto intro!: suffixes_update simp: remaining_def)

lemma rest_known: "suffixes p \<Longrightarrow> \<forall>a \<in> set (rest bodies (jobs p)). known a"
  using in_rest [of "jobs p" _ "length bodies"] by (fastforce simp: suffixes_def rest_def known_def)

text \<open>The invariant: finishing sequentially from here gives the sequential result.\<close>

lemma step_result:
  assumes "pool_step cap ordered bodies p q" and "suffixes p" and "ok (shared p)"
  shows "ok (shared q) \<and> obs (run_actions (rest bodies (jobs q)) (shared q)) =
    obs (run_actions (rest bodies (jobs p)) (shared p))"
  using assms
proof (induction rule: pool_step.induct)
  case (acquire i p)
  then have i: "length (jobs p) = length bodies" "i < length bodies" by (auto simp: suffixes_def)
  then show ?case using acquire rest_here [OF i] rest_split [OF i, of "Running (bodies ! i)"]
    by (simp add: remaining_def)
next
  case (release i p)
  then have i: "length (jobs p) = length bodies" "i < length bodies" by (auto simp: suffixes_def)
  then show ?case using release rest_here [OF i] rest_split [OF i, of Finished]
    by (simp add: remaining_def)
next
  case (action i p a as)
  then have i: "length (jobs p) = length bodies" "i < length bodies" by (auto simp: suffixes_def)
  have a: "a \<in> set (bodies ! i)" using action i by (fastforce simp: suffixes_def remaining_def)
  define R1 where "R1 = concat (map2 remaining (take i bodies) (take i (jobs p)))"
  define R2 where "R2 = as @ concat (map2 remaining (drop (Suc i) bodies) (drop (Suc i) (jobs p)))"
  have p: "rest bodies (jobs p) = R1 @ a # R2"
    using rest_here [OF i] action by (simp add: R1_def R2_def remaining_def)
  have q: "rest bodies ((jobs p)[i := Running as]) = R1 @ R2"
    using rest_split [OF i, of "Running as"] by (simp add: R1_def R2_def remaining_def)
  have R1: "\<forall>b \<in> set R1. \<exists>j < length bodies. j \<noteq> i \<and> b \<in> set (bodies ! j)"
  proof
    fix b assume "b \<in> set R1"
    then obtain j where "j < i" "b \<in> set (bodies ! j)"
      using in_rest [of "jobs p" b i] action.prems(1) i(2) unfolding R1_def suffixes_def by auto
    with i(2) show "\<exists>j < length bodies. j \<noteq> i \<and> b \<in> set (bodies ! j)"
      by (intro exI [of _ j]) auto
  qed
  have known: "\<forall>b \<in> set R1. known b" "\<forall>b \<in> set R2. known b"
    using rest_known [OF action.prems(1)] by (auto simp: p)
  have oka: "ok (a (shared p))" using i(2) a action.prems(2) by (rule ok_action)
  have "obs (run_actions R2 (run_actions R1 (a (shared p)))) = obs (run_actions R2 (a (run_actions R1 (shared p))))"
    using move_front [OF i(2) a R1 action.prems(2)] oka action.prems(2) known i(2) a
    by (intro obs_run) (auto intro: ok_run ok_action)
  then show ?case using oka by (simp add: p q)
qed

lemma reach_result:
  assumes "pool_reach cap ordered bodies s p" and "ok s"
  shows "suffixes p \<and> ok (shared p) \<and>
    obs (run_actions (rest bodies (jobs p)) (shared p)) = obs (run_actions (concat bodies) s)"
  using assms(1)
proof (induction rule: pool_reach_induct)
  case init
  have "rest bodies (map (\<lambda>_. Waiting) bodies) = concat bodies"
    by (simp add: rest_def remaining_def zip_map2 zip_same_conv_map comp_def)
  then show ?case using assms(2) by (simp add: init_pool_def suffixes_def remaining_def)
next
  case (step p q)
  then show ?case using suffixes_step step_result by metis
qed

lemma final_result:
  assumes "pool_reach cap ordered bodies s p" and "ok s" and "all_finished p"
  shows "ok (shared p) \<and> obs (shared p) = obs (run_actions (concat bodies) s)"
proof -
  have "rest bodies (jobs p) = []"
    using assms(3) by (fastforce simp: rest_def remaining_def all_finished_def dest: set_zip_rightD)
  then show ?thesis using reach_result [OF assms(1,2)] by simp
qed

end

end
