(* ===== verification/OperatorVerifier.thy ===== *)
theory OperatorVerifier
  imports DatabaseFacts Clients Pool
begin

text \<open>
  The operator verifier (internal/worker/operator_verifier.go): one parallel sweep over a set
  of operators (\<open>probeSet\<close>), the retry loop and the verdict (\<open>probeAndRetrieve\<close>), and one
  turn of the worker's loop (\<open>Run\<close>). \<open>InsertOperatorRetrieval\<close> and \<open>GetUnretrievedSelfBlob\<close>
  are called here but not defined anywhere in the repository: the first is modelled as the
  record it is given, the second as a parameter of the turn.
\<close>

subsection \<open>Constants\<close>

definition minChunksForRecovery :: nat where
  "minChunksForRecovery = 1024"

definition fetchConcurrency :: nat where
  "fetchConcurrency = 32"

definition maxProbeRetries :: nat where
  "maxProbeRetries = 2"

definition gcChunksPerOpMax :: float64 where
  "gcChunksPerOpMax = 4"

record ageGroup =
  ag_hoursAgo :: float64
  ag_windowHours :: float64
  ag_limit :: nat

definition age_group :: "rat \<Rightarrow> rat \<Rightarrow> nat \<Rightarrow> ageGroup" where
  "age_group h w l = \<lparr>ag_hoursAgo = fl64 h, ag_windowHours = fl64 w, ag_limit = l\<rparr>"

definition decodeAgeGroups :: "ageGroup list" where
  "decodeAgeGroups = [
     age_group 24 6 1, age_group 48 6 1, age_group 72 6 1, age_group 96 6 1, age_group 120 6 1,
     age_group 144 6 1, age_group 168 6 1, age_group 192 6 1, age_group 216 6 1, age_group 240 6 1,
     age_group 264 6 1, age_group 288 6 1, age_group 312 6 1, age_group 336 4 1, age_group 360 6 1,
     age_group 384 6 1]"

subsection \<open>One sweep: \<open>probeSet\<close>\<close>

text \<open>
  What the goroutines share. A goroutine's body is three atomic actions: report the result to
  the discovery (its own mutex), insert the probe row (one statement, error ignored), add to
  the totals (the local mutex).
\<close>

record sweep =
  sw_disc :: discovery
  sw_db :: db
  sw_chunks :: nat
  sw_ok :: nat
  sw_failed :: "OperatorInfo list"

definition probe_row :: "string \<Rightarrow> float64 \<Rightarrow> OperatorInfo \<Rightarrow> ChunkProbeResult \<Rightarrow> OperatorProbeResult" where
  "probe_row blobKey age op r = \<lparr>op_BlobKey = blobKey, op_BlobAgeHours = age,
     op_OperatorID = hex_encode (take 8 (oi_OperatorID op)), op_OperatorSocket = oi_Socket op,
     op_QuorumID = 0, op_Success = cp_Success r, op_LatencyMs = cp_LatencyMs r,
     op_ChunksReturned = int (cp_ChunksReturned r), op_ErrorMessage = cp_Error r\<rparr>"

definition report_action :: "OperatorInfo \<Rightarrow> ChunkProbeResult \<Rightarrow> sweep \<Rightarrow> sweep" where
  "report_action op r s = s\<lparr>sw_disc := reportResult (oi_OperatorID op) (cp_Success r) (sw_disc s)\<rparr>"

definition insert_action :: "OperatorProbeResult \<Rightarrow> sweep \<Rightarrow> sweep" where
  "insert_action row s = s\<lparr>sw_db := snd (insertOperatorProbe row (sw_db s))\<rparr>"

definition contributes :: "ChunkProbeResult \<Rightarrow> bool" where
  "contributes r \<longleftrightarrow> cp_Success r \<and> cp_ChunksReturned r > 0"

definition tally_action :: "OperatorInfo \<Rightarrow> ChunkProbeResult \<Rightarrow> sweep \<Rightarrow> sweep" where
  "tally_action op r s =
     (if contributes r
      then s\<lparr>sw_chunks := sw_chunks s + cp_ChunksReturned r, sw_ok := sw_ok s + 1\<rparr>
      else s\<lparr>sw_failed := sw_failed s @ [op]\<rparr>)"

text \<open>The network during a sweep: what each operator answers to the one call made to it.\<close>

type_synonym operators_net = "bytes \<Rightarrow> operator_net"

definition probe_one :: "operators_net \<Rightarrow> string \<Rightarrow> OperatorInfo \<Rightarrow> ChunkProbeResult" where
  "probe_one net blobKey op = probeChunks (net (oi_OperatorID op)) (oi_Socket op) blobKey 0"

definition probe_job :: "operators_net \<Rightarrow> string \<Rightarrow> float64 \<Rightarrow> OperatorInfo \<Rightarrow> (sweep \<Rightarrow> sweep) list" where
  "probe_job net blobKey age op =
     (let r = probe_one net blobKey op
      in [report_action op r, insert_action (probe_row blobKey age op r), tally_action op r])"

definition start_sweep :: "discovery \<Rightarrow> db \<Rightarrow> sweep" where
  "start_sweep disc d = \<lparr>sw_disc = disc, sw_db = d, sw_chunks = 0, sw_ok = 0, sw_failed = []\<rparr>"

text \<open>The sweep with the goroutines run one after the other.\<close>

definition probeSet :: "operators_net \<Rightarrow> string \<Rightarrow> float64 \<Rightarrow> OperatorInfo list \<Rightarrow> discovery \<Rightarrow> db \<Rightarrow> sweep" where
  "probeSet net blobKey age ops disc d =
     run_actions (concat (map (probe_job net blobKey age) ops)) (start_sweep disc d)"

text \<open>The sweep as the code runs it: any schedule of the pool, with 32 slots, started in order.\<close>

definition parallel_sweep :: "operators_net \<Rightarrow> string \<Rightarrow> float64 \<Rightarrow> OperatorInfo list \<Rightarrow> discovery \<Rightarrow> db
    \<Rightarrow> sweep pool \<Rightarrow> bool" where
  "parallel_sweep net blobKey age ops disc d p =
     pool_reach fetchConcurrency True (map (probe_job net blobKey age) ops) (start_sweep disc d) p"

subsection \<open>The retry loop and the verdict\<close>

record tally =
  ta_chunks :: nat
  ta_ok :: nat
  ta_rounds :: nat
  ta_disc :: discovery
  ta_db :: db

text \<open>\<open>nets k\<close> is the network during round \<open>k\<close>; the rounds are counted from 0.\<close>

function probe_rounds :: "(nat \<Rightarrow> operators_net) \<Rightarrow> string \<Rightarrow> float64 \<Rightarrow> OperatorInfo list \<Rightarrow> tally \<Rightarrow> tally" where
  "probe_rounds nets blobKey age pending t =
     (let s = probeSet (nets (ta_rounds t)) blobKey age pending (ta_disc t) (ta_db t);
          t' = \<lparr>ta_chunks = ta_chunks t + sw_chunks s, ta_ok = ta_ok t + sw_ok s,
                ta_rounds = ta_rounds t + 1, ta_disc = sw_disc s, ta_db = sw_db s\<rparr>
      in if ta_chunks t' \<ge> minChunksForRecovery then t'
         else if ta_rounds t' > maxProbeRetries \<or> sw_chunks s = 0 \<or> sw_failed s = [] then t'
         else probe_rounds nets blobKey age (sw_failed s) t')"
  by pat_completeness auto
termination
  by (relation "measure (\<lambda>(nets, blobKey, age, pending, t). Suc maxProbeRetries - ta_rounds t)")
    (auto simp: Let_def)

declare probe_rounds.simps [simp del]

record OperatorRetrievalResult =
  or_BlobKey :: string
  or_BlobAgeHours :: float64
  or_OperatorsTotal :: nat
  or_OperatorsOK :: nat
  or_ChunksCollected :: nat
  or_ChunksRequired :: nat
  or_DecodeSuccess :: bool
  or_DecodeLatencyMs :: int

definition chunksPerOk :: "nat \<Rightarrow> nat \<Rightarrow> float64" where
  "chunksPerOk tot okc = (if okc > 0 then fl64 (fl64 (of_nat tot) / fl64 (of_nat okc)) else 0)"

text \<open>The part after the loop: \<open>None\<close> is the early return of the inconclusive case.\<close>

definition verdict :: "string \<Rightarrow> float64 \<Rightarrow> nat \<Rightarrow> tally \<Rightarrow> int \<Rightarrow> OperatorRetrievalResult option" where
  "verdict blobKey age nops t fetchMs =
     (let recoverable = ta_chunks t \<ge> minChunksForRecovery in
      if \<not> recoverable \<and> chunksPerOk (ta_chunks t) (ta_ok t) \<ge> gcChunksPerOpMax then None
      else Some \<lparr>or_BlobKey = blobKey, or_BlobAgeHours = age, or_OperatorsTotal = nops,
        or_OperatorsOK = ta_ok t, or_ChunksCollected = ta_chunks t,
        or_ChunksRequired = minChunksForRecovery, or_DecodeSuccess = recoverable,
        or_DecodeLatencyMs = fetchMs\<rparr>)"

record ov_env =
  oe_chain :: chain
  oe_listNow :: int
  oe_listStored :: int
  oe_nets :: "nat \<Rightarrow> operators_net"
  oe_fetchMs :: int
  oe_queryNow :: int
  oe_now :: u64
  oe_selfBlob :: "AgedBlobKey option"

text \<open>The retrieval row handed to \<open>InsertOperatorRetrieval\<close>, if any, and the new state.\<close>

definition collectChunks :: "ov_env \<Rightarrow> string \<Rightarrow> float64 \<Rightarrow> OperatorInfo list \<Rightarrow> discovery \<Rightarrow> db \<Rightarrow> tally" where
  "collectChunks env blobKey age ops disc d = probe_rounds (oe_nets env) blobKey age ops
     \<lparr>ta_chunks = 0, ta_ok = 0, ta_rounds = 0, ta_disc = disc, ta_db = d\<rparr>"

definition probeAndRetrieve :: "ov_env \<Rightarrow> string \<Rightarrow> float64 \<Rightarrow> discovery \<Rightarrow> db
    \<Rightarrow> OperatorRetrievalResult option \<times> discovery \<times> db" where
  "probeAndRetrieve env blobKey age disc d =
     (case getOperators (oe_chain env) (oe_listNow env) (oe_listStored env) disc of
        (Inl _, disc') \<Rightarrow> (None, disc', d)
      | (Inr ops, disc') \<Rightarrow>
          let t = collectChunks env blobKey age ops disc' d
          in (verdict blobKey age (length ops) t (oe_fetchMs env), ta_disc t, ta_db t))"

subsection \<open>One turn of \<open>Run\<close>\<close>

datatype turn_kind = Aged | SelfBlob | Backlog | Idle

text \<open>
  Which blob the turn picks: the aged query first, every third cycle the self-dispersed
  blob, then the backlog; \<open>Idle\<close> sleeps two seconds. The log line slices sixteen bytes off
  the self-dispersed blob's key.
\<close>

definition pick_blob :: "ov_env \<Rightarrow> nat \<Rightarrow> db \<Rightarrow> (turn_kind \<times> AgedBlobKey option) outcome \<times> db" where
  "pick_blob env cycle d =
     (let ag = decodeAgeGroups ! (cycle mod length decodeAgeGroups);
          (aged, d1) = getAgedBlobKeys (oe_queryNow env) (ag_hoursAgo ag) (ag_windowHours ag) (ag_limit ag) d;
          backlog = (case getUnprobedOperatorBlobs 1 d1 of
              (Inr (b # _), d2) \<Rightarrow> (Done (Backlog, Some b), d2)
            | (_, d2) \<Rightarrow> (Done (Idle, None), d2))
      in case aged of
           Inr (b # _) \<Rightarrow> (Done (Aged, Some b), d1)
         | _ \<Rightarrow> if cycle mod 3 = 0 then
                  (case oe_selfBlob env of
                     Some b \<Rightarrow> (case slice_to 16 (ab_BlobKey b) of
                         Panic e \<Rightarrow> (Panic e, d1)
                       | Done _ \<Rightarrow> (Done (SelfBlob, Some b), d1))
                   | None \<Rightarrow> backlog)
                else backlog)"

record ov_state =
  ov_cycle :: nat
  ov_disc :: discovery
  ov_db :: db
  ov_retrievals :: "OperatorRetrievalResult list"

definition ov_turn :: "ov_env \<Rightarrow> ov_state \<Rightarrow> (turn_kind \<times> ov_state) outcome" where
  "ov_turn env s = (case pick_blob env (ov_cycle s) (ov_db s) of
     (Panic e, _) \<Rightarrow> Panic e
   | (Done (k, None), d) \<Rightarrow> Done (k, s\<lparr>ov_cycle := ov_cycle s + 1, ov_db := d\<rparr>)
   | (Done (k, Some b), d) \<Rightarrow>
       (case probeAndRetrieve env (ab_BlobKey b) (age_hours (oe_now env) (ab_RequestedAt b)) (ov_disc s) d of
          (rec, disc', d') \<Rightarrow> Done (k, s\<lparr>ov_cycle := ov_cycle s + 1, ov_disc := disc', ov_db := d',
            ov_retrievals := ov_retrievals s @ (case rec of None \<Rightarrow> [] | Some x \<Rightarrow> [x])\<rparr>)))"

text \<open>
  Before the loop: the worker does not start without a discovery and a client; otherwise it
  warms the operator cache, ignoring an error.
\<close>

definition ov_start :: "ov_env \<Rightarrow> discovery option \<Rightarrow> bool \<Rightarrow> db \<Rightarrow> ov_state option" where
  "ov_start env disc has_client d = (case disc of
     None \<Rightarrow> None
   | Some di \<Rightarrow> if \<not> has_client then None
       else Some \<lparr>ov_cycle = 0,
         ov_disc = snd (getOperators (oe_chain env) (oe_listNow env) (oe_listStored env) di),
         ov_db = d, ov_retrievals = []\<rparr>)"

text \<open>The worker's loop over a sequence of environments, stopping at a panic.\<close>

fun ov_run :: "ov_env list \<Rightarrow> ov_state \<Rightarrow> turn_kind list \<times> ov_state outcome" where
  "ov_run [] s = ([], Done s)"
| "ov_run (e # es) s = (case ov_turn e s of
     Panic m \<Rightarrow> ([], Panic m)
   | Done (k, s') \<Rightarrow> (case ov_run es s' of (ks, r) \<Rightarrow> (k # ks, r)))"

end
