(* ===== verification/OperatorVerifierFacts.thy ===== *)
theory OperatorVerifierFacts
  imports OperatorVerifier
begin

text \<open>
  What the operator verifier measures: the totals of a sweep, the bounds of the retry loop,
  the verdict in whole numbers, the independence of a sweep's result from the schedule (the
  sweep's jobs as an instance of \<open>commuting_jobs\<close>), and the order in which the worker's loop
  serves its three sources of blobs.
\<close>

subsection \<open>One sweep\<close>

lemma run_actions_fold: "run_actions as s = fold (\<lambda>a. a) as s"
  by (simp add: run_actions_def)

lemma probe_job_run:
  "run_actions (probe_job net k age op) s =
     tally_action op (probe_one net k op) (insert_action (probe_row k age op (probe_one net k op))
       (report_action op (probe_one net k op) s))"
  by (simp add: probe_job_def Let_def)

lemmas action_defs = report_action_def insert_action_def tally_action_def

definition contributors :: "operators_net \<Rightarrow> string \<Rightarrow> OperatorInfo list \<Rightarrow> OperatorInfo list" where
  "contributors net k ops = filter (\<lambda>op. contributes (probe_one net k op)) ops"

lemma sweep_totals:
  defines "run \<equiv> \<lambda>net k age ops s. run_actions (concat (map (probe_job net k age) ops)) s"
  shows "sw_chunks (run net k age ops s) = sw_chunks s + sum_list (map (\<lambda>op. cp_ChunksReturned (probe_one net k op)) (contributors net k ops))"
    "sw_ok (run net k age ops s) = sw_ok s + length (contributors net k ops)"
    "sw_failed (run net k age ops s) = sw_failed s @ filter (\<lambda>op. \<not> contributes (probe_one net k op)) ops"
    "sw_disc (run net k age ops s) = fold (\<lambda>op. reportResult (oi_OperatorID op) (cp_Success (probe_one net k op))) ops (sw_disc s)"
    "sw_db (run net k age ops s) = fold (\<lambda>op d. snd (insertOperatorProbe (probe_row k age op (probe_one net k op)) d)) ops (sw_db s)"
  unfolding run_def
  by (induction ops arbitrary: s) (simp_all add: probe_job_run action_defs contributors_def)

lemma probeSet_totals:
  "sw_chunks (probeSet net k age ops disc d) = sum_list (map (\<lambda>op. cp_ChunksReturned (probe_one net k op)) (contributors net k ops))"
  "sw_ok (probeSet net k age ops disc d) = length (contributors net k ops)"
  "sw_failed (probeSet net k age ops disc d) = filter (\<lambda>op. \<not> contributes (probe_one net k op)) ops"
  "sw_disc (probeSet net k age ops disc d) = fold (\<lambda>op. reportResult (oi_OperatorID op) (cp_Success (probe_one net k op))) ops disc"
  "sw_db (probeSet net k age ops disc d) = fold (\<lambda>op d. snd (insertOperatorProbe (probe_row k age op (probe_one net k op)) d)) ops d"
  by (simp_all add: probeSet_def start_sweep_def sweep_totals)

lemma contributors_ok_le_chunks:
  "length (contributors net k ops) \<le> sum_list (map (\<lambda>op. cp_ChunksReturned (probe_one net k op)) (contributors net k ops))"
  by (induction ops) (auto simp: contributors_def contributes_def)

lemma sweep_split: "sw_ok (probeSet net k age ops disc d) + length (sw_failed (probeSet net k age ops disc d)) = length ops"
  by (simp add: probeSet_totals contributors_def sum_length_filter_compl)

lemma sweep_none: "\<forall>op \<in> set ops. \<not> contributes (probe_one net k op) \<Longrightarrow>
    sw_chunks (probeSet net k age ops disc d) = 0 \<and> sw_ok (probeSet net k age ops disc d) = 0"
  by (simp add: probeSet_totals contributors_def)

text \<open>What a sweep leaves alone in the database.\<close>

definition db_frame :: "db \<Rightarrow> catalog \<times> (nat \<Rightarrow> stmt_fate) \<times> ObservedBlob stamped list \<times> ProbeResult stamped list" where
  "db_frame d = (catalog d, fate d, observed_blobs d, retrieval_probes d)"

lemma insertOperatorProbe_frame [simp]: "db_frame (snd (insertOperatorProbe p d)) = db_frame d"
  by (simp add: db_frame_def)

lemma probeSet_frame [simp]: "db_frame (sw_db (probeSet net k age ops disc d)) = db_frame d"
  unfolding probeSet_totals by (induction ops arbitrary: d) simp_all

lemma probeSet_cache [simp]: "di_cache (sw_disc (probeSet net k age ops disc d)) = di_cache disc"
  unfolding probeSet_totals by (induction ops arbitrary: disc) simp_all

subsection \<open>The retry loop\<close>

definition tally_ok :: "nat \<Rightarrow> nat \<Rightarrow> tally \<Rightarrow> bool" where
  "tally_ok nops npending t \<longleftrightarrow> ta_ok t \<le> ta_chunks t \<and> ta_ok t + npending \<le> nops \<and> ta_rounds t \<le> maxProbeRetries"

lemma probe_rounds_invariant:
  assumes "tally_ok nops (length pending) t"
  shows "ta_ok (probe_rounds nets k age pending t) \<le> ta_chunks (probe_rounds nets k age pending t) \<and>
    ta_ok (probe_rounds nets k age pending t) \<le> nops \<and>
    ta_rounds (probe_rounds nets k age pending t) \<in> {1..Suc maxProbeRetries} \<and>
    db_frame (ta_db (probe_rounds nets k age pending t)) = db_frame (ta_db t)"
  using assms
proof (induction nets k age pending t rule: probe_rounds.induct)
  case (1 nets k age pending t)
  define s where "s = probeSet (nets (ta_rounds t)) k age pending (ta_disc t) (ta_db t)"
  define t' where "t' = \<lparr>ta_chunks = ta_chunks t + sw_chunks s, ta_ok = ta_ok t + sw_ok s,
    ta_rounds = ta_rounds t + 1, ta_disc = sw_disc s, ta_db = sw_db s\<rparr>"
  have sok: "sw_ok s \<le> sw_chunks s"
    unfolding s_def probeSet_totals by (rule contributors_ok_le_chunks)
  have split: "sw_ok s + length (sw_failed s) = length pending" unfolding s_def by (rule sweep_split)
  have frame: "db_frame (ta_db t') = db_frame (ta_db t)" by (simp add: t'_def s_def)
  have t': "ta_ok t' \<le> ta_chunks t' \<and> ta_ok t' + length (sw_failed s) \<le> nops \<and> ta_rounds t' = Suc (ta_rounds t)"
    using "1.prems" sok split by (simp add: t'_def tally_ok_def)
  let ?stop = "ta_chunks t' \<ge> minChunksForRecovery \<or> (ta_rounds t' > maxProbeRetries \<or> sw_chunks s = 0 \<or> sw_failed s = [])"
  have unfold: "probe_rounds nets k age pending t = (if ?stop then t' else probe_rounds nets k age (sw_failed s) t')"
    by (subst probe_rounds.simps) (simp add: Let_def s_def t'_def)
  show ?case
  proof (cases ?stop)
    case True
    then show ?thesis using t' frame "1.prems" by (simp add: unfold tally_ok_def)
  next
    case False
    then have "tally_ok nops (length (sw_failed s)) t'" using t' by (simp add: tally_ok_def)
    with "1.IH" [OF s_def t'_def] False frame show ?thesis by (simp add: unfold)
  qed
qed

lemmas collect_invariant = probe_rounds_invariant [where t = "\<lparr>ta_chunks = 0, ta_ok = 0, ta_rounds = 0, ta_disc = disc, ta_db = d\<rparr>"
    and nops = "length pending" and pending = pending for disc d pending]

lemma collectChunks_invariant:
  "ta_ok (collectChunks env k age ops disc d) \<le> ta_chunks (collectChunks env k age ops disc d)"
  "ta_ok (collectChunks env k age ops disc d) \<le> length ops"
  "1 \<le> ta_rounds (collectChunks env k age ops disc d)"
  "ta_rounds (collectChunks env k age ops disc d) \<le> 3"
  "db_frame (ta_db (collectChunks env k age ops disc d)) = db_frame d"
  using collect_invariant [of ops disc d "oe_nets env" k age]
  by (auto simp: tally_ok_def collectChunks_def maxProbeRetries_def)

subsection \<open>The verdict in whole numbers\<close>

lemma fl64_below_four: "fl64 (4095 / 1024) = 4095 / 1024"
  by code_simp

lemma fl64_four: "fl64 4 = 4"
  by code_simp

text \<open>The float division of the code decides the integer comparison exactly.\<close>

lemma chunksPerOk_ge_4:
  assumes "okc \<le> chunks" and "chunks < 1024"
  shows "gcChunksPerOpMax \<le> chunksPerOk chunks okc \<longleftrightarrow> 0 < okc \<and> 4 * okc \<le> chunks"
proof (cases "okc = 0")
  case False
  have exact: "fl64 (of_nat chunks) = of_nat chunks" "fl64 (of_nat okc) = of_nat okc"
    using assms by (simp_all add: fl64_of_nat)
  have pos: "(0 :: rat) < of_nat okc" using False by simp
  show ?thesis
  proof (cases "4 * okc \<le> chunks")
    case True
    then have "(of_nat (4 * okc) :: rat) \<le> of_nat chunks" by (rule of_nat_mono)
    then have "4 \<le> (of_nat chunks / of_nat okc :: rat)" using pos by (simp add: field_simps)
    from fl64_mono [OF this] show ?thesis using False True
      by (simp add: chunksPerOk_def gcChunksPerOpMax_def exact fl64_four)
  next
    case no: False
    then have "chunks + 1 \<le> 4 * okc" by simp
    then have "(of_nat (chunks + 1) :: rat) \<le> of_nat (4 * okc)" by (rule of_nat_mono)
    then have "(of_nat chunks :: rat) \<le> 4 * of_nat okc - 1" by simp
    moreover have "(of_nat okc :: rat) \<le> 1024" using assms by (simp add: of_nat_le_iff [of _ 1024, simplified])
    ultimately have "of_nat chunks / of_nat okc \<le> (4095 / 1024 :: rat)"
      using pos by (simp add: field_simps)
    from fl64_mono [OF this] have "fl64 (of_nat chunks / of_nat okc) < 4"
      by (simp add: fl64_below_four)
    then show ?thesis using no False
      by (simp add: chunksPerOk_def gcChunksPerOpMax_def exact)
  qed
qed (simp add: chunksPerOk_def gcChunksPerOpMax_def)

lemma verdict_alt:
  assumes "ta_ok t \<le> ta_chunks t"
  shows "verdict k age nops t ms =
    (if ta_chunks t < 1024 \<and> 0 < ta_ok t \<and> 4 * ta_ok t \<le> ta_chunks t then None
     else Some \<lparr>or_BlobKey = k, or_BlobAgeHours = age, or_OperatorsTotal = nops,
        or_OperatorsOK = ta_ok t, or_ChunksCollected = ta_chunks t, or_ChunksRequired = 1024,
        or_DecodeSuccess = (1024 \<le> ta_chunks t), or_DecodeLatencyMs = ms\<rparr>)"
  using chunksPerOk_ge_4 [OF assms]
  by (auto simp: verdict_def Let_def minChunksForRecovery_def)

subsection \<open>The schedule does not matter\<close>

text \<open>What a reader of the sweep's outcome can see: everything but the order of rows and of the
  operators to retry. The times of the rows depend on the schedule.\<close>

definition sweep_obs :: "sweep \<Rightarrow> discovery \<times> catalog \<times> nat \<times> OperatorProbeResult multiset \<times> nat \<times> nat \<times> OperatorInfo multiset" where
  "sweep_obs s = (sw_disc s, catalog (sw_db s), stmts (sw_db s), mset (map snd (operator_probes (sw_db s))),
     sw_chunks s, sw_ok s, mset (sw_failed s))"

definition reliable :: "sweep \<Rightarrow> bool" where
  "reliable s \<longleftrightarrow> fate (sw_db s) = (\<lambda>_. Acked)"

lemma insertOperatorProbe_reliable:
  "fate d = (\<lambda>_. Acked) \<Longrightarrow> snd (insertOperatorProbe p d) =
     (if accepts ''operator_probes'' (operator_probe_values p) d
      then d\<lparr>operator_probes := operator_probes d @ [(now_of d, p)], stmts := Suc (stmts d)\<rparr>
      else d\<lparr>stmts := Suc (stmts d)\<rparr>)"
  by (simp add: insertOperatorProbe_def exec_def Let_def)

lemma accepts_catalog: "catalog d = catalog e \<Longrightarrow> accepts t vals d = accepts t vals e"
  by (simp add: accepts_def)

lemma in_probe_job:
  "a \<in> set (probe_job net k age op) \<longleftrightarrow> (let r = probe_one net k op in
     a = report_action op r \<or> a = insert_action (probe_row k age op r) \<or> a = tally_action op r)"
  by (auto simp: probe_job_def Let_def)

lemma reliable_action: "a \<in> set (probe_job net k age op) \<Longrightarrow> reliable s \<Longrightarrow> reliable (a s)"
  by (auto simp: in_probe_job Let_def action_defs reliable_def)

lemma insert_action_obs:
  assumes "reliable s" and "reliable t" and "sweep_obs s = sweep_obs t"
  shows "sweep_obs (insert_action row s) = sweep_obs (insert_action row t)"
proof -
  have "accepts ''operator_probes'' (operator_probe_values row) (sw_db s) =
    accepts ''operator_probes'' (operator_probe_values row) (sw_db t)"
    using assms(3) by (intro accepts_catalog) (simp add: sweep_obs_def)
  then show ?thesis using assms
    by (simp add: insert_action_def reliable_def sweep_obs_def insertOperatorProbe_reliable)
qed

lemma sweep_obs_action:
  assumes "a \<in> set (probe_job net k age op)" "reliable s" "reliable t" "sweep_obs s = sweep_obs t"
  shows "sweep_obs (a s) = sweep_obs (a t)"
proof -
  consider r where "a = report_action op r" | row where "a = insert_action row" | r where "a = tally_action op r"
    using assms(1) by (auto simp: in_probe_job Let_def)
  then show ?thesis
  proof cases
    case 2
    then show ?thesis using insert_action_obs [OF assms(2-4), of row] by (simp only:)
  qed (use assms(4) in \<open>simp_all add: sweep_obs_def report_action_def tally_action_def\<close>)
qed

lemma insert_insert_obs:
  "reliable s \<Longrightarrow> sweep_obs (insert_action p (insert_action q s)) = sweep_obs (insert_action q (insert_action p s))"
  by (simp add: insert_action_def reliable_def sweep_obs_def insertOperatorProbe_reliable accepts_def)

lemma sweep_commute:
  assumes "a \<in> set (probe_job net k age x)" "b \<in> set (probe_job net k age y)"
    and "oi_OperatorID x \<noteq> oi_OperatorID y" and "reliable s"
  shows "sweep_obs (a (b s)) = sweep_obs (b (a s))"
proof -
  consider (ra) r where "a = report_action x r" | (ia) p where "a = insert_action p" | (ta) r where "a = tally_action x r"
    using assms(1) by (auto simp: in_probe_job Let_def)
  note A = this
  consider (rb) r where "b = report_action y r" | (ib) p where "b = insert_action p" | (tb) r where "b = tally_action y r"
    using assms(2) by (auto simp: in_probe_job Let_def)
  then show ?thesis
  proof cases
    case rb
    from A show ?thesis
      by cases (simp_all add: rb sweep_obs_def action_defs reportResult_commute [OF assms(3)])
  next
    case ib
    from A show ?thesis
    proof cases
      case ia
      then show ?thesis using insert_insert_obs assms(4) ib by simp
    qed (simp_all add: ib sweep_obs_def action_defs)
  next
    case tb
    from A show ?thesis by cases (simp_all add: tb sweep_obs_def action_defs ac_simps)
  qed
qed

text \<open>The jobs of a sweep over a list of operators as an instance of the interface; repeated
  IDs are dropped, which changes nothing on the lists the discovery returns.\<close>

definition sweep_jobs :: "operators_net \<Rightarrow> string \<Rightarrow> float64 \<Rightarrow> OperatorInfo list \<Rightarrow> (sweep \<Rightarrow> sweep) list list" where
  "sweep_jobs net k age ops = map (probe_job net k age) (distinct_on oi_OperatorID ops)"

lemma sweep_jobs_distinct: "distinct (map oi_OperatorID ops) \<Longrightarrow> sweep_jobs net k age ops = map (probe_job net k age) ops"
  by (simp add: sweep_jobs_def distinct_on_id)

interpretation sweep_run: commuting_jobs sweep_obs reliable "sweep_jobs net k age ops" for net k age ops
proof unfold_locales
  fix i a s
  assume "i < length (sweep_jobs net k age ops)" "a \<in> set (sweep_jobs net k age ops ! i)" "reliable s"
  then show "reliable (a s)" using reliable_action by (auto simp: sweep_jobs_def)
next
  fix i a s t
  assume "i < length (sweep_jobs net k age ops)" "a \<in> set (sweep_jobs net k age ops ! i)"
    "reliable s" "reliable t" "sweep_obs s = sweep_obs t"
  then obtain op where "a \<in> set (probe_job net k age op)" by (auto simp: sweep_jobs_def)
  then show "sweep_obs (a s) = sweep_obs (a t)" using \<open>reliable s\<close> \<open>reliable t\<close> \<open>sweep_obs s = sweep_obs t\<close>
    by (rule sweep_obs_action)
next
  fix i j a b s
  assume h: "i < length (sweep_jobs net k age ops)" "j < length (sweep_jobs net k age ops)" "i \<noteq> j"
    "a \<in> set (sweep_jobs net k age ops ! i)" "b \<in> set (sweep_jobs net k age ops ! j)" "reliable s"
  let ?ops = "distinct_on oi_OperatorID ops"
  have "distinct (map oi_OperatorID ?ops)" by (rule distinct_on_distinct)
  from nth_eq_iff_index_eq [OF this, of i j]
  have "oi_OperatorID (?ops ! i) \<noteq> oi_OperatorID (?ops ! j)" using h by (simp add: sweep_jobs_def)
  then show "sweep_obs (a (b s)) = sweep_obs (b (a s))"
    using sweep_commute h by (auto simp: sweep_jobs_def)
qed

subsection \<open>No chunk is counted twice\<close>

text \<open>Who contributed in which round.\<close>

definition accounted :: "(nat \<Rightarrow> operators_net) \<Rightarrow> string \<Rightarrow> OperatorInfo list \<Rightarrow> tally \<Rightarrow> (nat \<times> OperatorInfo) list \<Rightarrow> bool" where
  "accounted nets key pool t cs \<longleftrightarrow>
     distinct (map (\<lambda>c. oi_OperatorID (snd c)) cs) \<and> snd ` set cs \<subseteq> set pool \<and>
     ta_ok t = length cs \<and>
     ta_chunks t = sum_list (map (\<lambda>(r, op). cp_ChunksReturned (probe_one (nets r) key op)) cs)"

lemma probe_rounds_accounted:
  assumes "distinct (map oi_OperatorID pending)" and "set pending \<subseteq> set pool" and "accounted nets k pool t cs"
    and "\<forall>c \<in> set cs. oi_OperatorID (snd c) \<notin> oi_OperatorID ` set pending"
  shows "\<exists>cs. accounted nets k pool (probe_rounds nets k age pending t) cs"
  using assms
proof (induction nets k age pending t arbitrary: cs rule: probe_rounds.induct)
  case (1 nets k age pending t)
  define s where "s = probeSet (nets (ta_rounds t)) k age pending (ta_disc t) (ta_db t)"
  define t' where "t' = \<lparr>ta_chunks = ta_chunks t + sw_chunks s, ta_ok = ta_ok t + sw_ok s,
    ta_rounds = ta_rounds t + 1, ta_disc = sw_disc s, ta_db = sw_db s\<rparr>"
  let ?new = "contributors (nets (ta_rounds t)) k pending"
  let ?cs = "cs @ map (Pair (ta_rounds t)) ?new"
  have failed: "sw_failed s = filter (\<lambda>op. \<not> contributes (probe_one (nets (ta_rounds t)) k op)) pending"
    by (simp add: s_def probeSet_totals)
  have "distinct (map oi_OperatorID ?new)" using "1.prems"(1) by (simp add: contributors_def distinct_map_filter)
  moreover have "\<forall>c \<in> set cs. \<forall>op \<in> set ?new. oi_OperatorID (snd c) \<noteq> oi_OperatorID op"
    using "1.prems"(4) by (auto simp: contributors_def)
  ultimately have acc: "accounted nets k pool t' ?cs"
    using "1.prems"(2,3) by (auto simp: accounted_def t'_def s_def probeSet_totals comp_def contributors_def)
  have d: "distinct (map oi_OperatorID (sw_failed s))" "set (sw_failed s) \<subseteq> set pool"
    using "1.prems"(1,2) by (auto simp: failed distinct_map_filter)
  have apart: "\<forall>c \<in> set ?cs. oi_OperatorID (snd c) \<notin> oi_OperatorID ` set (sw_failed s)"
  proof -
    have "oi_OperatorID op \<notin> oi_OperatorID ` set (sw_failed s)" if "op \<in> set ?new" for op
      using that "1.prems"(1) by (auto simp: failed contributors_def distinct_map dest: inj_onD)
    then have "\<forall>c \<in> set (map (Pair (ta_rounds t)) ?new). oi_OperatorID (snd c) \<notin> oi_OperatorID ` set (sw_failed s)"
      by auto
    moreover have "\<forall>c \<in> set cs. oi_OperatorID (snd c) \<notin> oi_OperatorID ` set (sw_failed s)"
      using "1.prems"(4) by (auto simp: failed)
    ultimately show ?thesis by (simp only: set_append ball_Un simp_thms)
  qed
  let ?stop = "ta_chunks t' \<ge> minChunksForRecovery \<or> (ta_rounds t' > maxProbeRetries \<or> sw_chunks s = 0 \<or> sw_failed s = [])"
  have unfold: "probe_rounds nets k age pending t = (if ?stop then t' else probe_rounds nets k age (sw_failed s) t')"
    by (subst probe_rounds.simps) (simp add: Let_def s_def t'_def)
  show ?case
  proof (cases ?stop)
    case True
    then show ?thesis using acc unfold by auto
  next
    case False
    with "1.IH" [OF s_def t'_def _ _ d acc apart] show ?thesis unfolding unfold by simp
  qed
qed

lemma collectChunks_accounted:
  assumes "distinct (map oi_OperatorID ops)"
  shows "\<exists>cs. accounted (oe_nets env) k ops (collectChunks env k age ops disc d) cs"
  unfolding collectChunks_def
  by (rule probe_rounds_accounted [where cs = "[]"]) (auto simp: accounted_def assms)

subsection \<open>Properties\<close>

text \<open>C7: The operator verifier's sweep gives the same outcome under every schedule: whatever
  the interleaving of its goroutines, at most 32 are in flight, a run can always be completed,
  and a completed run has the totals, operators to retry, failure counts and probe rows (up to
  order) of the sequential sweep, when the operators are distinct and the database answers.\<close>

theorem parallel_sweep_deterministic:
  assumes "parallel_sweep net k age ops disc d p" and "distinct (map oi_OperatorID ops)"
    and "fate d = (\<lambda>_. Acked)"
  shows "in_flight p \<le> 32 \<and>
    (\<exists>q. (pool_step fetchConcurrency True (map (probe_job net k age) ops))\<^sup>*\<^sup>* p q \<and> all_finished q) \<and>
    (all_finished p \<longrightarrow> sweep_obs (shared p) = sweep_obs (probeSet net k age ops disc d))"
proof -
  have reach: "pool_reach fetchConcurrency True (map (probe_job net k age) ops) (start_sweep disc d) p"
    using assms(1) by (simp add: parallel_sweep_def)
  have "reliable (start_sweep disc d)" using assms(3) by (simp add: reliable_def start_sweep_def)
  then have "all_finished p \<longrightarrow> sweep_obs (shared p) = sweep_obs (probeSet net k age ops disc d)"
    using sweep_run.final_result [where net = net and k = k and age = age and ops = ops] reach
    by (auto simp: sweep_jobs_distinct [OF assms(2)] probeSet_def)
  then show ?thesis
    using pool_cap [OF reach] pool_can_finish [of fetchConcurrency] by (simp add: fetchConcurrency_def)
qed

theorem parallel_sweep_deterministic_witness:
  "\<exists>q. parallel_sweep (\<lambda>_. \<lparr>on_dial = (\<lambda>_. None), on_getChunks = (\<lambda>_ _ _. (Inr [[1]], 9))\<rparr>) ''ab'' 2
      (di_cache demo_disc) demo_disc fresh_db q \<and> all_finished q \<and>
    sweep_obs (shared q) = sweep_obs (probeSet (\<lambda>_. \<lparr>on_dial = (\<lambda>_. None), on_getChunks = (\<lambda>_ _ _. (Inr [[1]], 9))\<rparr>)
      ''ab'' 2 (di_cache demo_disc) demo_disc fresh_db)"
proof -
  define net :: operators_net where "net = (\<lambda>_. \<lparr>on_dial = (\<lambda>_. None), on_getChunks = (\<lambda>_ _ _. (Inr [[1]], 9))\<rparr>)"
  let ?step = "pool_step fetchConcurrency True (map (probe_job net ''ab'' 2) (di_cache demo_disc))"
  define p where "p = init_pool (map (probe_job net ''ab'' 2) (di_cache demo_disc)) (start_sweep demo_disc fresh_db)"
  have p: "parallel_sweep net ''ab'' 2 (di_cache demo_disc) demo_disc fresh_db p"
    by (simp add: parallel_sweep_def pool_reach_def p_def)
  have d: "distinct (map oi_OperatorID (di_cache demo_disc))" by (simp add: demo_disc_def)
  from parallel_sweep_deterministic [OF p d fresh_db_fate]
  obtain q where q: "?step\<^sup>*\<^sup>* p q" "all_finished q" by blast
  have "parallel_sweep net ''ab'' 2 (di_cache demo_disc) demo_disc fresh_db q"
    using q(1) by (simp add: parallel_sweep_def pool_reach_def p_def)
  from this parallel_sweep_deterministic [OF this d fresh_db_fate] q(2)
  show ?thesis unfolding net_def [symmetric] by blast
qed

text \<open>C1: The outcome of one retrieval attempt, in whole numbers: it makes one to three rounds,
  no more operators are counted than were tried, and the blob is recorded as recoverable
  exactly when at least 1024 chunks were collected; otherwise it is recorded as at risk,
  unless some operator answered and the answers hold at least four chunks each on average,
  in which case nothing is recorded. The float division in the code never misjudges the bound.\<close>

theorem probeAndRetrieve_verdict:
  assumes "getOperators (oe_chain env) (oe_listNow env) (oe_listStored env) disc = (Inr ops, disc')"
    and "t = collectChunks env k age ops disc' d"
  shows "ta_rounds t \<in> {1..3} \<and> ta_ok t \<le> length ops \<and> ta_ok t \<le> ta_chunks t \<and>
    probeAndRetrieve env k age disc d =
      (if ta_chunks t < 1024 \<and> 0 < ta_ok t \<and> 4 * ta_ok t \<le> ta_chunks t then None
       else Some \<lparr>or_BlobKey = k, or_BlobAgeHours = age, or_OperatorsTotal = length ops,
         or_OperatorsOK = ta_ok t, or_ChunksCollected = ta_chunks t, or_ChunksRequired = 1024,
         or_DecodeSuccess = (1024 \<le> ta_chunks t), or_DecodeLatencyMs = oe_fetchMs env\<rparr>,
       ta_disc t, ta_db t)"
  using collectChunks_invariant [of env k age ops disc' d]
  by (simp add: assms probeAndRetrieve_def Let_def verdict_alt)

definition demo_env :: "(nat \<Rightarrow> bytes list) \<Rightarrow> ov_env" where
  "demo_env chunks = \<lparr>oe_chain = demo_chain, oe_listNow = 0, oe_listStored = 5,
     oe_nets = (\<lambda>r _. \<lparr>on_dial = (\<lambda>_. None), on_getChunks = (\<lambda>_ _ _.
        (if chunks r = [] then Inl ''timeout'' else Inr (chunks r), 20))\<rparr>),
     oe_fetchMs = 77, oe_queryNow = 0, oe_now = 0, oe_selfBlob = None\<rparr>"

definition demo_op :: OperatorInfo where
  "demo_op = \<lparr>oi_OperatorID = replicate 32 7, oi_Socket = ''op.example:32003;32004;32005;32006''\<rparr>"

lemma demo_getOperators:
  "getOperators demo_chain 0 5 newDiscovery = (Inr [demo_op], newDiscovery\<lparr>di_cache := [demo_op], di_cacheTime := 5\<rparr>)"
proof -
  have "gatherOperators demo_chain = [demo_op]" by code_simp
  then show ?thesis
    by (simp add: getOperators_def cache_valid_def newDiscovery_def healthy_first_def Let_def)
qed

lemma demo_env_simps [simp]:
  "oe_chain (demo_env c) = demo_chain" "oe_listNow (demo_env c) = 0" "oe_listStored (demo_env c) = 5"
  by (simp_all add: demo_env_def)

theorem probeAndRetrieve_verdict_witness:
  "fst (probeAndRetrieve (demo_env (\<lambda>r. replicate 3 [1])) ''ab12'' 30 newDiscovery fresh_db) =
     Some \<lparr>or_BlobKey = ''ab12'', or_BlobAgeHours = 30, or_OperatorsTotal = 1, or_OperatorsOK = 1,
       or_ChunksCollected = 3, or_ChunksRequired = 1024, or_DecodeSuccess = False, or_DecodeLatencyMs = 77\<rparr> \<and>
   fst (probeAndRetrieve (demo_env (\<lambda>r. replicate 4 [1])) ''ab12'' 30 newDiscovery fresh_db) = None"
proof -
  have t: "ta_chunks (collectChunks (demo_env (\<lambda>r. replicate n [1])) ''ab12'' 30 [demo_op] di fresh_db) = n \<and>
     ta_ok (collectChunks (demo_env (\<lambda>r. replicate n [1])) ''ab12'' 30 [demo_op] di fresh_db) = 1"
    if "n \<in> {3, 4}" for n di
    using that by (auto simp: collectChunks_def probe_rounds.simps probeSet_totals contributors_def contributes_def
        probe_one_def demo_env_def probeChunks_def minChunksForRecovery_def Let_def hex_val_def trimPrefix_def hasPrefix_def)
  have ms: "oe_fetchMs (demo_env c) = 77" for c by (simp add: demo_env_def)
  show ?thesis
    using probeAndRetrieve_verdict [of "demo_env (\<lambda>r. replicate 3 [1])" newDiscovery "[demo_op]" _ _ "''ab12''" 30 fresh_db]
      probeAndRetrieve_verdict [of "demo_env (\<lambda>r. replicate 4 [1])" newDiscovery "[demo_op]" _ _ "''ab12''" 30 fresh_db]
    by (simp add: demo_getOperators t ms)
qed

text \<open>C2: When the operators come from the discovery, the totals of a retrieval attempt count
  every operator at most once: there is a list of (round, operator) pairs, no operator twice,
  such that the number of answering operators is its length and the number of chunks the sum
  of what those operators returned in those rounds, whatever the retries were.\<close>

theorem collectChunks_counts_once:
  assumes "cache_ok disc"
    and "getOperators (oe_chain env) (oe_listNow env) (oe_listStored env) disc = (Inr ops, disc')"
  shows "\<exists>cs. distinct (map (\<lambda>c. oi_OperatorID (snd c)) cs) \<and> snd ` set cs \<subseteq> set ops \<and>
    ta_ok (collectChunks env k age ops disc' d) = length cs \<and>
    ta_chunks (collectChunks env k age ops disc' d) =
      sum_list (map (\<lambda>(r, op). cp_ChunksReturned (probe_one (oe_nets env r) k op)) cs)"
  using collectChunks_accounted [of ops env k age disc' d] getOperators_ok(2) [OF assms]
  by (auto simp: accounted_def)

theorem collectChunks_counts_once_witness:
  "\<exists>cs. distinct (map (\<lambda>c. oi_OperatorID (snd c)) cs) \<and> snd ` set cs \<subseteq> set [demo_op] \<and>
    ta_ok (collectChunks (demo_env (\<lambda>_. [])) ''ab12'' 30 [demo_op]
      (newDiscovery\<lparr>di_cache := [demo_op], di_cacheTime := 5\<rparr>) fresh_db) = length cs \<and>
    ta_chunks (collectChunks (demo_env (\<lambda>_. [])) ''ab12'' 30 [demo_op]
      (newDiscovery\<lparr>di_cache := [demo_op], di_cacheTime := 5\<rparr>) fresh_db) =
      sum_list (map (\<lambda>(r, op). cp_ChunksReturned (probe_one (oe_nets (demo_env (\<lambda>_. [])) r) ''ab12'' op)) cs)"
proof -
  have ok: "cache_ok newDiscovery" by (simp add: cache_ok_def newDiscovery_def)
  have ops: "getOperators (oe_chain (demo_env (\<lambda>_. []))) (oe_listNow (demo_env (\<lambda>_. [])))
      (oe_listStored (demo_env (\<lambda>_. []))) newDiscovery =
    (Inr [demo_op], newDiscovery\<lparr>di_cache := [demo_op], di_cacheTime := 5\<rparr>)"
    by (simp add: demo_getOperators)
  show ?thesis by (rule collectChunks_counts_once [OF ok ops])
qed

lemma collectChunks_unreachable:
  assumes "\<forall>op \<in> set ops. \<not> contributes (probe_one (oe_nets env 0) k op)"
  shows "ta_chunks (collectChunks env k age ops disc d) = 0 \<and> ta_ok (collectChunks env k age ops disc d) = 0 \<and>
    ta_rounds (collectChunks env k age ops disc d) = 1"
  using sweep_none [of ops "oe_nets env 0" k age disc d] assms
  by (simp add: collectChunks_def probe_rounds.simps Let_def minChunksForRecovery_def)

text \<open>When no operator answers the first round with a chunk (every dial fails, say, because
  the prober itself is offline), the retry loop stops after that one round and the blob is
  recorded as at risk with zero operators: the filter against measurement misses does not
  apply, contrary to the comment that such a verdict never means an operator was unreachable.\<close>

theorem unreachable_recorded_at_risk:
  assumes "getOperators (oe_chain env) (oe_listNow env) (oe_listStored env) disc = (Inr ops, disc')"
    and "\<forall>op \<in> set ops. \<not> contributes (probe_one (oe_nets env 0) k op)"
  shows "fst (probeAndRetrieve env k age disc d) =
    Some \<lparr>or_BlobKey = k, or_BlobAgeHours = age, or_OperatorsTotal = length ops, or_OperatorsOK = 0,
      or_ChunksCollected = 0, or_ChunksRequired = 1024, or_DecodeSuccess = False,
      or_DecodeLatencyMs = oe_fetchMs env\<rparr>"
  using collectChunks_unreachable [of ops env k age disc' d] assms
  by (simp add: probeAndRetrieve_def Let_def verdict_alt)

theorem unreachable_recorded_at_risk_witness:
  "fst (probeAndRetrieve (demo_env (\<lambda>r. if r = 0 then [] else replicate 2000 [1])) ''ab12'' 30 newDiscovery fresh_db) =
    Some \<lparr>or_BlobKey = ''ab12'', or_BlobAgeHours = 30, or_OperatorsTotal = 1, or_OperatorsOK = 0,
      or_ChunksCollected = 0, or_ChunksRequired = 1024, or_DecodeSuccess = False, or_DecodeLatencyMs = 77\<rparr>"
proof -
  let ?env = "demo_env (\<lambda>r. if r = 0 then [] else replicate 2000 [1])"
  have "\<not> contributes (probe_one (oe_nets ?env 0) ''ab12'' demo_op)"
    by (simp add: contributes_def probe_one_def probeChunks_def demo_env_def chunk_failure_def Let_def split: sum.split)
  then show ?thesis
    using unreachable_recorded_at_risk [of ?env newDiscovery "[demo_op]" _ "''ab12''" 30 fresh_db]
    by (simp add: demo_getOperators demo_env_def [THEN arg_cong, of oe_fetchMs])
qed

subsection \<open>Turns\<close>

definition window_of :: "nat \<Rightarrow> ageGroup" where
  "window_of cycle = decodeAgeGroups ! (cycle mod length decodeAgeGroups)"

text \<open>Some observed blob lies in the window the given cycle asks for.\<close>

definition window_filled :: "ov_env \<Rightarrow> nat \<Rightarrow> db \<Rightarrow> bool" where
  "window_filled env cycle d \<longleftrightarrow> (\<exists>r \<in> set (observed_blobs d).
     in_window (oe_queryNow env) (ag_hoursAgo (window_of cycle)) (ag_windowHours (window_of cycle))
       (uint (ob_RequestedAt (snd r))))"

lemma window_limit: "ag_limit (window_of cycle) = 1"
proof -
  have "\<forall>g \<in> set decodeAgeGroups. ag_limit g = 1" by (simp add: decodeAgeGroups_def age_group_def)
  moreover have "cycle mod length decodeAgeGroups < length decodeAgeGroups" by (simp add: decodeAgeGroups_def)
  ultimately show ?thesis unfolding window_of_def by (meson nth_mem)
qed

lemma getAgedBlobKeys_filled:
  assumes "acked d" and "\<exists>r \<in> set (observed_blobs d). in_window t h w (uint (ob_RequestedAt (snd r)))"
  shows "\<exists>b. fst (getAgedBlobKeys t h w 1 d) = Inr [b]"
proof -
  let ?rows = "map aged_key (scan d (filter (\<lambda>r. in_window t h w (uint (ob_RequestedAt (snd r)))) (observed_blobs d)))"
  obtain r where "r \<in> set (observed_blobs d)" "in_window t h w (uint (ob_RequestedAt (snd r)))"
    using assms(2) by blast
  then have "aged_key r \<in> set ?rows" by (simp add: scan_def)
  then have "?rows \<noteq> []" by (metis empty_iff list.set(1))
  then obtain b bs where "?rows = b # bs" by (cases ?rows) auto
  then show ?thesis by (simp add: getAgedBlobKeys_def query_acked [OF assms(1)])
qed

lemma pick_blob_aged:
  assumes "fate d = (\<lambda>_. Acked)" and "window_filled env cycle d"
  shows "\<exists>b. pick_blob env cycle d = (Done (Aged, Some b), d\<lparr>stmts := Suc (stmts d)\<rparr>)"
proof -
  have "acked d" using assms(1) by (simp add: acked_def)
  then obtain b where b: "fst (getAgedBlobKeys (oe_queryNow env) (ag_hoursAgo (window_of cycle))
      (ag_windowHours (window_of cycle)) (ag_limit (window_of cycle)) d) = Inr [b]"
    using getAgedBlobKeys_filled assms(2) unfolding window_filled_def window_limit by blast
  have "getAgedBlobKeys (oe_queryNow env) (ag_hoursAgo (window_of cycle))
      (ag_windowHours (window_of cycle)) (ag_limit (window_of cycle)) d = (Inr [b], d\<lparr>stmts := Suc (stmts d)\<rparr>)"
    by (rule prod_eqI) (simp_all add: b)
  then show ?thesis
    by (simp add: pick_blob_def Let_def flip: window_of_def)
qed


lemma probeAndRetrieve_frame:
  "probeAndRetrieve env k age disc d = (r, disc', d') \<Longrightarrow> db_frame d' = db_frame d"
  by (auto simp: probeAndRetrieve_def Let_def collectChunks_invariant split: prod.splits sum.splits)

lemma ov_turn_aged:
  assumes "fate (ov_db s) = (\<lambda>_. Acked)" and "window_filled env (ov_cycle s) (ov_db s)"
  shows "\<exists>s'. ov_turn env s = Done (Aged, s') \<and> ov_cycle s' = Suc (ov_cycle s) \<and> db_frame (ov_db s') = db_frame (ov_db s)"
proof -
  obtain b where b: "pick_blob env (ov_cycle s) (ov_db s) = (Done (Aged, Some b), (ov_db s)\<lparr>stmts := Suc (stmts (ov_db s))\<rparr>)"
    using pick_blob_aged [OF assms] by blast
  obtain r disc' d' where p: "probeAndRetrieve env (ab_BlobKey b) (age_hours (oe_now env) (ab_RequestedAt b)) (ov_disc s)
      ((ov_db s)\<lparr>stmts := Suc (stmts (ov_db s))\<rparr>) = (r, disc', d')"
    using prod_cases3 by blast
  have "db_frame d' = db_frame (ov_db s)" using probeAndRetrieve_frame [OF p] by (simp add: db_frame_def)
  then show ?thesis by (simp add: ov_turn_def b p)
qed

lemma ov_run_aged:
  assumes "fate (ov_db s) = (\<lambda>_. Acked)"
    and "\<forall>i < length envs. window_filled (envs ! i) (ov_cycle s + i) (ov_db s)"
  shows "fst (ov_run envs s) = replicate (length envs) Aged"
  using assms
proof (induction envs arbitrary: s)
  case (Cons env envs)
  obtain s' where s': "ov_turn env s = Done (Aged, s')" "ov_cycle s' = Suc (ov_cycle s)"
    "db_frame (ov_db s') = db_frame (ov_db s)"
    using ov_turn_aged [OF Cons.prems(1), of env] Cons.prems(2) by fastforce
  then have "fate (ov_db s') = (\<lambda>_. Acked)" "observed_blobs (ov_db s') = observed_blobs (ov_db s)"
    using Cons.prems(1) by (simp_all add: db_frame_def)
  moreover have "\<forall>i < length envs. window_filled (envs ! i) (ov_cycle s' + i) (ov_db s')"
  proof (intro allI impI)
    fix i assume "i < length envs"
    with Cons.prems(2) have "window_filled ((env # envs) ! Suc i) (ov_cycle s + Suc i) (ov_db s)"
      by (metis Suc_less_eq length_Cons)
    then show "window_filled (envs ! i) (ov_cycle s' + i) (ov_db s')"
      using calculation(2) by (simp add: s'(2) window_filled_def)
  qed
  ultimately have "fst (ov_run envs s') = replicate (length envs) Aged" by (intro Cons.IH)
  then show ?case using s'(1) by (cases "ov_run envs s'") simp
qed simp

text \<open>C30: As long as every cycle finds a blob in its age window, each turn of the operator
  verifier serves the aged blob: over any number of turns the backlog of unprobed blobs and
  the self-dispersed blobs are never served (the comment promises the aged probe on every
  fifth cycle only).\<close>

theorem aged_probes_starve_backlog:
  assumes "fate (ov_db s) = (\<lambda>_. Acked)"
    and "\<forall>i < length envs. window_filled (envs ! i) (ov_cycle s + i) (ov_db s)"
  shows "Backlog \<notin> set (fst (ov_run envs s)) \<and> SelfBlob \<notin> set (fst (ov_run envs s)) \<and>
    length (fst (ov_run envs s)) = length envs"
  by (simp add: ov_run_aged [OF assms])

theorem aged_probes_starve_backlog_witness:
  "Backlog \<notin> set (fst (ov_run [(demo_env (\<lambda>_. []))\<lparr>oe_queryNow := 86400000000000\<rparr>]
     \<lparr>ov_cycle = 0, ov_disc = newDiscovery, ov_db = fresh_db\<lparr>observed_blobs := [(0, demo_blob ''ab12'' 7)]\<rparr>,
      ov_retrievals = []\<rparr>))"
proof -
  let ?e = "(demo_env (\<lambda>_. []))\<lparr>oe_queryNow := 86400000000000\<rparr>"
  let ?s = "\<lparr>ov_cycle = 0, ov_disc = newDiscovery, ov_db = fresh_db\<lparr>observed_blobs := [(0, demo_blob ''ab12'' 7)]\<rparr>,
      ov_retrievals = []\<rparr>"
  have h: "hours_to_ns (fl64 24) = 86400000000000" "hours_to_ns (fl64 6) = 21600000000000" by code_simp+
  have "window_filled ?e 0 (ov_db ?s)"
    by (simp add: window_filled_def window_of_def decodeAgeGroups_def age_group_def in_window_def h demo_blob_def Let_def)
  then show ?thesis using aged_probes_starve_backlog [of ?s "[?e]"] by simp
qed

end
