(* ===== verification/Kzg.thy ===== *)
theory Kzg
  imports Prelude
begin

text \<open>
  Package kzg (internal/kzg/verify.go): the blob integrity check that the relay verifier
  applies to retrieved data. The SHA-256 digest it computes is discarded, so it is not part
  of the result.
\<close>

record verifier =
  vf_enabled :: bool

definition newVerifier :: "bool \<Rightarrow> verifier" where
  "newVerifier enabled = \<lparr>vf_enabled = enabled\<rparr>"

definition verifyBlob :: "verifier \<Rightarrow> bytes \<Rightarrow> string \<Rightarrow> string \<Rightarrow> bool \<times> string" where
  "verifyBlob v blobData commitmentX commitmentY =
     (if \<not> vf_enabled v then (True, '''')
      else if blobData = [] then (False, ''empty blob data'')
      else if commitmentX = [] \<or> commitmentY = [] then (False, ''missing commitment coordinates'')
      else (True, ''''))"

text \<open>\<open>HashBlob\<close>, over the digest function of crypto/sha256.\<close>

definition hashBlob :: "(bytes \<Rightarrow> bytes) \<Rightarrow> bytes \<Rightarrow> string" where
  "hashBlob sha256 d = hex_encode (sha256 d)"

lemma verifyBlob_missing:
  "vf_enabled v \<Longrightarrow> x = [] \<or> y = [] \<Longrightarrow> \<not> fst (verifyBlob v d x y)"
  by (auto simp: verifyBlob_def)

lemma verifyBlob_ok_iff:
  "fst (verifyBlob v d x y) \<longleftrightarrow> \<not> vf_enabled v \<or> (d \<noteq> [] \<and> x \<noteq> [] \<and> y \<noteq> [])"
  by (simp add: verifyBlob_def)

text \<open>The verdict never depends on what the relay returned: two non-empty payloads get the
  same answer for the same commitment, and with a commitment present every non-empty payload
  is reported as verified, so corrupted data passes the check.\<close>

theorem verifyBlob_ignores_data:
  assumes "d1 \<noteq> []" and "d2 \<noteq> []"
  shows "verifyBlob v d1 x y = verifyBlob v d2 x y \<and>
    (x \<noteq> [] \<and> y \<noteq> [] \<longrightarrow> verifyBlob v d2 x y = (True, ''''))"
  using assms by (simp add: verifyBlob_def)

theorem verifyBlob_ignores_data_witness:
  "verifyBlob (newVerifier True) [1, 2, 3] ''11'' ''12'' = verifyBlob (newVerifier True) [9] ''11'' ''12'' \<and>
   verifyBlob (newVerifier True) [9] ''11'' ''12'' = (True, '''')"
  using verifyBlob_ignores_data [of "[1, 2, 3]" "[9]" "newVerifier True" "''11''" "''12''"] by simp

end
