(* ===== verification/DataApi.thy ===== *)
theory DataApi
  imports Prelude
begin

text \<open>
  Package dataapi (internal/dataapi/client.go): the response types, the URLs of the three
  requests and the GET loop with its retry on HTTP 429. The HTTP transport and the JSON
  decoder are a parameter (\<open>api_env\<close>): what the k-th attempt for a URL gives, and what a
  body decodes to.
\<close>

subsection \<open>Response types\<close>

record BlobCommitment =
  bc_X :: string
  bc_Y :: string

record BlobCommitments =
  bcs_Commitment :: BlobCommitment
  bcs_Length :: int

record PaymentMetadata =
  pm_AccountID :: string
  pm_Timestamp :: u64
  pm_CumulativePayment :: int

record BlobHeader =
  bh_BlobVersion :: int
  bh_BlobCommitments :: BlobCommitments
  bh_QuorumNumbers :: string
  bh_PaymentMetadata :: PaymentMetadata

record BlobMetadata =
  bm_BlobHeader :: BlobHeader
  bm_BlobStatus :: string
  bm_BlobSizeBytes :: int
  bm_RequestedAt :: u64
  bm_ExpiryUnixSec :: u64

record BlobEntry =
  be_BlobKey :: string
  be_BlobMetadata :: BlobMetadata

record FeedResponse =
  fr_Blobs :: "BlobEntry list"
  fr_Cursor :: string

record BlobCertificate =
  ct_BlobHeader :: BlobHeader
  ct_Signature :: string
  ct_RelayKeys :: "u32 list"

text \<open>A JSON value as \<open>interface{}\<close> holds it; numbers keep their text.\<close>

datatype json = JNull | JBool bool | JNum string | JStr string | JArr "json list"
  | JObj "(string \<times> json) list"

text \<open>\<open>QuorumResults\<close> is a Go map: its entries, in the order a range statement visits them.\<close>

record Attestation =
  at_QuorumNumbers :: string
  at_QuorumResults :: "(string \<times> int) list"
  at_NonSignerPubKeys :: "json list"

subsection \<open>The transport\<close>

text \<open>
  One attempt: the request cannot be built, the exchange fails, or a reply with its status,
  the bytes read from the body and the read error, if any.
\<close>

datatype http_attempt = BadRequest go_error | DoFails go_error
  | Reply nat string "go_error option"

record api_env =
  ae_base :: string
  ae_http :: "string \<Rightarrow> nat \<Rightarrow> http_attempt"
  ae_feed :: "string \<Rightarrow> FeedResponse go_result"
  ae_cert :: "string \<Rightarrow> BlobCertificate go_result"
  ae_att :: "string \<Rightarrow> Attestation go_result"

definition maxRetries :: nat where
  "maxRetries = 3"

text \<open>
  The loop of \<open>doGet\<close> from attempt \<open>i\<close> on: the result, and the seconds slept after each 429.
\<close>

function doGet_from :: "(nat \<Rightarrow> http_attempt) \<Rightarrow> string \<Rightarrow> nat \<Rightarrow> string go_result \<times> nat list" where
  "doGet_from net url i =
     (if i < maxRetries then
        (case net i of
           BadRequest e \<Rightarrow> (Inl e, [])
         | DoFails e \<Rightarrow> (Inl e, [])
         | Reply status body rerr \<Rightarrow>
             if status = 429 then
               (case doGet_from net url (Suc i) of (r, slept) \<Rightarrow> (r, 2 ^ i # slept))
             else if status \<noteq> 200 then (Inl (''HTTP '' @ utoa status @ '': '' @ body), [])
             else (case rerr of None \<Rightarrow> Inr body | Some e \<Rightarrow> Inl e, []))
      else (Inl (''max retries exceeded for '' @ url), []))"
  by pat_completeness auto
termination
  by (relation "measure (\<lambda>(net, url, i). maxRetries - i)") auto

declare doGet_from.simps [simp del]

definition doGet :: "api_env \<Rightarrow> string \<Rightarrow> string go_result" where
  "doGet env url = fst (doGet_from (ae_http env url) url 0)"

subsection \<open>The three requests\<close>

definition hex_upper :: "nat \<Rightarrow> char" where
  "hex_upper n = (if n < 10 then char_of (48 + n) else char_of (55 + n))"

text \<open>\<open>url.QueryEscape\<close>.\<close>

definition escape_char :: "char \<Rightarrow> string" where
  "escape_char c = (let n = (of_char c :: nat) in
     if 48 \<le> n \<and> n \<le> 57 \<or> 65 \<le> n \<and> n \<le> 90 \<or> 97 \<le> n \<and> n \<le> 122 \<or> c \<in> set ''-_.~'' then [c]
     else if c = CHR '' '' then ''+''
     else [CHR ''%'', hex_upper (n div 16), hex_upper (n mod 16)])"

definition queryEscape :: "string \<Rightarrow> string" where
  "queryEscape s = concat (map escape_char s)"

text \<open>\<open>params.Encode()\<close> writes the keys in alphabetical order.\<close>

definition feed_url :: "string \<Rightarrow> int \<Rightarrow> string \<Rightarrow> string" where
  "feed_url base limit cursor = base @ ''/blobs/feed?'' @
     (if cursor \<noteq> [] then ''cursor='' @ queryEscape cursor @ ''&'' else []) @
     ''direction=backward&limit='' @ queryEscape (itoa limit)"

definition fetchBlobFeed :: "api_env \<Rightarrow> int \<Rightarrow> string \<Rightarrow> FeedResponse go_result" where
  "fetchBlobFeed env limit cursor = (case doGet env (feed_url (ae_base env) limit cursor) of
     Inl e \<Rightarrow> Inl (''fetch blob feed: '' @ e)
   | Inr resp \<Rightarrow> (case ae_feed env resp of
       Inl e \<Rightarrow> Inl (''decode blob feed: '' @ e)
     | Inr feed \<Rightarrow> Inr feed))"

definition fetchCertificate :: "api_env \<Rightarrow> string \<Rightarrow> BlobCertificate go_result" where
  "fetchCertificate env blobKey = (case doGet env (ae_base env @ ''/blobs/'' @ blobKey @ ''/certificate'') of
     Inl e \<Rightarrow> Inl (''fetch certificate for '' @ blobKey @ '': '' @ e)
   | Inr resp \<Rightarrow> (case ae_cert env resp of
       Inl e \<Rightarrow> Inl (''decode certificate for '' @ blobKey @ '': '' @ e)
     | Inr cert \<Rightarrow> Inr cert))"

definition fetchAttestationInfo :: "api_env \<Rightarrow> string \<Rightarrow> Attestation go_result" where
  "fetchAttestationInfo env blobKey = (case doGet env (ae_base env @ ''/blobs/'' @ blobKey @ ''/attestation-info'') of
     Inl e \<Rightarrow> Inl (''fetch attestation for '' @ blobKey @ '': '' @ e)
   | Inr resp \<Rightarrow> (case ae_att env resp of
       Inl e \<Rightarrow> Inl (''decode attestation for '' @ blobKey @ '': '' @ e)
     | Inr att \<Rightarrow> Inr att))"

subsection \<open>The retry loop\<close>

definition is_429 :: "http_attempt \<Rightarrow> bool" where
  "is_429 a = (case a of Reply st _ _ \<Rightarrow> st = 429 | _ \<Rightarrow> False)"

text \<open>What an attempt that is not answered with 429 makes the loop return.\<close>

definition final_result :: "http_attempt \<Rightarrow> string go_result" where
  "final_result a = (case a of BadRequest e \<Rightarrow> Inl e | DoFails e \<Rightarrow> Inl e
     | Reply st body rerr \<Rightarrow> if st \<noteq> 200 then Inl (''HTTP '' @ utoa st @ '': '' @ body)
         else (case rerr of None \<Rightarrow> Inr body | Some e \<Rightarrow> Inl e))"

lemma doGet_from_final: "i < maxRetries \<Longrightarrow> \<not> is_429 (net i) \<Longrightarrow> doGet_from net url i = (final_result (net i), [])"
  by (subst doGet_from.simps) (auto simp: is_429_def final_result_def split: http_attempt.splits)

lemma doGet_from_retry:
  "i < maxRetries \<Longrightarrow> is_429 (net i) \<Longrightarrow> doGet_from net url i =
     (fst (doGet_from net url (Suc i)), 2 ^ i # snd (doGet_from net url (Suc i)))"
  by (subst doGet_from.simps) (auto simp: is_429_def split: http_attempt.splits prod.splits)

lemma doGet_from_exhausted:
  "maxRetries \<le> i \<Longrightarrow> doGet_from net url i = (Inl (''max retries exceeded for '' @ url), [])"
  by (subst doGet_from.simps) simp

text \<open>C31: A GET makes at most three attempts and returns what the first attempt not answered
  with 429 gives; it has then slept 1, 2, .. seconds, once per 429. After three 429s it fails
  with the retry message, having slept seven seconds in all, the last four of them for nothing.\<close>

theorem doGet_spec:
  "doGet_from net url 0 =
     (if \<not> is_429 (net 0) then (final_result (net 0), [])
      else if \<not> is_429 (net 1) then (final_result (net 1), [1])
      else if \<not> is_429 (net 2) then (final_result (net 2), [1, 2])
      else (Inl (''max retries exceeded for '' @ url), [1, 2, 4]))"
proof -
  have m: "0 < maxRetries" "1 < maxRetries" "2 < maxRetries" "maxRetries \<le> 3" "Suc 0 < maxRetries"
    by (simp_all add: maxRetries_def)
  have three: "doGet_from net url 3 = (Inl (''max retries exceeded for '' @ url), [])"
    using m by (simp add: doGet_from_exhausted)
  have two: "doGet_from net url 2 = (if \<not> is_429 (net 2) then (final_result (net 2), [])
      else (Inl (''max retries exceeded for '' @ url), [4]))"
    using m three doGet_from_final [of 2 net url] doGet_from_retry [of 2 net url]
    by (simp add: numeral_3_eq_3 numeral_2_eq_2)
  have one: "doGet_from net url 1 = (if \<not> is_429 (net 1) then (final_result (net 1), [])
      else (fst (doGet_from net url 2), 2 # snd (doGet_from net url 2)))"
    using m doGet_from_final [of 1 net url] doGet_from_retry [of 1 net url]
    by (simp add: numeral_2_eq_2)
  show ?thesis
    using m one two doGet_from_final [of 0 net url] doGet_from_retry [of 0 net url] by simp
qed

lemma doGet_http_error:
  "\<not> is_429 (ae_http env url 0) \<Longrightarrow> doGet env url = final_result (ae_http env url 0)"
  by (simp add: doGet_def doGet_from_final maxRetries_def)

end
