(* ===== verification/Registry.thy ===== *)
theory Registry
  imports Contracts
begin

text \<open>
  Package registry (internal/registry/relay_registry.go): finding the relay registry's
  address in the EigenDA directory, and the relay URL lookup with its one-hour cache. The
  contracts are parameters: the replies to \<open>getAllNames\<close>, \<open>getAddress\<close> and \<open>relayKeyToUrl\<close>.
\<close>

record registry =
  rg_addr :: address
  rg_cache :: "u32 \<rightharpoonup> string \<times> int"
  rg_ttl :: int

subsection \<open>Resolving the registry\<close>

definition relayRegistryNames :: "string list" where
  "relayRegistryNames = [''eigenDARelayRegistry'', ''EigenDARelayRegistry'', ''relayRegistry'', ''RelayRegistry'']"

definition getAllNames :: "string list abi_reply \<Rightarrow> string list go_result" where
  "getAllNames reply = (case reply of
     PackFails e \<Rightarrow> Inl e
   | CallFails e \<Rightarrow> Inl e
   | UnpackFails e \<Rightarrow> Inl e
   | WrongType \<Rightarrow> Inl ''unexpected type for names''
   | Value ns \<Rightarrow> Inr ns)"

definition getAddress :: "(string \<Rightarrow> address abi_reply) \<Rightarrow> string \<Rightarrow> address go_result" where
  "getAddress directory name = (case directory name of
     PackFails e \<Rightarrow> Inl e
   | CallFails e \<Rightarrow> Inl e
   | UnpackFails e \<Rightarrow> Inl e
   | WrongType \<Rightarrow> Inl ''unexpected type''
   | Value a \<Rightarrow> Inr a)"

text \<open>The candidate loop: errors and the zero address are passed over.\<close>

fun first_registered :: "(string \<Rightarrow> address abi_reply) \<Rightarrow> string list \<Rightarrow> address option" where
  "first_registered directory [] = None"
| "first_registered directory (n # ns) = (case getAddress directory n of
     Inl _ \<Rightarrow> first_registered directory ns
   | Inr a \<Rightarrow> if a = zero_address then first_registered directory ns else Some a)"

definition mentions_relay :: "string \<Rightarrow> bool" where
  "mentions_relay name = contains (toLower name) ''relay''"

text \<open>\<open>%v\<close> of a string slice.\<close>

definition show_names :: "string list \<Rightarrow> string" where
  "show_names ns = ''['' @ join_with CHR '' '' ns @ '']''"

definition newFromDirectory :: "unit go_result \<Rightarrow> string list abi_reply \<Rightarrow> (string \<Rightarrow> address abi_reply)
    \<Rightarrow> string \<Rightarrow> registry go_result" where
  "newFromDirectory dial names_reply directory directoryAddress = (case dial of
     Inl e \<Rightarrow> Inl (''connect to eth RPC: '' @ e)
   | Inr _ \<Rightarrow>
       let all_names = (case getAllNames names_reply of Inl _ \<Rightarrow> [] | Inr ns \<Rightarrow> ns);
           found = (case first_registered directory relayRegistryNames of
              Some a \<Rightarrow> Some a
            | None \<Rightarrow> first_registered directory (filter mentions_relay all_names))
       in (case found of
            None \<Rightarrow> Inl (''could not find relay registry in directory '' @ directoryAddress @
                     '' (names: '' @ show_names all_names @ '')'')
          | Some a \<Rightarrow> Inr \<lparr>rg_addr = a, rg_cache = Map.empty, rg_ttl = 3600000000000\<rparr>))"

lemma first_registered_Some:
  "first_registered directory ns = Some a \<longleftrightarrow>
     (\<exists>i < length ns. directory (ns ! i) = Value a \<and> a \<noteq> zero_address \<and>
       (\<forall>j < i. \<forall>b. directory (ns ! j) = Value b \<longrightarrow> b = zero_address))"
proof (induction ns)
  case (Cons n ns)
  show ?case
  proof (cases "\<exists>b. directory n = Value b \<and> b \<noteq> zero_address")
    case True
    then obtain b where b: "directory n = Value b" "b \<noteq> zero_address" by blast
    then have "first_registered directory (n # ns) = Some b" by (simp add: getAddress_def)
    with b show ?thesis by (auto simp: Ex_less_Suc2 All_less_Suc2)
  next
    case False
    then have "first_registered directory (n # ns) = first_registered directory ns"
      by (auto simp: getAddress_def split: abi_reply.splits)
    with False Cons.IH show ?thesis by (auto simp: Ex_less_Suc2 All_less_Suc2)
  qed
qed simp

lemma first_registered_None:
  "first_registered directory ns = None \<longleftrightarrow> (\<forall>n \<in> set ns. \<forall>b. directory n = Value b \<longrightarrow> b = zero_address)"
  by (induction ns) (auto simp: getAddress_def split: abi_reply.splits sum.splits)

subsection \<open>Relay URLs\<close>

definition fetchRelayURL :: "(u32 \<Rightarrow> string abi_reply) \<Rightarrow> u32 \<Rightarrow> string go_result" where
  "fetchRelayURL relayKeyToUrl relayKey = (case relayKeyToUrl relayKey of
     PackFails e \<Rightarrow> Inl (''pack call: '' @ e)
   | CallFails e \<Rightarrow> Inl (''call relayKeyToUrl('' @ itoa (uint relayKey) @ ''): '' @ e)
   | UnpackFails e \<Rightarrow> Inl (''unpack relayKeyToUrl: '' @ e)
   | WrongType \<Rightarrow> Inl ''unexpected type for relay URL''
   | Value u \<Rightarrow> Inr u)"

text \<open>\<open>now\<close> is the clock at the cache check, \<open>stored\<close> the clock when the entry is written.\<close>

definition getRelayURL :: "(u32 \<Rightarrow> string abi_reply) \<Rightarrow> int \<Rightarrow> int \<Rightarrow> u32 \<Rightarrow> registry
    \<Rightarrow> string go_result \<times> registry" where
  "getRelayURL relayKeyToUrl now stored relayKey r =
     (let fetch = (case fetchRelayURL relayKeyToUrl relayKey of
            Inl e \<Rightarrow> (Inl e, r)
          | Inr url \<Rightarrow> (Inr url, r\<lparr>rg_cache := (rg_cache r)(relayKey \<mapsto> (url, stored))\<rparr>))
      in case rg_cache r relayKey of
           None \<Rightarrow> fetch
         | Some (url, fetchedAt) \<Rightarrow> if now - fetchedAt < rg_ttl r then (Inr url, r) else fetch)"

subsection \<open>A cache with a time to live\<close>

text \<open>
  The contract of such a cache: a fresh entry is returned without asking the source, otherwise
  the source's answer is returned and stored, and an error is not stored. From it: every value
  returned was given by the source less than a time to live ago.
\<close>

definition backed :: "('s \<Rightarrow> 'k \<Rightarrow> ('v \<times> int) option) \<Rightarrow> ('src \<Rightarrow> 'k \<Rightarrow> 'v go_result)
    \<Rightarrow> ('src \<times> int) list \<Rightarrow> 's \<Rightarrow> bool" where
  "backed entry ask asked s \<longleftrightarrow>
     (\<forall>k v t. entry s k = Some (v, t) \<longrightarrow> (\<exists>src. (src, t) \<in> set asked \<and> ask src k = Inr v))"

locale ttl_cache =
  fixes entry :: "'s \<Rightarrow> 'k \<Rightarrow> ('v \<times> int) option"
    and ttl :: "'s \<Rightarrow> int"
    and ask :: "'src \<Rightarrow> 'k \<Rightarrow> 'v go_result"
    and get :: "'src \<Rightarrow> int \<Rightarrow> int \<Rightarrow> 'k \<Rightarrow> 's \<Rightarrow> 'v go_result \<times> 's"
  assumes hit: "entry s k = Some (v, t) \<Longrightarrow> now - t < ttl s \<Longrightarrow> get src now st k s = (Inr v, s)"
    and miss_value: "(\<And>v t. entry s k = Some (v, t) \<Longrightarrow> \<not> now - t < ttl s) \<Longrightarrow> ask src k = Inr w \<Longrightarrow>
      fst (get src now st k s) = Inr w \<and> entry (snd (get src now st k s)) = (entry s)(k \<mapsto> (w, st)) \<and>
      ttl (snd (get src now st k s)) = ttl s"
    and miss_error: "(\<And>v t. entry s k = Some (v, t) \<Longrightarrow> \<not> now - t < ttl s) \<Longrightarrow> ask src k = Inl e \<Longrightarrow>
      get src now st k s = (Inl e, s)"
begin

lemma get_cases:
  obtains (from_cache) v t where "entry s k = Some (v, t)" "now - t < ttl s" "get src now st k s = (Inr v, s)"
  | (from_source) w where "ask src k = Inr w" "fst (get src now st k s) = Inr w"
      "entry (snd (get src now st k s)) = (entry s)(k \<mapsto> (w, st))" "ttl (snd (get src now st k s)) = ttl s"
  | (failed) e where "ask src k = Inl e" "get src now st k s = (Inl e, s)"
proof (cases "\<exists>v t. entry s k = Some (v, t) \<and> now - t < ttl s")
  case True
  then show ?thesis using hit that(1) by blast
next
  case False
  then have m: "\<And>v t. entry s k = Some (v, t) \<Longrightarrow> \<not> now - t < ttl s" by blast
  show ?thesis
  proof (cases "ask src k")
    case (Inl e)
    with m have "get src now st k s = (Inl e, s)" by (intro miss_error)
    with Inl show ?thesis by (rule that(3))
  next
    case (Inr w)
    with m have "fst (get src now st k s) = Inr w \<and> entry (snd (get src now st k s)) = (entry s)(k \<mapsto> (w, st)) \<and>
        ttl (snd (get src now st k s)) = ttl s" by (intro miss_value)
    with Inr show ?thesis using that(2) by blast
  qed
qed

lemma get_backed: "backed entry ask asked s \<Longrightarrow> backed entry ask (asked @ [(src, st)]) (snd (get src now st k s))"
  by (cases rule: get_cases [of s k now src st]) (auto simp: backed_def; blast)+

lemma get_ttl: "ttl (snd (get src now st k s)) = ttl s"
  by (cases rule: get_cases [of s k now src st]) auto

lemma run_backed:
  assumes "\<And>k. entry s0 k = None"
  shows "backed entry ask (map (\<lambda>(src, now, st, k). (src, st)) calls)
      (foldl (\<lambda>s (src, now, st, k). snd (get src now st k s)) s0 calls) \<and>
    ttl (foldl (\<lambda>s (src, now, st, k). snd (get src now st k s)) s0 calls) = ttl s0"
  by (induction calls rule: rev_induct) (auto simp: assms backed_def [of _ _ "[]"] get_ttl intro: get_backed)

lemma get_fresh:
  assumes "backed entry ask asked s" and "fst (get src now st k s) = Inr v"
  shows "ask src k = Inr v \<or> (\<exists>src' t. (src', t) \<in> set asked \<and> ask src' k = Inr v \<and> now - t < ttl s)"
  using assms by (cases rule: get_cases [of s k now src st]) (auto simp: backed_def; blast)+

end

interpretation urls: ttl_cache rg_cache rg_ttl fetchRelayURL getRelayURL
  by unfold_locales (auto simp: getRelayURL_def Let_def split: option.splits)

subsection \<open>Properties\<close>

text \<open>The address that \<open>NewFromDirectory\<close> settles on is the directory's non-zero address for
  the first candidate name that has one; only when no candidate has one is it taken from the
  listed names that mention a relay, again the first. It is never the zero address.\<close>

theorem newFromDirectory_address:
  assumes "newFromDirectory (Inr ()) names_reply directory txt = Inr r"
  shows "rg_addr r \<noteq> zero_address \<and> rg_cache r = Map.empty \<and>
    (\<exists>ns. (ns = relayRegistryNames \<or>
         (\<forall>n \<in> set relayRegistryNames. \<forall>b. directory n = Value b \<longrightarrow> b = zero_address) \<and>
         (\<exists>listed. names_reply = Value listed \<and> ns = filter mentions_relay listed)) \<and>
       (\<exists>i < length ns. directory (ns ! i) = Value (rg_addr r) \<and>
          (\<forall>j < i. \<forall>b. directory (ns ! j) = Value b \<longrightarrow> b = zero_address)))"
proof (cases "first_registered directory relayRegistryNames")
  case (Some a)
  then have "rg_addr r = a" "rg_cache r = Map.empty"
    using assms by (auto simp: newFromDirectory_def Let_def)
  then show ?thesis using Some [unfolded first_registered_Some] by blast
next
  case None
  then obtain listed where l: "names_reply = Value listed"
      "first_registered directory (filter mentions_relay listed) = Some (rg_addr r)" "rg_cache r = Map.empty"
    using assms by (auto simp: newFromDirectory_def Let_def getAllNames_def
        split: option.splits abi_reply.splits)
  then show ?thesis
    using None [unfolded first_registered_None] l(2) [unfolded first_registered_Some] by blast
qed

definition demo_directory :: "string \<Rightarrow> address abi_reply" where
  "demo_directory n = (if n = ''RELAY_REGISTRY'' then Value (replicate 20 5)
     else if n = ''relayRegistry'' then Value zero_address else CallFails ''revert'')"

theorem newFromDirectory_address_witness:
  "\<exists>r. newFromDirectory (Inr ()) (Value [''SERVICE_MANAGER'', ''RELAY_REGISTRY'']) demo_directory ''0x64'' = Inr r \<and>
    rg_addr r \<noteq> zero_address"
proof -
  have "\<not> isl (newFromDirectory (Inr ()) (Value [''SERVICE_MANAGER'', ''RELAY_REGISTRY'']) demo_directory ''0x64'')"
    by code_simp
  then obtain r where r: "newFromDirectory (Inr ()) (Value [''SERVICE_MANAGER'', ''RELAY_REGISTRY''])
      demo_directory ''0x64'' = Inr r"
    by (cases "newFromDirectory (Inr ()) (Value [''SERVICE_MANAGER'', ''RELAY_REGISTRY'']) demo_directory ''0x64''")
      auto
  from newFromDirectory_address [OF r] r show ?thesis by blast
qed

text \<open>C35: Every relay URL handed out was read from the contract, either in this call or in an
  earlier one whose entry is younger than the time to live; this holds over any sequence of
  lookups, with the contract's answers and the clock changing from call to call.\<close>

theorem getRelayURL_fresh:
  assumes "rg_cache r0 = Map.empty"
    and "fst (getRelayURL relayKeyToUrl now stored k
        (foldl (\<lambda>r (c, n, st, k). snd (getRelayURL c n st k r)) r0 calls)) = Inr url"
  shows "relayKeyToUrl k = Value url \<or>
    (\<exists>(c, n, st, k') \<in> set calls. c k = Value url \<and> now - st < rg_ttl r0)"
proof -
  have v: "fetchRelayURL c k = Inr url \<longleftrightarrow> c k = Value url" for c
    by (simp add: fetchRelayURL_def split: abi_reply.splits)
  note b = urls.run_backed [of r0 calls] assms(1)
  have "fetchRelayURL relayKeyToUrl k = Inr url \<or>
    (\<exists>c t. (c, t) \<in> set (map (\<lambda>(c, n, st, k). (c, st)) calls) \<and> fetchRelayURL c k = Inr url \<and> now - t < rg_ttl r0)"
    using urls.get_fresh [OF _ assms(2)] b by fastforce
  then show ?thesis by (force simp: v)
qed

definition demo_registry :: registry where
  "demo_registry = \<lparr>rg_addr = replicate 20 5, rg_cache = Map.empty, rg_ttl = 100\<rparr>"

theorem getRelayURL_fresh_witness:
  "(\<exists>(c, n, st, k') \<in> set [(\<lambda>k :: u32. Value ''relay.example'', 0, 10, 0 :: u32)].
      c 0 = Value ''relay.example'' \<and> 50 - st < rg_ttl demo_registry)"
  using getRelayURL_fresh [of demo_registry "\<lambda>_. CallFails ''down''" 50 51 0
      "[(\<lambda>_. Value ''relay.example'', 0, 10, 0)]" "''relay.example''"]
  by (simp add: demo_registry_def getRelayURL_def fetchRelayURL_def)

end
