(* ===== verification/Statements.thy ===== *)
theory Statements
  imports DatabaseFacts
begin

text \<open>
  The database as its clients see it: the statements of internal/db/db.go as data, what a
  sequence of them does whatever the connection loses, the invariant that every sequence
  keeps (every stored row fits its table, keys are unique), and the abstract store that the
  tables implement. The workers run concurrently, so what reaches the server is some
  interleaving of their statements; what is shown here holds for all of them.
\<close>

subsection \<open>Statements as data\<close>

datatype statement =
    Migrate
  | UpsertBlob ObservedBlob
  | InsertProbe ProbeResult
  | InsertAttestation AttestationSnapshot
  | InsertNonsigner AttestationNonsigner
  | InsertOperatorProbe OperatorProbeResult
  | InsertStake StakeSnapshot
  | InsertStakeOperator StakeSnapshotOperator
  | InsertEjection EjectionEvent
  | SetCursor string int
  | InsertStatus OperatorStatus
  | InsertHealth ProberHealth
  | ReadOnly

fun run_statement :: "statement \<Rightarrow> db \<Rightarrow> db" where
  "run_statement Migrate d = snd (runMigrations d)"
| "run_statement (UpsertBlob b) d = snd (upsertBlob b d)"
| "run_statement (InsertProbe p) d = snd (insertProbeResult p d)"
| "run_statement (InsertAttestation a) d = snd (insertAttestation a d)"
| "run_statement (InsertNonsigner n) d = snd (insertAttestationNonsigner n d)"
| "run_statement (InsertOperatorProbe p) d = snd (insertOperatorProbe p d)"
| "run_statement (InsertStake x) d = snd (insertStakeSnapshot x d)"
| "run_statement (InsertStakeOperator x) d = snd (insertStakeSnapshotOperator x d)"
| "run_statement (InsertEjection e) d = snd (insertEjectionEvent e d)"
| "run_statement (SetCursor n b) d = snd (updateIndexerCursor n b d)"
| "run_statement (InsertStatus s) d = snd (upsertOperatorStatus s d)"
| "run_statement (InsertHealth h) d = snd (insertProberHealth h d)"
| "run_statement ReadOnly d = d\<lparr>stmts := Suc (stmts d)\<rparr>"

definition run_statements :: "statement list \<Rightarrow> db \<Rightarrow> db" where
  "run_statements ss d = fold run_statement ss d"

subsection \<open>What a statement does when it takes effect\<close>

text \<open>Whether a row fits the migrated schema.\<close>

definition typed :: "string \<Rightarrow> (string \<times> sqlval) list \<Rightarrow> bool" where
  "typed t vals = (case schema t of None \<Rightarrow> False | Some cols \<Rightarrow> insert_ok cols vals)"

lemma accepts_typed: "migrated d \<Longrightarrow> accepts t vals d = typed t vals"
  by (simp add: accepts_schema typed_def)

fun well_typed :: "int \<Rightarrow> statement \<Rightarrow> bool" where
  "well_typed t (UpsertBlob b) = typed ''observed_blobs'' (blob_values b)"
| "well_typed t (InsertProbe p) = typed ''retrieval_probes'' (probe_values p)"
| "well_typed t (InsertAttestation a) = typed ''attestation_snapshots'' (attestation_values a)"
| "well_typed t (InsertNonsigner n) = typed ''attestation_nonsigners'' (nonsigner_values n)"
| "well_typed t (InsertOperatorProbe p) = typed ''operator_probes'' (operator_probe_values p)"
| "well_typed t (InsertStake x) = typed ''stake_snapshots'' (stake_values x)"
| "well_typed t (InsertStakeOperator x) = typed ''stake_snapshot_operators'' (stake_operator_values x)"
| "well_typed t (InsertEjection e) = typed ''ejection_events'' (ejection_values e)"
| "well_typed t (SetCursor n b) = typed ''indexer_cursors'' (cursor_values n b t)"
| "well_typed t (InsertStatus s) = typed ''operator_status_snapshots'' (status_values s)"
| "well_typed t (InsertHealth h) = typed ''prober_health'' (health_values h)"
| "well_typed t _ = True"

fun apply_statement :: "int \<Rightarrow> statement \<Rightarrow> db \<Rightarrow> db" where
  "apply_statement t (UpsertBlob b) d = d\<lparr>observed_blobs := upsert_row t b (observed_blobs d)\<rparr>"
| "apply_statement t (InsertProbe p) d = d\<lparr>retrieval_probes := retrieval_probes d @ [(t, p)]\<rparr>"
| "apply_statement t (InsertAttestation a) d = d\<lparr>attestation_snapshots := attestation_snapshots d @ [(t, a)]\<rparr>"
| "apply_statement t (InsertNonsigner n) d = d\<lparr>attestation_nonsigners := attestation_nonsigners d @ [(t, n)]\<rparr>"
| "apply_statement t (InsertOperatorProbe p) d = d\<lparr>operator_probes := operator_probes d @ [(t, p)]\<rparr>"
| "apply_statement t (InsertStake x) d = d\<lparr>stake_snapshots := stake_snapshots d @ [(t, x)]\<rparr>"
| "apply_statement t (InsertStakeOperator x) d = d\<lparr>stake_snapshot_operators := stake_snapshot_operators d @ [(t, x)]\<rparr>"
| "apply_statement t (InsertEjection e) d = d\<lparr>ejection_events := add_event e (ejection_events d)\<rparr>"
| "apply_statement t (SetCursor n b) d = d\<lparr>indexer_cursors := (indexer_cursors d)(n \<mapsto> (t, b))\<rparr>"
| "apply_statement t (InsertStatus s) d = d\<lparr>operator_status_snapshots := operator_status_snapshots d @ [(t, s)]\<rparr>"
| "apply_statement t (InsertHealth h) d = d\<lparr>prober_health := prober_health d @ [(t, h)]\<rparr>"
| "apply_statement t _ d = d"

lemma migrate_schema: "migrate_catalog schema = schema"
  by (simp add: schema_def migrate_catalog_idem)

text \<open>On a migrated database a statement either takes effect, which needs a fitting row, or only counts.\<close>

lemma run_statement_cases:
  assumes "migrated d"
  shows "run_statement s d = d\<lparr>stmts := Suc (stmts d)\<rparr> \<or>
    well_typed (now_of d) s \<and> run_statement s d = (apply_statement (now_of d) s d)\<lparr>stmts := Suc (stmts d)\<rparr>"
proof (cases s)
  case Migrate
  then show ?thesis
    using assms by (auto simp: runMigrations_def exec_def Let_def migrate_schema migrated_def split: stmt_fate.split)
qed (use assms in \<open>auto simp: insert_defs exec_def Let_def accepts_typed split: stmt_fate.split\<close>)

lemma run_statement_reliable:
  assumes "migrated d" and "acked d" and "well_typed (now_of d) s"
  shows "run_statement s d = (apply_statement (now_of d) s d)\<lparr>stmts := Suc (stmts d)\<rparr>"
proof (cases s)
  case Migrate
  then show ?thesis
    using assms by (auto simp: runMigrations_def exec_acked migrate_schema migrated_def)
qed (use assms in \<open>auto simp: insert_defs exec_acked accepts_typed\<close>)

lemma apply_statement_frame [simp]:
  "catalog (apply_statement t s d) = catalog d" "fate (apply_statement t s d) = fate d"
  "stmts (apply_statement t s d) = stmts d"
  by (cases s; simp)+

lemma run_statement_frame [simp]:
  "migrated d \<Longrightarrow> migrated (run_statement s d)" "migrated d \<Longrightarrow> fate (run_statement s d) = fate d"
  using run_statement_cases [of d s] by (auto simp: migrated_def)

subsection \<open>The invariant of the tables\<close>

definition rows_typed :: "db \<Rightarrow> bool" where
  "rows_typed d \<longleftrightarrow>
     (\<forall>r \<in> set (observed_blobs d). typed ''observed_blobs'' (blob_values (snd r))) \<and>
     (\<forall>r \<in> set (retrieval_probes d). typed ''retrieval_probes'' (probe_values (snd r))) \<and>
     (\<forall>r \<in> set (operator_probes d). typed ''operator_probes'' (operator_probe_values (snd r))) \<and>
     (\<forall>r \<in> set (attestation_snapshots d). typed ''attestation_snapshots'' (attestation_values (snd r))) \<and>
     (\<forall>r \<in> set (attestation_nonsigners d). typed ''attestation_nonsigners'' (nonsigner_values (snd r))) \<and>
     (\<forall>r \<in> set (stake_snapshots d). typed ''stake_snapshots'' (stake_values (snd r))) \<and>
     (\<forall>r \<in> set (stake_snapshot_operators d). typed ''stake_snapshot_operators'' (stake_operator_values (snd r))) \<and>
     (\<forall>e \<in> set (ejection_events d). typed ''ejection_events'' (ejection_values e)) \<and>
     (\<forall>n t b. indexer_cursors d n = Some (t, b) \<longrightarrow> typed ''indexer_cursors'' (cursor_values n b t)) \<and>
     (\<forall>r \<in> set (operator_status_snapshots d). typed ''operator_status_snapshots'' (status_values (snd r))) \<and>
     (\<forall>r \<in> set (prober_health d). typed ''prober_health'' (health_values (snd r)))"

text \<open>Everything the server enforces: the migrated schema, typed rows, unique keys.\<close>

definition db_ok :: "db \<Rightarrow> bool" where
  "db_ok d \<longleftrightarrow> migrated d \<and> rows_typed d \<and> distinct (blob_keys (observed_blobs d)) \<and>
     distinct (map event_id (ejection_events d))"

lemma typed_blob:
  "typed ''observed_blobs'' (blob_values b) = accepts ''observed_blobs'' (blob_values b) fresh_db"
  by (simp add: accepts_typed)

lemma typed_merge:
  "typed ''observed_blobs'' (blob_values b) \<Longrightarrow> typed ''observed_blobs'' (blob_values old) \<Longrightarrow>
   typed ''observed_blobs'' (blob_values (merge_blob b old))"
  unfolding typed_blob accepts_blob [OF fresh_db_migrated] by (auto simp: merge_blob_def split: option.splits)

lemma upsert_row_set: "r \<in> set (upsert_row t b rs) \<Longrightarrow> r = (t, b) \<or> r \<in> set rs \<or> (\<exists>old \<in> set rs. r = (fst old, merge_blob b (snd old)))"
  by (induction rs) (auto split: if_splits)

lemma rows_typed_stmts [simp]: "rows_typed (d\<lparr>stmts := k\<rparr>) = rows_typed d"
  by (simp add: rows_typed_def)

lemma apply_statement_typed:
  assumes "rows_typed d" and "well_typed t s"
  shows "rows_typed (apply_statement t s d)"
proof (cases s)
  case (UpsertBlob b)
  have "typed ''observed_blobs'' (blob_values (snd r))" if "r \<in> set (upsert_row t b (observed_blobs d))" for r
    using upsert_row_set [OF that] typed_merge [of b] assms UpsertBlob by (auto simp: rows_typed_def)
  then show ?thesis using assms(1) UpsertBlob by (simp add: rows_typed_def)
next
  case (InsertEjection e)
  have "set (add_event e (ejection_events d)) \<subseteq> insert e (set (ejection_events d))" by (auto simp: add_event_def)
  then show ?thesis using assms InsertEjection by (auto simp: rows_typed_def)
qed (use assms in \<open>simp_all add: rows_typed_def ball_Un\<close>)

lemma apply_statement_distinct:
  "distinct (blob_keys (observed_blobs d)) \<Longrightarrow> distinct (blob_keys (observed_blobs (apply_statement t s d)))"
  "distinct (map event_id (ejection_events d)) \<Longrightarrow> distinct (map event_id (ejection_events (apply_statement t s d)))"
  by (cases s; simp add: upsert_row_distinct add_event_distinct)+

lemma run_statement_ok: "db_ok d \<Longrightarrow> db_ok (run_statement s d)"
  using run_statement_cases [of d s] run_statement_frame(1) [of d s] apply_statement_typed [of d "now_of d" s] apply_statement_distinct [of d "now_of d" s]
  by (auto simp: db_ok_def)

lemma fresh_db_ok: "db_ok fresh_db"
  by (simp add: db_ok_def rows_typed_def fresh_db empty_db_def migrated_def blob_keys_def)

lemma run_statements_Cons [simp]: "run_statements (s # ss) d = run_statements ss (run_statement s d)"
  and run_statements_Nil [simp]: "run_statements [] d = d"
  and run_statements_append: "run_statements (ss @ ss') d = run_statements ss' (run_statements ss d)"
  by (simp_all add: run_statements_def)

lemma run_statements_ok: "db_ok d \<Longrightarrow> db_ok (run_statements ss d)"
  by (induction ss arbitrary: d) (simp_all add: run_statement_ok)

subsection \<open>The abstract store\<close>

text \<open>
  What the program needs of the database: blobs by key, which blobs have been probed through
  relays and from operators, events by identity, a cursor per indexer. One update per statement.
\<close>

record store =
  st_blobs :: "string \<rightharpoonup> ObservedBlob"
  st_probed :: "string set"
  st_opProbed :: "string set"
  st_events :: "string \<times> int \<rightharpoonup> EjectionEvent"
  st_cursor :: "string \<Rightarrow> int"

definition store_of :: "db \<Rightarrow> store" where
  "store_of d = \<lparr>st_blobs = blob_map (observed_blobs d),
     st_probed = (\<lambda>r. pr_BlobKey (snd r)) ` set (retrieval_probes d),
     st_opProbed = (\<lambda>r. op_BlobKey (snd r)) ` set (operator_probes d),
     st_events = (\<lambda>i. find (\<lambda>e. event_id e = i) (ejection_events d)), st_cursor = (\<lambda>n. cursor_value n d)\<rparr>"

fun store_step :: "statement \<Rightarrow> store \<Rightarrow> store" where
  "store_step (UpsertBlob b) s = s\<lparr>st_blobs := (st_blobs s)(ob_BlobKey b \<mapsto>
     (case st_blobs s (ob_BlobKey b) of None \<Rightarrow> b | Some old \<Rightarrow> merge_blob b old))\<rparr>"
| "store_step (InsertProbe p) s = s\<lparr>st_probed := insert (pr_BlobKey p) (st_probed s)\<rparr>"
| "store_step (InsertOperatorProbe p) s = s\<lparr>st_opProbed := insert (op_BlobKey p) (st_opProbed s)\<rparr>"
| "store_step (InsertEjection e) s = s\<lparr>st_events := (case st_events s (event_id e) of
     None \<Rightarrow> (st_events s)(event_id e \<mapsto> e) | Some _ \<Rightarrow> st_events s)\<rparr>"
| "store_step (SetCursor n b) s = s\<lparr>st_cursor := (st_cursor s)(n := b)\<rparr>"
| "store_step _ s = s"

lemma store_of_stmts [simp]: "store_of (d\<lparr>stmts := k\<rparr>) = store_of d"
  by (simp add: store_of_def)

lemma find_append: "find P (xs @ ys) = (case find P xs of None \<Rightarrow> find P ys | Some x \<Rightarrow> Some x)"
  by (induction xs) auto

lemma add_event_find:
  "(\<lambda>i. find (\<lambda>x. event_id x = i) (add_event e es)) =
     (case find (\<lambda>x. event_id x = event_id e) es of None \<Rightarrow> (\<lambda>i. find (\<lambda>x. event_id x = i) es)(event_id e \<mapsto> e)
      | Some _ \<Rightarrow> (\<lambda>i. find (\<lambda>x. event_id x = i) es))"
proof (cases "event_id e \<in> set (map event_id es)")
  case True
  then obtain x where "find (\<lambda>x. event_id x = event_id e) es = Some x"
    by (cases "find (\<lambda>x. event_id x = event_id e) es") (auto simp: find_None_iff)
  then show ?thesis using True by (simp add: add_event_def)
next
  case False
  then have "find (\<lambda>x. event_id x = event_id e) es = None" by (simp add: find_None_iff) (metis image_eqI)
  then show ?thesis using False by (auto simp: add_event_def find_append fun_eq_iff split: option.split)
qed

text \<open>The tables implement the store: one commuting square per statement.\<close>

lemma apply_statement_store: "store_of (apply_statement t s d) = store_step s (store_of d)"
proof (cases s)
  case (InsertEjection e)
  then show ?thesis by (simp add: store_of_def add_event_find cursor_value_def [abs_def] split: option.split)
qed (simp_all add: store_of_def upsert_row_map cursor_value_def fun_eq_iff)

lemma run_statement_store:
  "migrated d \<Longrightarrow> store_of (run_statement s d) \<in> {store_of d, store_step s (store_of d)}"
  using run_statement_cases [of d s] by (auto simp: apply_statement_store)

text \<open>Well-typedness of a statement does not depend on the time it runs at.\<close>

lemma well_typed_time: "well_typed t s = well_typed t' s"
  by (cases s) (simp_all add: cursor_values_def typed_def insert_ok_def value_ok_def schema_tables created_tables_def find_col_Cons column_defs)

lemma run_statements_store:
  "migrated d \<Longrightarrow> \<exists>ss'. subseq ss' ss \<and> store_of (run_statements ss d) = fold store_step ss' (store_of d)"
proof (induction ss arbitrary: d)
  case Nil
  show ?case by (intro exI [of _ "[]"]) simp
next
  case (Cons s ss)
  obtain ss' where s': "subseq ss' ss" "store_of (run_statements ss (run_statement s d)) = fold store_step ss' (store_of (run_statement s d))"
    using Cons.IH [of "run_statement s d"] Cons.prems by auto
  consider "store_of (run_statement s d) = store_of d" | "store_of (run_statement s d) = store_step s (store_of d)"
    using run_statement_store [OF Cons.prems, of s] by blast
  then show ?case
  proof cases
    case 1
    then show ?thesis using s' by (intro exI [of _ ss']) (simp add: list_emb_Cons)
  next
    case 2
    then show ?thesis using s' by (intro exI [of _ "s # ss'"]) simp
  qed
qed

lemma run_statements_reliable:
  "migrated d \<Longrightarrow> fate d = (\<lambda>_. Acked) \<Longrightarrow> \<forall>s \<in> set ss. well_typed 0 s \<Longrightarrow>
   store_of (run_statements ss d) = fold store_step ss (store_of d)"
proof (induction ss arbitrary: d)
  case (Cons s ss)
  have "well_typed (now_of d) s" using Cons.prems(3) well_typed_time [of 0 s] by simp
  then have "store_of (run_statement s d) = store_step s (store_of d)"
    using run_statement_reliable [of d s] Cons.prems(1,2) by (simp add: acked_def apply_statement_store)
  then show ?case using Cons.IH [of "run_statement s d"] Cons.prems by simp
qed simp

text \<open>The reads, on the store.\<close>

definition store_pending :: "store \<Rightarrow> string set" where
  "store_pending s = dom (st_blobs s) - st_probed s"

lemma dom_blob_map: "dom (blob_map rows) = set (blob_keys rows)"
  by (induction rows) (auto simp: blob_keys_def dom_def split: if_splits)

lemma store_pending_keys:
  "store_pending (store_of d) = pending_keys (\<lambda>p. pr_BlobKey (snd p)) (observed_blobs d) (retrieval_probes d)"
  by (simp add: store_pending_def store_of_def dom_blob_map pending_keys_def)

subsection \<open>Properties\<close>



text \<open>C5: The tables implement an abstract store of blobs by key, probed keys, events by identity
  and cursors. Any sequence of statements acts on the store like a subsequence of their abstract
  updates, in order; on a reliable connection, with rows that fit, like all of them. And what a
  query answers is a function of the store: the commitment of a key, the cursor of an indexer,
  and for the relay queue blobs that are stored and not probed, none only if there is none.\<close>

theorem database_refines_store:
  assumes "migrated d" and "e = run_statements ss d"
  shows "(\<exists>ss'. subseq ss' ss \<and> store_of e = fold store_step ss' (store_of d)) \<and>
    (fate d = (\<lambda>_. Acked) \<and> (\<forall>s \<in> set ss. well_typed 0 s) \<longrightarrow> store_of e = fold store_step ss (store_of d)) \<and>
    (acked e \<longrightarrow> fst (getBlobCommitment k e) = (case st_blobs (store_of e) k of
        None \<Rightarrow> Inl NoRows | Some b \<Rightarrow> Inr (ob_CommitmentX b, ob_CommitmentY b)) \<and>
      fst (getIndexerCursor n e) = Inr (st_cursor (store_of e) n)) \<and>
    (\<forall>bs. fst (getUnprobedBlobs (Suc l) e) = Inr bs \<longrightarrow>
      ab_BlobKey ` set bs \<subseteq> store_pending (store_of e) \<and> (bs = [] \<longrightarrow> store_pending (store_of e) = {}))"
proof (intro conjI impI allI)
  show "\<exists>ss'. subseq ss' ss \<and> store_of e = fold store_step ss' (store_of d)"
    using run_statements_store [OF assms(1)] assms(2) by simp
  show "fate d = (\<lambda>_. Acked) \<and> (\<forall>s \<in> set ss. well_typed 0 s) \<Longrightarrow> store_of e = fold store_step ss (store_of d)"
    using run_statements_reliable [OF assms(1)] assms(2) by blast
  show "acked e \<Longrightarrow> fst (getBlobCommitment k e) = (case st_blobs (store_of e) k of
        None \<Rightarrow> Inl NoRows | Some b \<Rightarrow> Inr (ob_CommitmentX b, ob_CommitmentY b))"
    by (simp add: getBlobCommitment_acked store_of_def)
  show "acked e \<Longrightarrow> fst (getIndexerCursor n e) = Inr (st_cursor (store_of e) n)"
    by (simp add: getIndexerCursor_fst store_of_def)
  fix bs assume "fst (getUnprobedBlobs (Suc l) e) = Inr bs"
  then have bs: "bs = unprobed (\<lambda>p. pr_BlobKey (snd p)) (Suc l) (scan e (observed_blobs e)) (retrieval_probes e)"
    using query_Inr unfolding getUnprobedBlobs_def by fastforce
  show "ab_BlobKey ` set bs \<subseteq> store_pending (store_of e)"
    using relay_queue.take_pending [of _ "Suc l" e] by (auto simp: bs store_pending_keys)
  show "bs = [] \<Longrightarrow> store_pending (store_of e) = {}"
    using relay_queue.take_empty [of l e] by (simp add: bs store_pending_keys)
qed

theorem database_refines_store_witness:
  "store_of (run_statements [UpsertBlob (demo_blob ''ab'' 7), SetCursor ''ejection'' 5] fresh_db) =
     store_step (SetCursor ''ejection'' 5) (store_step (UpsertBlob (demo_blob ''ab'' 7)) (store_of fresh_db))"
proof -
  have "well_typed 0 (UpsertBlob (demo_blob ''ab'' 7))" "well_typed 0 (SetCursor ''ejection'' 5)"
    using accepts_blob [OF fresh_db_migrated, of "demo_blob ''ab'' 7", unfolded accepts_typed [OF fresh_db_migrated]]
      accepts_cursor [OF fresh_db_migrated, of "''ejection''" 5 0, unfolded accepts_typed [OF fresh_db_migrated]]
    by (simp_all add: demo_blob_def opt_val_def)
  then have w: "fate fresh_db = (\<lambda>_. Acked) \<and> (\<forall>s \<in> set [UpsertBlob (demo_blob ''ab'' 7), SetCursor ''ejection'' 5]. well_typed 0 s)"
    by (simp del: well_typed.simps)
  from mp [OF conjunct1 [OF conjunct2 [OF database_refines_store [OF fresh_db_migrated refl]]] w]
  show ?thesis by (simp only: fold_simps)
qed

end
