(* ===== verification/Collector.thy ===== *)
theory Collector
  imports DatabaseFacts DataApi
begin

text \<open>
  The blob collector (internal/worker/collector.go): one poll of the feed, the high-water mark
  of request times kept between polls, and the run of the worker over a sequence of feeds.
\<close>

subsection \<open>One poll\<close>

record collector =
  co_pollInterval :: int
  co_lastSeenTimestamp :: u64

definition newBlobCollector :: "int \<Rightarrow> collector" where
  "newBlobCollector pollInterval = \<lparr>co_pollInterval = pollInterval, co_lastSeenTimestamp = 0\<rparr>"

definition requested_at :: "BlobEntry \<Rightarrow> u64" where
  "requested_at e = bm_RequestedAt (be_BlobMetadata e)"

text \<open>\<open>fmt.Sprintf("%d", cp)\<close> unless the payment is zero; the write prober does the same.\<close>

definition cumulative_payment :: "BlobEntry \<Rightarrow> string option" where
  "cumulative_payment e =
     (let cp = pm_CumulativePayment (bh_PaymentMetadata (bm_BlobHeader (be_BlobMetadata e)))
      in if cp \<noteq> 0 then Some (itoa cp) else None)"

definition entry_blob :: "BlobEntry \<Rightarrow> ObservedBlob" where
  "entry_blob e =
     (let m = be_BlobMetadata e; h = bm_BlobHeader m; c = bcs_Commitment (bh_BlobCommitments h)
      in \<lparr>ob_BlobKey = be_BlobKey e, ob_AccountID = pm_AccountID (bh_PaymentMetadata h),
          ob_BlobStatus = bm_BlobStatus m, ob_BlobSizeBytes = bm_BlobSizeBytes m,
          ob_RequestedAt = bm_RequestedAt m, ob_ExpiryUnixSec = bm_ExpiryUnixSec m,
          ob_CommitmentX = bc_X c, ob_CommitmentY = bc_Y c, ob_QuorumNumbers = bh_QuorumNumbers h,
          ob_IsSelfDispersed = False, ob_DispersalLatencyMs = 0,
          ob_CumulativePayment = cumulative_payment e\<rparr>)"

text \<open>The loop over the feed: it stops at the first blob that is not newer than the mark.\<close>

fun collect_loop :: "u64 \<Rightarrow> BlobEntry list \<Rightarrow> db \<Rightarrow> nat \<times> db" where
  "collect_loop seen [] d = (0, d)"
| "collect_loop seen (e # es) d =
     (if requested_at e \<le> seen then (0, d)
      else case upsertBlob (entry_blob e) d of
        (err, d') \<Rightarrow> (case collect_loop seen es d' of
          (n, d'') \<Rightarrow> (if err = None then Suc n else n, d'')))"

text \<open>\<open>collectBlobs\<close> on what \<open>FetchBlobFeed(100, "")\<close> returned.\<close>

definition collect_feed :: "FeedResponse go_result \<Rightarrow> collector \<Rightarrow> db \<Rightarrow> nat \<times> collector \<times> db" where
  "collect_feed reply c d = (case reply of
     Inl _ \<Rightarrow> (0, c, d)
   | Inr feed \<Rightarrow> (case fr_Blobs feed of
       [] \<Rightarrow> (0, c, d)
     | e # es \<Rightarrow> (case collect_loop (co_lastSeenTimestamp c) (e # es) d of
         (n, d') \<Rightarrow> (n, if requested_at e > co_lastSeenTimestamp c
                         then c\<lparr>co_lastSeenTimestamp := requested_at e\<rparr> else c, d'))))"

definition collectBlobs :: "api_env \<Rightarrow> collector \<Rightarrow> db \<Rightarrow> nat \<times> collector \<times> db" where
  "collectBlobs env c d = collect_feed (fetchBlobFeed env 100 '''') c d"

text \<open>The loop of \<open>Run\<close>, one reply of the feed per poll; with the nanoseconds slept after each.\<close>

fun collector_run :: "FeedResponse go_result list \<Rightarrow> collector \<Rightarrow> db \<Rightarrow> int list \<times> collector \<times> db" where
  "collector_run [] c d = ([], c, d)"
| "collector_run (f # fs) c d = (case collect_feed f c d of
     (n, c', d') \<Rightarrow> (case collector_run fs c' d' of
       (ws, r) \<Rightarrow> ((if n = 0 then co_pollInterval c else 1000000000) # ws, r)))"

subsection \<open>The mark and the loop\<close>

lemma collect_loop_keys:
  "set (blob_keys (observed_blobs d)) \<subseteq> set (blob_keys (observed_blobs (snd (collect_loop seen es d))))"
proof (induction es arbitrary: d)
  case (Cons e es)
  have "set (blob_keys (observed_blobs d)) \<subseteq> set (blob_keys (observed_blobs (snd (upsertBlob (entry_blob e) d))))"
    by (rule upsertBlob_keys)
  also have "\<dots> \<subseteq> set (blob_keys (observed_blobs (snd (collect_loop seen es (snd (upsertBlob (entry_blob e) d))))))"
    by (rule Cons.IH)
  finally show ?case by (simp split: prod.split) (metis snd_conv)
qed simp

lemma entry_blob_key [simp]: "ob_BlobKey (entry_blob e) = be_BlobKey e"
  and entry_blob_requested [simp]: "ob_RequestedAt (entry_blob e) = requested_at e"
  by (simp_all add: entry_blob_def Let_def requested_at_def)

lemma upsertBlob_new_keys:
  "set (blob_keys (observed_blobs (snd (upsertBlob b d)))) \<subseteq> insert (ob_BlobKey b) (set (blob_keys (observed_blobs d)))"
  by (auto simp: upsertBlob_def exec_def Let_def upsert_row_keys split: stmt_fate.splits option.splits if_splits)

lemma collect_loop_new:
  "set (blob_keys (observed_blobs (snd (collect_loop seen es d)))) \<subseteq>
     set (blob_keys (observed_blobs d)) \<union> be_BlobKey ` {e \<in> set es. seen < requested_at e}"
proof (induction es arbitrary: d)
  case (Cons e es)
  show ?case
  proof (cases "requested_at e \<le> seen")
    case False
    let ?d = "snd (upsertBlob (entry_blob e) d)"
    have "snd (collect_loop seen (e # es) d) = snd (collect_loop seen es ?d)"
      using False by (simp split: prod.split)
    then show ?thesis using Cons.IH [of ?d] upsertBlob_new_keys [of "entry_blob e" d] False by fastforce
  qed simp
qed simp

lemma collect_loop_distinct:
  "distinct (blob_keys (observed_blobs d)) \<Longrightarrow> distinct (blob_keys (observed_blobs (snd (collect_loop seen es d))))"
proof (induction es arbitrary: d)
  case (Cons e es)
  then show ?case using upsertBlob_distinct [of d "entry_blob e"] by (auto split: prod.split) (metis snd_conv)
qed simp

lemma collect_feed_mark: "co_lastSeenTimestamp c \<le> co_lastSeenTimestamp (fst (snd (collect_feed f c d)))"
  by (auto simp: collect_feed_def split: sum.split list.split prod.split)

lemma collect_feed_db: "snd (snd (collect_feed f c d)) = (case f of Inl _ \<Rightarrow> d
    | Inr feed \<Rightarrow> snd (collect_loop (co_lastSeenTimestamp c) (fr_Blobs feed) d))"
  by (simp add: collect_feed_def split: sum.split list.split prod.split)

lemma collect_feed_keys:
  "set (blob_keys (observed_blobs d)) \<subseteq> set (blob_keys (observed_blobs (snd (snd (collect_feed f c d)))))"
  using collect_loop_keys by (simp add: collect_feed_db split: sum.split)

lemma collect_feed_distinct:
  "distinct (blob_keys (observed_blobs d)) \<Longrightarrow> distinct (blob_keys (observed_blobs (snd (snd (collect_feed f c d)))))"
  using collect_loop_distinct by (simp add: collect_feed_db split: sum.split)

text \<open>The keys a feed can add above a mark.\<close>

definition fresh_keys :: "u64 \<Rightarrow> FeedResponse go_result \<Rightarrow> string set" where
  "fresh_keys seen f = (case f of Inl _ \<Rightarrow> {} | Inr feed \<Rightarrow> be_BlobKey ` {e \<in> set (fr_Blobs feed). seen < requested_at e})"

lemma fresh_keys_mono: "seen \<le> seen' \<Longrightarrow> fresh_keys seen' f \<subseteq> fresh_keys seen f"
  by (auto simp: fresh_keys_def split: sum.split)

lemma collect_feed_new:
  "set (blob_keys (observed_blobs (snd (snd (collect_feed f c d))))) \<subseteq>
     set (blob_keys (observed_blobs d)) \<union> fresh_keys (co_lastSeenTimestamp c) f"
  using collect_loop_new by (simp add: collect_feed_db fresh_keys_def split: sum.split)

text \<open>A reliable database that accepts the entries of the feed.\<close>

definition entries_accepted :: "BlobEntry list \<Rightarrow> db \<Rightarrow> bool" where
  "entries_accepted es d \<longleftrightarrow> (\<forall>e \<in> set es. accepts ''observed_blobs'' (blob_values (entry_blob e)) d)"

lemma accepts_upsert [simp]: "accepts t v (snd (upsertBlob b d)) = accepts t v d"
  by (simp add: accepts_def)

lemma collect_loop_sorted:
  assumes "fate d = (\<lambda>_. Acked)" and "entries_accepted es d" and "sorted_wrt (\<lambda>a b. requested_at b \<le> requested_at a) es"
  shows "fst (collect_loop seen es d) = length (filter (\<lambda>e. seen < requested_at e) es) \<and>
    blob_map (observed_blobs (snd (collect_loop seen es d))) =
      fold (\<lambda>e m. m(be_BlobKey e \<mapsto> (case m (be_BlobKey e) of None \<Rightarrow> entry_blob e
        | Some old \<Rightarrow> merge_blob (entry_blob e) old))) (filter (\<lambda>e. seen < requested_at e) es) (blob_map (observed_blobs d))"
  using assms
proof (induction es arbitrary: d)
  case (Cons e es)
  show ?case
  proof (cases "requested_at e \<le> seen")
    case True
    then have "filter (\<lambda>e. seen < requested_at e) (e # es) = []"
      using Cons.prems(3) by (auto simp: filter_empty_conv dest: order_trans)
    then show ?thesis using True by simp
  next
    case False
    let ?u = "upsertBlob (entry_blob e) d"
    have "acked d" using Cons.prems(1) by (simp add: acked_def)
    then have u: "fst ?u = None" "observed_blobs (snd ?u) = upsert_row (now_of d) (entry_blob e) (observed_blobs d)"
      using Cons.prems(2) by (simp_all add: upsertBlob_acked entries_accepted_def)
    have "fate (snd ?u) = (\<lambda>_. Acked)" "entries_accepted es (snd ?u)"
      using Cons.prems(1,2) by (simp_all add: entries_accepted_def)
    note IH = Cons.IH [OF this] Cons.prems(3)
    then show ?thesis using False u
      by (cases ?u; cases "collect_loop seen es (snd ?u)") (simp add: upsert_row_map)
  qed
qed simp

subsection \<open>Properties\<close>

text \<open>C14: One poll of a feed that lists the newest blob first, against a database that accepts
  every row: the count returned is the number of entries above the mark, the table becomes the
  old one with exactly those entries upserted in feed order (a new key stores the entry, a
  known key is merged), and the mark moves to the newest entry.\<close>

theorem collect_feed_stores_new:
  assumes "fate d = (\<lambda>_. Acked)" and "entries_accepted (e # es) d"
    and "sorted_wrt (\<lambda>a b. requested_at b \<le> requested_at a) (e # es)" and "fr_Blobs feed = e # es"
  shows "\<exists>d'. collect_feed (Inr feed) c d =
      (length (filter (\<lambda>x. co_lastSeenTimestamp c < requested_at x) (e # es)),
       c\<lparr>co_lastSeenTimestamp := max (co_lastSeenTimestamp c) (requested_at e)\<rparr>, d') \<and>
    blob_map (observed_blobs d') = fold (\<lambda>x m. m(be_BlobKey x \<mapsto> (case m (be_BlobKey x) of
        None \<Rightarrow> entry_blob x | Some old \<Rightarrow> merge_blob (entry_blob x) old)))
      (filter (\<lambda>x. co_lastSeenTimestamp c < requested_at x) (e # es)) (blob_map (observed_blobs d))"
proof -
  obtain n d' where l: "collect_loop (co_lastSeenTimestamp c) (e # es) d = (n, d')" by fastforce
  show ?thesis
    using collect_loop_sorted [OF assms(1-3), of "co_lastSeenTimestamp c"] assms(4)
    by (simp only: collect_feed_def l sum.case list.case prod.case fst_conv snd_conv) (auto simp: max_def)
qed

text \<open>Polling the same feed again does nothing, whatever happened to the first poll's
  statements: no blob is counted, no statement is executed and the state stays as it is. So
  blobs whose upsert failed are not tried again, and neither are blobs that appear later with
  the request time of the newest one.\<close>

theorem collect_feed_twice:
  assumes "collect_feed f c d = (n, c', d')"
  shows "collect_feed f c' e = (0, c', e)"
  using assms by (auto simp: collect_feed_def split: sum.splits list.splits prod.splits if_splits)

lemma collector_run_step:
  assumes "collector_run (f # fs) c d = (ws, c', d')"
  obtains n c1 d1 ws' where "collect_feed f c d = (n, c1, d1)" "collector_run fs c1 d1 = (ws', c', d')"
proof -
  obtain n c1 d1 where "collect_feed f c d = (n, c1, d1)" using prod_cases3 by blast
  with assms that show ?thesis by (auto split: prod.splits)
qed

text \<open>C15: Over any sequence of polls, answered or not, by a database that may lose statements:
  the mark never goes back, no stored blob disappears, the blob keys stay unique, and every
  key that was added is the key of an entry of one of the feeds that was newer than the mark
  at the start.\<close>

theorem collector_run_monotone:
  assumes "distinct (blob_keys (observed_blobs d))" and "collector_run fs c d = (ws, c', d')"
  shows "co_lastSeenTimestamp c \<le> co_lastSeenTimestamp c' \<and>
    set (blob_keys (observed_blobs d)) \<subseteq> set (blob_keys (observed_blobs d')) \<and>
    distinct (blob_keys (observed_blobs d')) \<and>
    set (blob_keys (observed_blobs d')) \<subseteq> set (blob_keys (observed_blobs d)) \<union>
      (\<Union>f \<in> set fs. fresh_keys (co_lastSeenTimestamp c) f)"
  using assms
proof (induction fs arbitrary: c d ws)
  case (Cons f fs)
  obtain n c1 d1 ws' where f: "collect_feed f c d = (n, c1, d1)" and r: "collector_run fs c1 d1 = (ws', c', d')"
    using collector_run_step [OF Cons.prems(2)] .
  have d1: "distinct (blob_keys (observed_blobs d1))"
    using collect_feed_distinct [OF Cons.prems(1), of f c] f by simp
  have mark: "co_lastSeenTimestamp c \<le> co_lastSeenTimestamp c1" using collect_feed_mark [of c f d] f by simp
  have keys: "set (blob_keys (observed_blobs d)) \<subseteq> set (blob_keys (observed_blobs d1))"
    and new: "set (blob_keys (observed_blobs d1)) \<subseteq> set (blob_keys (observed_blobs d)) \<union> fresh_keys (co_lastSeenTimestamp c) f"
    using collect_feed_keys [of d f c] collect_feed_new [of f c d] f by simp_all
  have "(\<Union>f \<in> set fs. fresh_keys (co_lastSeenTimestamp c1) f) \<subseteq> (\<Union>f \<in> set fs. fresh_keys (co_lastSeenTimestamp c) f)"
    using fresh_keys_mono [OF mark] by blast
  note IH = Cons.IH [OF d1 r] this
  show ?case unfolding list.set UN_insert
  proof (intro conjI)
    show "co_lastSeenTimestamp c \<le> co_lastSeenTimestamp c'" using IH mark by (blast intro: order_trans)
    show "set (blob_keys (observed_blobs d')) \<subseteq> set (blob_keys (observed_blobs d)) \<union>
      (fresh_keys (co_lastSeenTimestamp c) f \<union> (\<Union>f \<in> set fs. fresh_keys (co_lastSeenTimestamp c) f))"
      using IH new by blast
  qed (use IH keys in blast)+
qed simp

definition demo_entry :: "string \<Rightarrow> u64 \<Rightarrow> BlobEntry" where
  "demo_entry k t = \<lparr>be_BlobKey = k, be_BlobMetadata = \<lparr>bm_BlobHeader = \<lparr>bh_BlobVersion = 0,
     bh_BlobCommitments = \<lparr>bcs_Commitment = \<lparr>bc_X = ''1'', bc_Y = ''2''\<rparr>, bcs_Length = 4096\<rparr>,
     bh_QuorumNumbers = ''0,1'', bh_PaymentMetadata = \<lparr>pm_AccountID = ''0xacc'', pm_Timestamp = 0, pm_CumulativePayment = 0\<rparr>\<rparr>,
     bm_BlobStatus = ''COMPLETE'', bm_BlobSizeBytes = 131072, bm_RequestedAt = t, bm_ExpiryUnixSec = 0\<rparr>\<rparr>"

definition demo_feed :: FeedResponse where
  "demo_feed = \<lparr>fr_Blobs = [demo_entry ''b'' 9, demo_entry ''a'' 5], fr_Cursor = ''''\<rparr>"

lemma demo_accepted: "entries_accepted [demo_entry ''b'' 9, demo_entry ''a'' 5] fresh_db"
  by (simp add: entries_accepted_def accepts_blob entry_blob_def demo_entry_def cumulative_payment_def
      opt_val_def Let_def)

theorem collect_feed_stores_new_witness:
  "\<exists>d'. collect_feed (Inr demo_feed) (newBlobCollector 3000000000) fresh_db =
      (2, \<lparr>co_pollInterval = 3000000000, co_lastSeenTimestamp = 9\<rparr>, d') \<and>
    blob_map (observed_blobs d') ''a'' = Some (entry_blob (demo_entry ''a'' 5))"
proof -
  have r: "requested_at (demo_entry k t) = t" "be_BlobKey (demo_entry k t) = k" for k t
    by (simp_all add: requested_at_def demo_entry_def)
  show ?thesis
    using collect_feed_stores_new [OF fresh_db_fate demo_accepted, of demo_feed "newBlobCollector 3000000000"]
    by (force simp: demo_feed_def r newBlobCollector_def fresh_db empty_db_def)
qed

theorem collect_feed_twice_witness:
  "fst (snd (collect_feed (Inr demo_feed) (newBlobCollector 7) (fresh_db\<lparr>fate := (\<lambda>_. Refused)\<rparr>))) =
     \<lparr>co_pollInterval = 7, co_lastSeenTimestamp = 9\<rparr> \<and>
   collect_feed (Inr demo_feed) \<lparr>co_pollInterval = 7, co_lastSeenTimestamp = 9\<rparr> fresh_db =
     (0, \<lparr>co_pollInterval = 7, co_lastSeenTimestamp = 9\<rparr>, fresh_db)"
proof -
  let ?r = "collect_feed (Inr demo_feed) (newBlobCollector 7) (fresh_db\<lparr>fate := (\<lambda>_. Refused)\<rparr>)"
  have c: "fst (snd ?r) = \<lparr>co_pollInterval = 7, co_lastSeenTimestamp = 9\<rparr>"
    by (simp add: collect_feed_def demo_feed_def newBlobCollector_def requested_at_def demo_entry_def split: prod.split)
  then have "?r = (fst ?r, \<lparr>co_pollInterval = 7, co_lastSeenTimestamp = 9\<rparr>, snd (snd ?r))"
    by (metis prod.collapse)
  from collect_feed_twice [OF this] c show ?thesis by blast
qed

theorem collector_run_monotone_witness:
  "set (blob_keys (observed_blobs (snd (snd (collector_run [Inr demo_feed, Inl ''timeout'']
     (newBlobCollector 7) fresh_db))))) \<subseteq> {''a'', ''b''}"
proof -
  let ?r = "collector_run [Inr demo_feed, Inl ''timeout''] (newBlobCollector 7) fresh_db"
  have "distinct (blob_keys (observed_blobs fresh_db))" by (simp add: fresh_db empty_db_def blob_keys_def)
  moreover have "?r = (fst ?r, fst (snd ?r), snd (snd ?r))" by simp
  ultimately show ?thesis
    using collector_run_monotone [of fresh_db "[Inr demo_feed, Inl ''timeout'']" "newBlobCollector 7" "fst ?r" "fst (snd ?r)" "snd (snd ?r)"]
    by (auto simp: fresh_keys_def demo_feed_def demo_entry_def requested_at_def fresh_db empty_db_def blob_keys_def simp del: collector_run.simps)
qed

end
