(* ===== verification/HealthRecorder.thy ===== *)
theory HealthRecorder
  imports DatabaseFacts
begin

text \<open>
  The health recorder (internal/worker/health_recorder.go): one row about the process and its
  connection pool per tick. What the runtime and the pool report is a parameter.
\<close>

record health_env =
  he_goroutines :: int
  he_heapAlloc :: u64
  he_heapSys :: u64
  he_openConnections :: int
  he_inUse :: int
  he_idle :: int
  he_waitCount :: int
  he_waitDuration :: int
  he_since :: int

text \<open>\<open>float64(bytes) / 1024 / 1024\<close>.\<close>

definition megabytes :: "u64 \<Rightarrow> float64" where
  "megabytes n = fl64 (fl64 (fl64 (of_int (uint n)) / 1024) / 1024)"

text \<open>Integer division of Go: towards zero. \<open>Duration.Milliseconds\<close> and \<open>Duration.Seconds\<close>.\<close>

definition go_div :: "int \<Rightarrow> int \<Rightarrow> int" where
  "go_div a b = sgn a * sgn b * (\<bar>a\<bar> div \<bar>b\<bar>)"

definition go_mod :: "int \<Rightarrow> int \<Rightarrow> int" where
  "go_mod a b = a - b * go_div a b"

definition duration_seconds :: "int \<Rightarrow> float64" where
  "duration_seconds d = fl64 (fl64 (of_int (go_div d 1000000000)) + fl64 (fl64 (of_int (go_mod d 1000000000)) / 1000000000))"

text \<open>\<open>int64(x)\<close> of a float: towards zero.\<close>

definition truncate :: "float64 \<Rightarrow> int" where
  "truncate x = (if 0 \<le> x then \<lfloor>x\<rfloor> else \<lceil>x\<rceil>)"

definition health_row :: "health_env \<Rightarrow> ProberHealth" where
  "health_row e = \<lparr>ph_Goroutines = he_goroutines e, ph_HeapAllocMB = megabytes (he_heapAlloc e),
     ph_HeapSysMB = megabytes (he_heapSys e), ph_DBOpenConns = he_openConnections e, ph_DBInUse = he_inUse e,
     ph_DBIdle = he_idle e, ph_DBWaitCount = he_waitCount e,
     ph_DBWaitDurationMs = go_div (he_waitDuration e) 1000000,
     ph_UptimeSeconds = truncate (duration_seconds (he_since e))\<rparr>"

text \<open>\<open>record\<close>; the insert error is only logged.\<close>

definition record_health :: "health_env \<Rightarrow> db \<Rightarrow> db" where
  "record_health e d = snd (insertProberHealth (health_row e) d)"

text \<open>\<open>Run\<close>: one row per tick, none before the first.\<close>

definition health_run :: "health_env list \<Rightarrow> db \<Rightarrow> db" where
  "health_run es d = fold record_health es d"

subsection \<open>Rounding\<close>

lemma go_div_nonneg: "0 \<le> a \<Longrightarrow> 0 < b \<Longrightarrow> go_div a b = a div b"
  by (cases "a = 0") (simp_all add: go_div_def)

lemma fl64_of_int_small: "0 \<le> n \<Longrightarrow> n \<le> 2 ^ 53 \<Longrightarrow> fl64 (of_int n) = of_int n"
  using fl64_of_nat [of "nat n"] by (simp add: nat_le_iff)

text \<open>For up to \<open>2 ^ 53\<close> seconds the whole seconds come out exactly or one too high.\<close>

lemma uptime_bounds:
  assumes "0 \<le> d" and "d div 1000000000 < 2 ^ 53"
  shows "truncate (duration_seconds d) \<in> {d div 1000000000, d div 1000000000 + 1}"
proof -
  let ?s = "d div 1000000000" and ?n = "d mod 1000000000"
  have m: "go_mod d 1000000000 = ?n"
    using assms(1) by (simp add: go_mod_def go_div_nonneg minus_mult_div_eq_mod)
  have n: "0 \<le> ?n" "?n < 1000000000" by simp_all
  let ?f = "fl64 (fl64 (of_int ?n) / 1000000000)"
  have "fl64 (of_int ?n) = of_int ?n" using n by (intro fl64_of_int_small) auto
  then have f: "0 \<le> ?f" "?f \<le> 1"
    using n fl64_mono [of "of_int ?n / 1000000000" 1] by auto
  have s: "fl64 (of_int ?s) = of_int ?s" "fl64 (of_int (?s + 1)) = of_int (?s + 1)"
    using assms fl64_of_int_small [of ?s] fl64_of_int_small [of "?s + 1"] by (simp_all add: pos_imp_zdiv_nonneg_iff)
  have e: "duration_seconds d = fl64 (of_int ?s + ?f)"
    using s assms(1) by (simp add: duration_seconds_def m go_div_nonneg)
  have "of_int ?s \<le> duration_seconds d" "duration_seconds d \<le> of_int (?s + 1)"
    using fl64_mono [of "of_int ?s" "of_int ?s + ?f"] fl64_mono [of "of_int ?s + ?f" "of_int (?s + 1)"] s f by (simp_all add: e)
  moreover from this have "\<lfloor>duration_seconds d\<rfloor> = ?s \<or> \<lfloor>duration_seconds d\<rfloor> = ?s + 1" by linarith
  moreover have "0 \<le> ?s" using assms(1) by (simp add: pos_imp_zdiv_nonneg_iff)
  ultimately show ?thesis unfolding truncate_def by auto
qed

subsection \<open>The row\<close>

definition health_fits :: "health_env \<Rightarrow> bool" where
  "health_fits e \<longleftrightarrow> fits TInteger (SInt (he_goroutines e)) \<and> fits TInteger (SInt (he_openConnections e)) \<and>
     fits TInteger (SInt (he_inUse e)) \<and> fits TInteger (SInt (he_idle e)) \<and> fits TBigint (SInt (he_waitCount e)) \<and>
     0 \<le> he_waitDuration e \<and> he_waitDuration e < 2 ^ 63 \<and> 0 \<le> he_since e \<and> he_since e < 2 ^ 63"

lemma megabytes_exact:
  assumes "uint n \<le> 2 ^ 53"
  shows "megabytes n = of_int (uint n) / 1048576"
proof -
  have "fl64 (of_int (uint n)) = of_int (uint n)" using assms by (intro fl64_of_int_small) simp_all
  then show ?thesis by (simp only: megabytes_def fl64_div_1024)
qed

lemma whole_seconds_small: "health_fits e \<Longrightarrow> he_since e div 1000000000 < 2 ^ 53"
  using zdiv_mono1 [of "he_since e" "2 ^ 63" 1000000000] by (simp add: health_fits_def)

lemma accepts_health:
  "migrated d \<Longrightarrow> accepts ''prober_health'' (health_values h) d \<longleftrightarrow>
     fits TInteger (SInt (ph_Goroutines h)) \<and> fits TInteger (SInt (ph_DBOpenConns h)) \<and> fits TInteger (SInt (ph_DBInUse h)) \<and>
     fits TInteger (SInt (ph_DBIdle h)) \<and> fits TBigint (SInt (ph_DBWaitCount h)) \<and>
     fits TBigint (SInt (ph_DBWaitDurationMs h)) \<and> fits TBigint (SInt (ph_UptimeSeconds h))"
  by (simp add: accepts_simps health_values_def)

lemma health_row_fits:
  assumes "health_fits e"
  shows "fits TBigint (SInt (ph_DBWaitDurationMs (health_row e))) \<and> fits TBigint (SInt (ph_UptimeSeconds (health_row e)))"
proof -
  have "he_since e div 1000000000 \<le> he_since e div 1" using assms by (intro zdiv_mono2) (simp_all add: health_fits_def)
  then have u: "0 \<le> he_since e div 1000000000" "he_since e div 1000000000 < 2 ^ 63"
    using assms by (auto simp: health_fits_def pos_imp_zdiv_nonneg_iff)
  have s: "he_since e div 1000000000 < 2 ^ 53" using assms by (rule whole_seconds_small)
  then have "truncate (duration_seconds (he_since e)) \<in> {he_since e div 1000000000, he_since e div 1000000000 + 1}"
    using assms by (intro uptime_bounds) (simp_all add: health_fits_def)
  moreover have "0 \<le> he_waitDuration e div 1000000" "he_waitDuration e div 1000000 < 2 ^ 63"
    using assms zdiv_mono2 [of "he_waitDuration e" 1 1000000] by (simp_all add: health_fits_def pos_imp_zdiv_nonneg_iff)
  ultimately show ?thesis
    using u s assms by (auto simp: health_row_def health_fits_def go_div_nonneg)
qed

lemma record_health_row:
  assumes "migrated d" and "fate d = (\<lambda>_. Acked)" and "health_fits e"
  shows "map snd (prober_health (record_health e d)) = map snd (prober_health d) @ [health_row e] \<and>
    migrated (record_health e d) \<and> fate (record_health e d) = (\<lambda>_. Acked)"
proof -
  have "accepts ''prober_health'' (health_values (health_row e)) d"
    using accepts_health [OF assms(1), of "health_row e"] health_row_fits [OF assms(3)] assms(3)
    by (simp add: health_fits_def health_row_def)
  then show ?thesis using assms(1,2)
    by (simp add: record_health_def insertProberHealth_def exec_def Let_def migrated_def)
qed

subsection \<open>Properties\<close>

text \<open>C37: One row per tick is stored, in order. With memory below 8 petabytes its megabytes are the
  exact quotients by 1048576, the waiting time is in whole milliseconds, and the uptime is the
  number of whole seconds since the start or, by rounding, one more.\<close>

theorem health_run_rows:
  assumes "migrated d" and "fate d = (\<lambda>_. Acked)" and "\<forall>e \<in> set es. health_fits e"
    and "\<forall>e \<in> set es. uint (he_heapAlloc e) \<le> 2 ^ 53"
  shows "\<exists>rows. map snd (prober_health (health_run es d)) = map snd (prober_health d) @ rows \<and>
    list_all2 (\<lambda>e h. ph_Goroutines h = he_goroutines e \<and> ph_HeapAllocMB h = of_int (uint (he_heapAlloc e)) / 1048576 \<and>
      ph_DBWaitDurationMs h = he_waitDuration e div 1000000 \<and>
      ph_UptimeSeconds h - he_since e div 1000000000 \<in> {0, 1}) es rows"
proof (intro exI conjI)
  show "map snd (prober_health (health_run es d)) = map snd (prober_health d) @ map health_row es"
    using assms(1-3)
  proof (induction es arbitrary: d)
    case (Cons e es)
    then show ?case using record_health_row [of d e] by (simp add: health_run_def)
  qed (simp add: health_run_def)
  have "truncate (duration_seconds (he_since e)) - he_since e div 1000000000 \<in> {0, 1}" if "e \<in> set es" for e
  proof -
    have "he_since e div 1000000000 < 2 ^ 53" using assms(3) that whole_seconds_small by blast
    then show ?thesis using uptime_bounds [of "he_since e"] assms(3) that by (auto simp: health_fits_def)
  qed
  then show "list_all2 (\<lambda>e h. ph_Goroutines h = he_goroutines e \<and> ph_HeapAllocMB h = of_int (uint (he_heapAlloc e)) / 1048576 \<and>
      ph_DBWaitDurationMs h = he_waitDuration e div 1000000 \<and>
      ph_UptimeSeconds h - he_since e div 1000000000 \<in> {0, 1}) es (map health_row es)"
    using assms(3,4) by (auto simp: list_all2_conv_all_nth health_row_def health_fits_def megabytes_exact go_div_nonneg)
qed

definition demo_health :: health_env where
  "demo_health = \<lparr>he_goroutines = 12, he_heapAlloc = 3145728, he_heapSys = 8388608, he_openConnections = 4,
     he_inUse = 1, he_idle = 3, he_waitCount = 0, he_waitDuration = 2500000, he_since = 61500000000\<rparr>"

theorem health_run_rows_witness:
  "\<exists>t h. map snd (prober_health (health_run [demo_health] fresh_db)) = [h] \<and> ph_HeapAllocMB h = 3 \<and>
     ph_DBWaitDurationMs h = 2 \<and> ph_UptimeSeconds h - 61 \<in> {0, t}"
  using health_run_rows [of fresh_db "[demo_health]"]
  by (auto simp: demo_health_def health_fits_def list_all2_Cons1 fresh_db empty_db_def migrated_def)

end
