(* ===== verification/RelayVerifier.thy ===== *)
theory RelayVerifier
  imports DatabaseFacts DataApi Clients Registry Kzg Pool
begin

text \<open>
  The relay verifier (internal/worker/relay_verifier.go): the probe of one relay, of one blob
  (all the relays of its certificate), the recording of a blob's attestation, and the turn of
  the worker, which runs the newest unprobed blobs in a pool of goroutines. The state is the
  registry with its URL cache, and the database. A relay is probed in one piece: the pieces
  the code interleaves (the cache lookup, the download, the commitment query, the insert) of
  different blobs touch different cache entries' contents and rows.
\<close>

subsection \<open>The operator ID of a public key\<close>

text \<open>\<open>FillBytes\<close>: the absolute value, big-endian, in a buffer of \<open>n\<close> bytes.\<close>

fun be_bytes :: "nat \<Rightarrow> nat \<Rightarrow> bytes" where
  "be_bytes 0 x = []"
| "be_bytes (Suc n) x = be_bytes n (x div 256) @ [of_nat (x mod 256)]"

definition fillBytes :: "nat \<Rightarrow> int \<Rightarrow> bytes outcome" where
  "fillBytes n x = (if nat \<bar>x\<bar> < 256 ^ n then Done (be_bytes n (nat \<bar>x\<bar>))
     else Panic ''math/big: buffer too small to fit value'')"

text \<open>\<open>m[k].(string)\<close> on a decoded object: the last value of a key counts, a missing key or
  another type gives the empty string.\<close>

definition json_string :: "(string \<times> json) list \<Rightarrow> string \<Rightarrow> string" where
  "json_string m k = (case map_of (rev m) k of Some (JStr s) \<Rightarrow> s | _ \<Rightarrow> '''')"

definition pubkeyToOperatorID :: "(bytes \<Rightarrow> bytes) \<Rightarrow> json \<Rightarrow> string outcome" where
  "pubkeyToOperatorID keccak pk = (case pk of
     JObj m \<Rightarrow>
       let xStr = json_string m ''X''; yStr = json_string m ''Y'' in
       if xStr = '''' \<or> yStr = '''' then Done ''''
       else (case (parse_int xStr, parse_int yStr) of
         (Some x, Some y) \<Rightarrow> (case fillBytes 32 x of
            Panic e \<Rightarrow> Panic e
          | Done bx \<Rightarrow> (case fillBytes 32 y of
              Panic e \<Rightarrow> Panic e
            | Done by' \<Rightarrow> Done (''0x'' @ hex_encode (keccak (bx @ by')))))
       | _ \<Rightarrow> Done '''')
   | _ \<Rightarrow> Done '''')"

subsection \<open>Attestations\<close>

text \<open>The inner loop over the non-signers of one quorum; a panic ends the process.\<close>

fun nonsigner_loop :: "(bytes \<Rightarrow> bytes) \<Rightarrow> string \<Rightarrow> int \<Rightarrow> json list \<Rightarrow> db \<Rightarrow> unit outcome \<times> db" where
  "nonsigner_loop keccak blobKey q [] d = (Done (), d)"
| "nonsigner_loop keccak blobKey q (pk # pks) d = (case pubkeyToOperatorID keccak pk of
     Panic e \<Rightarrow> (Panic e, d)
   | Done opID \<Rightarrow>
       if opID = '''' then nonsigner_loop keccak blobKey q pks d
       else nonsigner_loop keccak blobKey q pks (snd (insertAttestationNonsigner
         \<lparr>an_BlobKey = blobKey, an_QuorumNumber = q, an_OperatorID = opID\<rparr> d)))"

fun quorum_loop :: "(bytes \<Rightarrow> bytes) \<Rightarrow> string \<Rightarrow> json list \<Rightarrow> (string \<times> int) list \<Rightarrow> db \<Rightarrow> unit outcome \<times> db" where
  "quorum_loop keccak blobKey pks [] d = (Done (), d)"
| "quorum_loop keccak blobKey pks ((qStr, signingPct) # qs) d =
     (let qNum = fst (atoi qStr);
          d1 = snd (insertAttestation \<lparr>as_BlobKey = blobKey, as_QuorumNumber = qNum,
                 as_TotalNonSigners = int (length pks), as_SigningStakePercentage = fl64 (of_int signingPct)\<rparr> d)
      in case nonsigner_loop keccak blobKey qNum pks d1 of
           (Panic e, d2) \<Rightarrow> (Panic e, d2)
         | (Done _, d2) \<Rightarrow> quorum_loop keccak blobKey pks qs d2)"

definition fetchAttestation :: "(bytes \<Rightarrow> bytes) \<Rightarrow> api_env \<Rightarrow> string \<Rightarrow> db \<Rightarrow> unit outcome \<times> db" where
  "fetchAttestation keccak api blobKey d = (case fetchAttestationInfo api blobKey of
     Inl _ \<Rightarrow> (Done (), d)
   | Inr att \<Rightarrow> quorum_loop keccak blobKey (at_NonSignerPubKeys att) (at_QuorumResults att) d)"

subsection \<open>Probes\<close>

text \<open>What the outside answers to the probe of one relay.\<close>

record relay_call =
  rc_url :: "u32 \<Rightarrow> string abi_reply"
  rc_now :: int
  rc_stored :: int
  rc_net :: relay_net

definition empty_probe :: "string \<Rightarrow> float64 \<Rightarrow> int \<Rightarrow> string \<Rightarrow> ProbeResult" where
  "empty_probe blobKey age relayKey e = \<lparr>pr_BlobKey = blobKey, pr_BlobAgeHours = age, pr_RelayKey = relayKey,
     pr_Success = False, pr_LatencyMs = 0, pr_ErrorMessage = e, pr_DataSizeBytes = 0,
     pr_KZGVerified = None, pr_KZGError = ''''\<rparr>"

definition probe_of :: "string \<Rightarrow> float64 \<Rightarrow> u32 \<Rightarrow> RetrieveResult \<Rightarrow> bool option \<Rightarrow> string \<Rightarrow> ProbeResult" where
  "probe_of blobKey age relayKey r kzg kzgErr = \<lparr>pr_BlobKey = blobKey, pr_BlobAgeHours = age,
     pr_RelayKey = uint relayKey, pr_Success = rr_Success r, pr_LatencyMs = rr_LatencyMs r,
     pr_ErrorMessage = rr_Error r, pr_DataSizeBytes = rr_DataSizeBytes r,
     pr_KZGVerified = kzg, pr_KZGError = kzgErr\<rparr>"

text \<open>The KZG part: the commitment is only read when there is something to check.\<close>

definition kzg_check :: "verifier option \<Rightarrow> string \<Rightarrow> RetrieveResult \<Rightarrow> db \<Rightarrow> (bool option \<times> string) \<times> db" where
  "kzg_check v blobKey r d = (case v of
     None \<Rightarrow> ((None, ''''), d)
   | Some vf \<Rightarrow>
       if rr_Success r \<and> rr_Data r \<noteq> [] then
         (case getBlobCommitment blobKey d of
            (Inl _, d') \<Rightarrow> ((None, ''''), d')
          | (Inr (x, y), d') \<Rightarrow> (case verifyBlob vf (rr_Data r) x y of (ok, e) \<Rightarrow> ((Some ok, e), d')))
       else ((None, ''''), d))"

definition probeRelay :: "relay_call \<Rightarrow> verifier option \<Rightarrow> string \<Rightarrow> float64 \<Rightarrow> u32
    \<Rightarrow> registry \<times> db \<Rightarrow> registry \<times> db" where
  "probeRelay c v blobKey age relayKey = (\<lambda>(reg, d).
     case getRelayURL (rc_url c) (rc_now c) (rc_stored c) relayKey reg of
       (Inl e, reg') \<Rightarrow>
         (reg', snd (insertProbeResult (empty_probe blobKey age (uint relayKey) (''registry lookup: '' @ e)) d))
     | (Inr url, reg') \<Rightarrow>
         let r = getBlob (rc_net c) url blobKey in
         (case kzg_check v blobKey r d of
            ((kzg, kzgErr), d') \<Rightarrow> (reg', snd (insertProbeResult (probe_of blobKey age relayKey r kzg kzgErr) d'))))"

text \<open>The loop over the relay keys; the k-th probe meets the k-th answer of the outside.\<close>

fun relay_loop :: "(nat \<Rightarrow> relay_call) \<Rightarrow> nat \<Rightarrow> verifier option \<Rightarrow> string \<Rightarrow> float64 \<Rightarrow> u32 list
    \<Rightarrow> registry \<times> db \<Rightarrow> registry \<times> db" where
  "relay_loop calls i v blobKey age [] s = s"
| "relay_loop calls i v blobKey age (k # ks) s =
     relay_loop calls (Suc i) v blobKey age ks (probeRelay (calls i) v blobKey age k s)"

record rv_env =
  re_api :: api_env
  re_keccak :: "bytes \<Rightarrow> bytes"
  re_now :: u64
  re_calls :: "nat \<Rightarrow> relay_call"

definition certificate_missing :: "string \<Rightarrow> bool" where
  "certificate_missing e \<longleftrightarrow> contains e ''HTTP 500'' \<and> contains e ''certificate not found''"

definition probeBlob :: "rv_env \<Rightarrow> verifier option \<Rightarrow> string \<Rightarrow> u64 \<Rightarrow> registry option \<times> db \<Rightarrow> registry option \<times> db" where
  "probeBlob env v blobKey requestedAt = (\<lambda>(reg, d). case reg of
     None \<Rightarrow> (None, d)
   | Some rg \<Rightarrow>
       let age = age_hours (re_now env) requestedAt in
       (case fetchCertificate (re_api env) blobKey of
          Inl e \<Rightarrow> if certificate_missing e then (Some rg, d)
            else (Some rg, snd (insertProbeResult (empty_probe blobKey age (-1) e) d))
        | Inr cert \<Rightarrow>
            if ct_RelayKeys cert = [] then (Some rg, d)
            else (case relay_loop (re_calls env) 0 v blobKey age (ct_RelayKeys cert) (rg, d) of
              (rg', d') \<Rightarrow> (Some rg', d'))))"

subsection \<open>One turn of the worker\<close>

text \<open>One goroutine: the blob, then its attestation.\<close>

definition verify_one :: "rv_env \<Rightarrow> verifier option \<Rightarrow> AgedBlobKey \<Rightarrow> registry option \<times> db
    \<Rightarrow> unit outcome \<times> registry option \<times> db" where
  "verify_one env v b s = (case probeBlob env v (ab_BlobKey b) (ab_RequestedAt b) s of
     (reg, d) \<Rightarrow> (case fetchAttestation (re_keccak env) (re_api env) (ab_BlobKey b) d of
       (r, d') \<Rightarrow> (r, reg, d')))"

text \<open>The batch with the goroutines run one after the other, each with its own answers; the first
  panic ends the process.\<close>

fun verify_batch :: "(string \<Rightarrow> rv_env) \<Rightarrow> verifier option \<Rightarrow> AgedBlobKey list \<Rightarrow> registry option \<times> db
    \<Rightarrow> unit outcome \<times> registry option \<times> db" where
  "verify_batch envs v [] s = (Done (), s)"
| "verify_batch envs v (b # bs) s = (case verify_one (envs (ab_BlobKey b)) v b s of
     (Panic e, s') \<Rightarrow> (Panic e, s')
   | (Done _, s') \<Rightarrow> verify_batch envs v bs s')"

text \<open>A turn: the order in which the goroutines get through is given by \<open>seeds\<close>.\<close>

definition relay_turn :: "(string \<Rightarrow> rv_env) \<Rightarrow> verifier option \<Rightarrow> nat list \<Rightarrow> registry option \<times> db
    \<Rightarrow> unit outcome \<times> registry option \<times> db" where
  "relay_turn envs v seeds s = (case s of (reg, d) \<Rightarrow> (case getUnprobedBlobs 20 d of
     (Inl _, d') \<Rightarrow> (Done (), reg, d')
   | (Inr bs, d') \<Rightarrow> verify_batch envs v (reorder seeds bs) (reg, d')))"

text \<open>The loop of \<open>Run\<close>: one environment and one order of the goroutines per turn.\<close>

fun relay_run :: "verifier option \<Rightarrow> ((string \<Rightarrow> rv_env) \<times> nat list) list \<Rightarrow> registry option \<times> db
    \<Rightarrow> unit outcome \<times> registry option \<times> db" where
  "relay_run v [] s = (Done (), s)"
| "relay_run v ((envs, seeds) # ts) s = (case relay_turn envs v seeds s of
     (Panic e, s') \<Rightarrow> (Panic e, s')
   | (Done _, s') \<Rightarrow> relay_run v ts s')"

text \<open>
  The pool of the turn. Making a channel of a negative size panics; the
  goroutines acquire their slot themselves, so in any order. Each goroutine's work on the
  shared state is one action here.
\<close>

definition relay_jobs :: "(string \<Rightarrow> rv_env) \<Rightarrow> verifier option \<Rightarrow> AgedBlobKey list
    \<Rightarrow> ((unit outcome \<times> registry option \<times> db) \<Rightarrow> (unit outcome \<times> registry option \<times> db)) list list" where
  "relay_jobs envs v bs = map (\<lambda>b. [\<lambda>(r, s). case r of Panic e \<Rightarrow> (Panic e, s)
     | Done _ \<Rightarrow> verify_one (envs (ab_BlobKey b)) v b s]) bs"

definition relay_pool :: "int \<Rightarrow> (string \<Rightarrow> rv_env) \<Rightarrow> verifier option \<Rightarrow> AgedBlobKey list \<Rightarrow> registry option \<times> db
    \<Rightarrow> (unit outcome \<times> registry option \<times> db) pool \<Rightarrow> bool" where
  "relay_pool cap envs v bs s p \<longleftrightarrow> cap \<ge> 0 \<and>
     pool_reach (nat cap) False (relay_jobs envs v bs) (Done (), s) p"

end
