(* ===== verification/RelayVerifierFacts.thy ===== *)
theory RelayVerifierFacts
  imports RelayVerifier
begin

text \<open>
  What the relay verifier records: the rows of a probed blob, the effect of a turn on the work
  queue, the rows of an attestation, the operator ID of a public key, and the progress of the
  goroutine pool.
\<close>

subsection \<open>Frames\<close>

text \<open>What probing leaves alone.\<close>

definition rv_frame :: "db \<Rightarrow> catalog \<times> (nat \<Rightarrow> stmt_fate) \<times> ObservedBlob stamped list" where
  "rv_frame d = (catalog d, fate d, observed_blobs d)"

lemma rv_frame_inserts [simp]:
  "rv_frame (snd (insertProbeResult p d)) = rv_frame d"
  "rv_frame (snd (insertAttestation a d)) = rv_frame d"
  "rv_frame (snd (insertAttestationNonsigner n d)) = rv_frame d"
  "rv_frame (d\<lparr>stmts := k\<rparr>) = rv_frame d"
  by (simp_all add: rv_frame_def)

lemma rv_frame_acked: "rv_frame d = rv_frame e \<Longrightarrow> fate e = (\<lambda>_. Acked) \<Longrightarrow> fate d = (\<lambda>_. Acked)"
  and rv_frame_migrated: "rv_frame d = rv_frame e \<Longrightarrow> migrated e \<Longrightarrow> migrated d"
  and rv_frame_blobs: "rv_frame d = rv_frame e \<Longrightarrow> observed_blobs d = observed_blobs e"
  by (simp_all add: rv_frame_def migrated_def)

lemma kzg_check_state: "snd (kzg_check v k r d) = d \<or> snd (kzg_check v k r d) = d\<lparr>stmts := Suc (stmts d)\<rparr>"
proof -
  obtain x d' where "getBlobCommitment k d = (x, d')" by fastforce
  moreover then have "d' = d\<lparr>stmts := Suc (stmts d)\<rparr>" using query_frame(2) [of k d] by simp
  ultimately show ?thesis by (auto simp: kzg_check_def split: option.split sum.split prod.split)
qed

lemma kzg_check_frame [simp]: "rv_frame (snd (kzg_check v k r d)) = rv_frame d"
  and kzg_check_probes [simp]: "retrieval_probes (snd (kzg_check v k r d)) = retrieval_probes d"
  using kzg_check_state [of v k r d] by auto

text \<open>A relay probe is one insert, of a row for this blob and this relay.\<close>

lemma probeRelay_insert:
  obtains reg' d' p where "probeRelay c v k age rk (reg, d) = (reg', snd (insertProbeResult p d'))"
    and "rv_frame d' = rv_frame d" and "retrieval_probes d' = retrieval_probes d"
    and "pr_BlobKey p = k" and "pr_RelayKey p = uint rk"
    and "(\<exists>e. p = empty_probe k age (uint rk) e) \<or> (\<exists>url kzg ke. p = probe_of k age rk (getBlob (rc_net c) url k) kzg ke)"
proof -
  obtain x reg' where g: "getRelayURL (rc_url c) (rc_now c) (rc_stored c) rk reg = (x, reg')" by fastforce
  show ?thesis
  proof (cases x)
    case (Inl e)
    then show ?thesis using that [of reg' "empty_probe k age (uint rk) (''registry lookup: '' @ e)" d] g
      by (auto simp: probeRelay_def empty_probe_def)
  next
    case (Inr url)
    obtain kzg ke d' where z: "kzg_check v k (getBlob (rc_net c) url k) d = ((kzg, ke), d')" by (metis prod.collapse)
    then have "rv_frame d' = rv_frame d" "retrieval_probes d' = retrieval_probes d"
      using kzg_check_frame [of v k "getBlob (rc_net c) url k" d] kzg_check_probes [of v k "getBlob (rc_net c) url k" d] by simp_all
    then show ?thesis using that [of reg' "probe_of k age rk (getBlob (rc_net c) url k) kzg ke" d'] g Inr z
      by (auto simp: probeRelay_def Let_def probe_of_def)
  qed
qed

lemma relay_loop_frame: "rv_frame (snd (relay_loop calls i v k age ks s)) = rv_frame (snd s)"
proof (induction ks arbitrary: i s)
  case (Cons rk ks)
  obtain reg d where s: "s = (reg, d)" by fastforce
  obtain reg' d' p where "probeRelay (calls i) v k age rk (reg, d) = (reg', snd (insertProbeResult p d'))" "rv_frame d' = rv_frame d"
    using probeRelay_insert [of "calls i" v k age rk reg d] by metis
  then show ?case using Cons.IH [of "Suc i" "(reg', snd (insertProbeResult p d'))"] by (simp add: s)
qed simp

lemma probeBlob_frame: "rv_frame (snd (probeBlob env v k t s)) = rv_frame (snd s)"
proof (cases s)
  case (Pair reg d)
  then show ?thesis
    using relay_loop_frame [of "re_calls env" 0 v k "age_hours (re_now env) t"]
    by (auto simp: probeBlob_def Let_def split: option.splits sum.splits prod.splits) (metis snd_conv)
qed

lemma nonsigner_loop_frame: "rv_frame (snd (nonsigner_loop kc k q pks d)) = rv_frame d \<and>
    retrieval_probes (snd (nonsigner_loop kc k q pks d)) = retrieval_probes d"
  by (induction pks arbitrary: d) (simp_all split: outcome.split)

lemma quorum_loop_frame: "rv_frame (snd (quorum_loop kc k pks qs d)) = rv_frame d \<and>
    retrieval_probes (snd (quorum_loop kc k pks qs d)) = retrieval_probes d"
proof (induction qs arbitrary: d)
  case (Cons q qs)
  obtain qStr pct where q: "q = (qStr, pct)" by fastforce
  let ?d1 = "snd (insertAttestation \<lparr>as_BlobKey = k, as_QuorumNumber = fst (atoi qStr),
                 as_TotalNonSigners = int (length pks), as_SigningStakePercentage = fl64 (of_int pct)\<rparr> d)"
  obtain o' d2 where n: "nonsigner_loop kc k (fst (atoi qStr)) pks ?d1 = (o', d2)" by fastforce
  then have "rv_frame d2 = rv_frame d \<and> retrieval_probes d2 = retrieval_probes d"
    using nonsigner_loop_frame [of kc k "fst (atoi qStr)" pks ?d1] by simp
  then show ?case using Cons.IH [of d2] n by (cases o') (simp_all add: q Let_def)
qed simp

lemma fetchAttestation_frame: "rv_frame (snd (fetchAttestation kc api k d)) = rv_frame d"
  "retrieval_probes (snd (fetchAttestation kc api k d)) = retrieval_probes d"
  using quorum_loop_frame by (auto simp: fetchAttestation_def split: sum.split)

subsection \<open>The rows of a blob\<close>

text \<open>The relay answers in the range of the table's columns.\<close>

definition int_range :: "int \<Rightarrow> bool" where
  "int_range x \<longleftrightarrow> - (2 ^ 31) \<le> x \<and> x < 2 ^ 31"

definition small_answers :: "relay_call \<Rightarrow> string \<Rightarrow> bool" where
  "small_answers c k \<longleftrightarrow> (\<forall>url. int_range (rr_LatencyMs (getBlob (rc_net c) url k)) \<and>
     int_range (rr_DataSizeBytes (getBlob (rc_net c) url k)))"

lemma insertProbeResult_acked:
  "fate d = (\<lambda>_. Acked) \<Longrightarrow> accepts ''retrieval_probes'' (probe_values p) d \<Longrightarrow>
     retrieval_probes (snd (insertProbeResult p d)) = retrieval_probes d @ [(now_of d, p)]"
  by (simp add: insertProbeResult_def exec_def Let_def)

lemma insertProbeResult_rejected:
  "\<not> accepts ''retrieval_probes'' (probe_values p) d \<Longrightarrow> retrieval_probes (snd (insertProbeResult p d)) = retrieval_probes d"
  by (simp add: insertProbeResult_def exec_def Let_def split: stmt_fate.split)

lemma uint_range: "- (2 ^ 31) \<le> uint (x :: u32)"
  using unsigned_greater_eq [of x, where ?'a = int] by (rule order_trans [rotated]) simp

lemma accepts_empty_probe:
  "migrated d \<Longrightarrow> length k \<le> 128 \<Longrightarrow> int_range rk \<Longrightarrow> accepts ''retrieval_probes'' (probe_values (empty_probe k age rk e)) d"
  by (simp add: accepts_probe empty_probe_def int_range_def)

lemma accepts_probe_of:
  "migrated d \<Longrightarrow> length k \<le> 128 \<Longrightarrow> uint rk < 2 ^ 31 \<Longrightarrow> small_answers c k \<Longrightarrow>
     accepts ''retrieval_probes'' (probe_values (probe_of k age rk (getBlob (rc_net c) url k) kzg ke)) d"
  using uint_range [of rk] by (simp add: accepts_probe probe_of_def small_answers_def int_range_def)

lemma probeRelay_row:
  assumes "fate d = (\<lambda>_. Acked)" and "migrated d" and "length k \<le> 128" and "uint rk < 2 ^ 31" and "small_answers c k"
  shows "\<exists>row. retrieval_probes (snd (probeRelay c v k age rk (reg, d))) = retrieval_probes d @ [row] \<and>
    pr_BlobKey (snd row) = k \<and> pr_RelayKey (snd row) = uint rk"
proof -
  obtain reg' d' p where p: "probeRelay c v k age rk (reg, d) = (reg', snd (insertProbeResult p d'))"
    "rv_frame d' = rv_frame d" "retrieval_probes d' = retrieval_probes d" "pr_BlobKey p = k" "pr_RelayKey p = uint rk"
    "(\<exists>e. p = empty_probe k age (uint rk) e) \<or> (\<exists>url kzg ke. p = probe_of k age rk (getBlob (rc_net c) url k) kzg ke)"
    using probeRelay_insert .
  have "fate d' = (\<lambda>_. Acked)" "migrated d'" using p(2) assms(1,2) rv_frame_acked rv_frame_migrated by blast+
  moreover have "accepts ''retrieval_probes'' (probe_values p) d'"
    using p(6)
  proof (elim disjE exE)
    fix e assume "p = empty_probe k age (uint rk) e"
    then show ?thesis using accepts_empty_probe [OF \<open>migrated d'\<close> assms(3)] assms(4) uint_range [of rk]
      by (simp add: int_range_def)
  next
    fix url kzg ke assume "p = probe_of k age rk (getBlob (rc_net c) url k) kzg ke"
    then show ?thesis using accepts_probe_of [OF \<open>migrated d'\<close> assms(3-5)] by simp
  qed
  ultimately show ?thesis using p by (simp add: insertProbeResult_acked)
qed

lemma relay_loop_rows:
  assumes "fate (snd s) = (\<lambda>_. Acked)" and "migrated (snd s)" and "length k \<le> 128" and "\<forall>rk \<in> set ks. uint rk < 2 ^ 31"
    and "\<forall>i. small_answers (calls i) k"
  shows "\<exists>rows. retrieval_probes (snd (relay_loop calls i v k age ks s)) = retrieval_probes (snd s) @ rows \<and>
    map (\<lambda>r. (pr_BlobKey (snd r), pr_RelayKey (snd r))) rows = map (\<lambda>rk. (k, uint rk)) ks"
  using assms(1,2,4)
proof (induction ks arbitrary: i s)
  case (Cons rk ks)
  obtain reg d where s: "s = (reg, d)" by fastforce
  let ?s = "probeRelay (calls i) v k age rk (reg, d)"
  obtain row where row: "retrieval_probes (snd ?s) = retrieval_probes d @ [row]" "pr_BlobKey (snd row) = k" "pr_RelayKey (snd row) = uint rk"
    using probeRelay_row [of d k rk "calls i" v age reg] Cons.prems assms(3,5) by (auto simp: s)
  have f: "rv_frame (snd ?s) = rv_frame d"
    using probeRelay_insert [of "calls i" v k age rk reg d] by (metis rv_frame_inserts(1) snd_conv)
  have "fate (snd ?s) = (\<lambda>_. Acked)" "migrated (snd ?s)"
    using rv_frame_acked [OF f] rv_frame_migrated [OF f] Cons.prems by (simp_all add: s)
  with Cons.IH [of ?s "Suc i"] Cons.prems(3) obtain rows where
    "retrieval_probes (snd (relay_loop calls (Suc i) v k age ks ?s)) = retrieval_probes (snd ?s) @ rows"
    "map (\<lambda>r. (pr_BlobKey (snd r), pr_RelayKey (snd r))) rows = map (\<lambda>rk. (k, uint rk)) ks"
    by auto
  then show ?case using row by (intro exI [of _ "row # rows"]) (simp add: s)
qed simp

text \<open>The relay keys a probe of the blob records, by what its certificate request gave.\<close>

definition expected_keys :: "BlobCertificate go_result \<Rightarrow> int list" where
  "expected_keys r = (case r of Inl e \<Rightarrow> if certificate_missing e then [] else [-1]
     | Inr cert \<Rightarrow> map uint (ct_RelayKeys cert))"

definition keys_fit :: "BlobCertificate go_result \<Rightarrow> bool" where
  "keys_fit r \<longleftrightarrow> (\<forall>rk \<in> set (expected_keys r). rk < 2 ^ 31)"

lemma probeBlob_none:
  assumes "expected_keys (fetchCertificate (re_api env) k) = []"
  shows "probeBlob env v k t s = s"
  using assms by (auto simp: probeBlob_def expected_keys_def Let_def split: option.splits sum.splits if_splits prod.split)

lemma probeBlob_appends:
  assumes "fate d = (\<lambda>_. Acked)" and "migrated d" and "length k \<le> 128" and "keys_fit (fetchCertificate (re_api env) k)"
    and "\<forall>i. small_answers (re_calls env i) k"
  shows "\<exists>rows. retrieval_probes (snd (probeBlob env v k t (Some rg, d))) = retrieval_probes d @ rows \<and>
    map (\<lambda>r. (pr_BlobKey (snd r), pr_RelayKey (snd r))) rows = map (Pair k) (expected_keys (fetchCertificate (re_api env) k))"
proof (cases "fetchCertificate (re_api env) k")
  case (Inl e)
  have "accepts ''retrieval_probes'' (probe_values (empty_probe k (age_hours (re_now env) t) (-1) e)) d"
    using accepts_empty_probe [OF assms(2,3)] by (simp add: int_range_def)
  then show ?thesis using assms(1)
    by (auto simp: probeBlob_def Let_def Inl expected_keys_def insertProbeResult_acked empty_probe_def)
next
  case (Inr cert)
  have "\<forall>rk \<in> set (ct_RelayKeys cert). uint rk < 2 ^ 31"
    using assms(4) by (simp add: keys_fit_def expected_keys_def Inr)
  from relay_loop_rows [of "(rg, d)" k "ct_RelayKeys cert" "re_calls env" 0 v "age_hours (re_now env) t"] this assms
  obtain rows where rows: "retrieval_probes (snd (relay_loop (re_calls env) 0 v k (age_hours (re_now env) t) (ct_RelayKeys cert) (rg, d))) =
      retrieval_probes d @ rows"
    "map (\<lambda>r. (pr_BlobKey (snd r), pr_RelayKey (snd r))) rows = map (\<lambda>rk. (k, uint rk)) (ct_RelayKeys cert)"
    by auto
  show ?thesis
  proof (cases "ct_RelayKeys cert = []")
    case True
    then show ?thesis by (simp add: probeBlob_def Let_def Inr expected_keys_def)
  next
    case False
    then show ?thesis using rows by (intro exI [of _ rows])
      (simp add: probeBlob_def Let_def Inr expected_keys_def comp_def split: prod.split, metis snd_conv)
  qed
qed

subsection \<open>The work queue\<close>

definition rv_pending :: "db \<Rightarrow> string set" where
  "rv_pending d = pending_keys (\<lambda>p. pr_BlobKey (snd p)) (observed_blobs d) (retrieval_probes d)"

lemma probeBlob_registry: "fst (probeBlob env v k t (Some rg, d)) \<noteq> None"
  by (auto simp: probeBlob_def Let_def split: sum.split prod.split)

lemma verify_one_state: "snd (snd (verify_one env v b s)) =
    snd (fetchAttestation (re_keccak env) (re_api env) (ab_BlobKey b) (snd (probeBlob env v (ab_BlobKey b) (ab_RequestedAt b) s)))"
  and verify_one_registry: "fst (snd (verify_one env v b s)) = fst (probeBlob env v (ab_BlobKey b) (ab_RequestedAt b) s)"
  by (simp_all add: verify_one_def split: prod.split)

lemma verify_one_frame: "rv_frame (snd (snd (verify_one env v b s))) = rv_frame (snd s)"
  by (simp add: verify_one_state fetchAttestation_frame probeBlob_frame)

definition answerable :: "rv_env \<Rightarrow> string \<Rightarrow> bool" where
  "answerable env k \<longleftrightarrow> length k \<le> 128 \<and> keys_fit (fetchCertificate (re_api env) k) \<and>
     expected_keys (fetchCertificate (re_api env) k) \<noteq> [] \<and> (\<forall>i. small_answers (re_calls env i) k)"

lemma verify_one_keys:
  assumes "fate d = (\<lambda>_. Acked)" and "migrated d" and "answerable env (ab_BlobKey b)"
  shows "\<exists>rows. retrieval_probes (snd (snd (verify_one env v b (Some rg, d)))) = retrieval_probes d @ rows \<and>
    (\<lambda>p. pr_BlobKey (snd p)) ` set rows = {ab_BlobKey b}"
proof -
  obtain rows where rows: "retrieval_probes (snd (probeBlob env v (ab_BlobKey b) (ab_RequestedAt b) (Some rg, d))) = retrieval_probes d @ rows"
    "map (\<lambda>r. (pr_BlobKey (snd r), pr_RelayKey (snd r))) rows =
       map (Pair (ab_BlobKey b)) (expected_keys (fetchCertificate (re_api env) (ab_BlobKey b)))"
    using probeBlob_appends [OF assms(1,2)] assms(3) unfolding answerable_def by blast
  from arg_cong [OF rows(2), of "\<lambda>xs. fst ` set xs"] assms(3)
  have "(\<lambda>p. pr_BlobKey (snd p)) ` set rows = {ab_BlobKey b}"
    by (auto simp: image_image answerable_def image_constant_conv)
  then show ?thesis using rows(1) by (auto simp: verify_one_state fetchAttestation_frame)
qed

lemma verify_batch_pending:
  assumes "fate d = (\<lambda>_. Acked)" and "migrated d" and "\<forall>b \<in> set bs. answerable (envs (ab_BlobKey b)) (ab_BlobKey b)"
    and "fst (verify_batch envs v bs (Some rg, d)) = Done ()"
  shows "rv_pending (snd (snd (verify_batch envs v bs (Some rg, d)))) = rv_pending d - ab_BlobKey ` set bs \<and>
    rv_frame (snd (snd (verify_batch envs v bs (Some rg, d)))) = rv_frame d"
  using assms
proof (induction bs arbitrary: rg d)
  case (Cons b bs)
  obtain r reg d1 where o1: "verify_one (envs (ab_BlobKey b)) v b (Some rg, d) = (r, reg, d1)" using prod_cases3 by blast
  with Cons.prems(4) have r: "r = Done ()" by (cases r) auto
  obtain rg1 where reg: "reg = Some rg1"
    using verify_one_registry [of "envs (ab_BlobKey b)" v b "(Some rg, d)"] probeBlob_registry o1 by fastforce
  have f: "rv_frame d1 = rv_frame d" using verify_one_frame [of "envs (ab_BlobKey b)" v b "(Some rg, d)"] o1 by simp
  obtain rows where rows: "retrieval_probes d1 = retrieval_probes d @ rows" "(\<lambda>p. pr_BlobKey (snd p)) ` set rows = {ab_BlobKey b}"
    using verify_one_keys [OF Cons.prems(1,2), of "envs (ab_BlobKey b)" b v rg] Cons.prems(3) o1 by auto
  have p: "rv_pending d1 = rv_pending d - {ab_BlobKey b}"
    using rows rv_frame_blobs [OF f] by (auto simp: rv_pending_def pending_keys_def)
  have "fst (verify_batch envs v bs (Some rg1, d1)) = Done ()" using Cons.prems(4) o1 r reg by simp
  with Cons.IH [of d1 rg1] rv_frame_acked [OF f] rv_frame_migrated [OF f] Cons.prems
  have "rv_pending (snd (snd (verify_batch envs v bs (Some rg1, d1)))) = rv_pending d1 - ab_BlobKey ` set bs \<and>
    rv_frame (snd (snd (verify_batch envs v bs (Some rg1, d1)))) = rv_frame d1" by simp
  then show ?case using o1 r reg p f by auto
qed simp

lemma verify_batch_idle:
  assumes "\<forall>b \<in> set bs. expected_keys (fetchCertificate (re_api (envs (ab_BlobKey b))) (ab_BlobKey b)) = []"
  shows "retrieval_probes (snd (snd (verify_batch envs v bs s))) = retrieval_probes (snd s) \<and>
    rv_frame (snd (snd (verify_batch envs v bs s))) = rv_frame (snd s)"
  using assms
proof (induction bs arbitrary: s)
  case (Cons b bs)
  obtain r s1 where o1: "verify_one (envs (ab_BlobKey b)) v b s = (r, s1)" by (rule prod.exhaust)
  have "retrieval_probes (snd s1) = retrieval_probes (snd s)" "rv_frame (snd s1) = rv_frame (snd s)"
    using verify_one_state [of "envs (ab_BlobKey b)" v b s] verify_one_frame [of "envs (ab_BlobKey b)" v b s] o1 Cons.prems
    by (simp_all add: fetchAttestation_frame probeBlob_none)
  then show ?case using Cons o1 by (cases r) auto
qed simp

subsection \<open>Newest first\<close>

lemma filter_sort_key_stable: "filter (\<lambda>x. f k = f x) (sort_key f xs) = filter (\<lambda>x. f k = f x) xs"
  using sort_key_stable [of f "f k" xs] by (simp add: eq_commute)

text \<open>When the elements of one part all come before the others, sorting sorts the two parts.\<close>

lemma sort_key_separated:
  assumes "\<And>x y. x \<in> set xs \<Longrightarrow> y \<in> set xs \<Longrightarrow> P x \<Longrightarrow> \<not> P y \<Longrightarrow> f x < f y"
  shows "sort_key f xs = sort_key f (filter P xs) @ sort_key f (filter (\<lambda>x. \<not> P x) xs)"
proof (rule properties_for_sort_key)
  show "mset (sort_key f (filter P xs) @ sort_key f (filter (\<lambda>x. \<not> P x) xs)) = mset xs" by simp
  fix k assume k: "k \<in> set (sort_key f (filter P xs) @ sort_key f (filter (\<lambda>x. \<not> P x) xs))"
  have "filter (\<lambda>x. f k = f x) xs = filter (\<lambda>x. f k = f x) (filter P xs) @ filter (\<lambda>x. f k = f x) (filter (\<lambda>x. \<not> P x) xs)"
  proof (cases "P k")
    case True
    then have "\<forall>x \<in> set xs. f k = f x \<longrightarrow> P x" using k assms by fastforce
    then have "filter (\<lambda>x. f k = f x) (filter P xs) = filter (\<lambda>x. f k = f x) xs"
      and "filter (\<lambda>x. f k = f x) (filter (\<lambda>x. \<not> P x) xs) = []"
      by (auto simp: filter_empty_conv intro!: filter_cong)
    then show ?thesis by simp
  next
    case False
    then have "\<forall>x \<in> set xs. f k = f x \<longrightarrow> \<not> P x" using k assms by fastforce
    then have "filter (\<lambda>x. f k = f x) (filter (\<lambda>x. \<not> P x) xs) = filter (\<lambda>x. f k = f x) xs"
      and "filter (\<lambda>x. f k = f x) (filter P xs) = []"
      by (auto simp: filter_empty_conv intro!: filter_cong)
    then show ?thesis by simp
  qed
  then show "filter (\<lambda>x. f k = f x) (sort_key f (filter P xs) @ sort_key f (filter (\<lambda>x. \<not> P x) xs)) = filter (\<lambda>x. f k = f x) xs"
    by (simp only: filter_append filter_sort_key_stable)
next
  show "sorted (map f (sort_key f (filter P xs) @ sort_key f (filter (\<lambda>x. \<not> P x) xs)))"
    using assms by (auto simp: sorted_append intro: less_imp_le)
qed

text \<open>Pending blobs of a set that outnumber the batch and are newer than all other pending ones.\<close>

definition crowds_out :: "nat \<Rightarrow> string set \<Rightarrow> db \<Rightarrow> bool" where
  "crowds_out n C d \<longleftrightarrow>
     n \<le> length (filter (\<lambda>r. ob_BlobKey (snd r) \<in> C \<inter> rv_pending d) (observed_blobs d)) \<and>
     (\<forall>x \<in> set (observed_blobs d). \<forall>y \<in> set (observed_blobs d).
        ob_BlobKey (snd x) \<in> C \<inter> rv_pending d \<longrightarrow> ob_BlobKey (snd y) \<in> rv_pending d - C \<longrightarrow>
        ob_RequestedAt (snd y) < ob_RequestedAt (snd x))"

lemma crowds_out_batch:
  assumes "crowds_out n C d" and "fst (getUnprobedBlobs n d) = Inr bs"
  shows "ab_BlobKey ` set bs \<subseteq> C"
proof -
  let ?key = "\<lambda>p. pr_BlobKey (snd p)"
  let ?f = "\<lambda>r. - uint (ob_RequestedAt (snd r))"
  let ?P = "\<lambda>r. ob_BlobKey (snd r) \<in> C"
  let ?rows = "filter (\<lambda>r. ob_BlobKey (snd r) \<notin> ?key ` set (retrieval_probes d)) (scan d (observed_blobs d))"
  have bs: "bs = take n (map aged_key (sort_key ?f ?rows))"
    using query_Inr [OF assms(2) [unfolded getUnprobedBlobs_def]] by (simp add: unprobed_alt)
  have pend: "r \<in> set (observed_blobs d) \<Longrightarrow> ob_BlobKey (snd r) \<notin> ?key ` set (retrieval_probes d) \<longleftrightarrow> ob_BlobKey (snd r) \<in> rv_pending d" for r
    by (auto simp: rv_pending_def pending_keys_def blob_keys_def)
  have sep: "?f x < ?f y" if "x \<in> set ?rows" "y \<in> set ?rows" "?P x" "\<not> ?P y" for x y
  proof -
    have "x \<in> set (observed_blobs d)" "y \<in> set (observed_blobs d)" using that by (simp_all add: scan_def)
    moreover have "ob_BlobKey (snd x) \<in> C \<inter> rv_pending d" "ob_BlobKey (snd y) \<in> rv_pending d - C"
      using that pend calculation by auto
    ultimately have "ob_RequestedAt (snd y) < ob_RequestedAt (snd x)" using assms(1) unfolding crowds_out_def by blast
    then show ?thesis by (simp add: word_less_def)
  qed
  have "mset ?rows = mset (filter (\<lambda>r. ob_BlobKey (snd r) \<notin> ?key ` set (retrieval_probes d)) (observed_blobs d))"
    by (simp add: scan_def)
  then have "length (filter ?P ?rows) = length (filter ?P (filter (\<lambda>r. ob_BlobKey (snd r) \<notin> ?key ` set (retrieval_probes d)) (observed_blobs d)))"
    by (rule length_mset_cong [OF mset_filter_cong])
  also have "filter ?P (filter (\<lambda>r. ob_BlobKey (snd r) \<notin> ?key ` set (retrieval_probes d)) (observed_blobs d)) =
      filter (\<lambda>r. ob_BlobKey (snd r) \<in> C \<inter> rv_pending d) (observed_blobs d)"
    using pend by (auto intro!: filter_cong)
  finally have "n \<le> length (filter ?P ?rows)" using assms(1) by (simp add: crowds_out_def)
  then have "take n (sort_key ?f ?rows) = take n (sort_key ?f (filter ?P ?rows))"
    by (subst sort_key_separated [where P = ?P, OF sep]) simp_all
  then have "set bs \<subseteq> aged_key ` set (filter ?P ?rows)"
    unfolding bs take_map by (auto dest!: in_set_takeD)
  then show ?thesis by auto
qed

lemma crowds_out_cong: "observed_blobs d = observed_blobs e \<Longrightarrow> retrieval_probes d = retrieval_probes e \<Longrightarrow> crowds_out n C d = crowds_out n C e"
  by (simp add: crowds_out_def rv_pending_def)

subsection \<open>Bytes of a number\<close>

definition be_val :: "bytes \<Rightarrow> nat" where
  "be_val bs = foldl (\<lambda>n b. 256 * n + unat b) 0 bs"

lemma length_be_bytes [simp]: "length (be_bytes n x) = n"
  by (induction n x rule: be_bytes.induct) simp_all

lemma be_val_be_bytes: "x < 256 ^ n \<Longrightarrow> be_val (be_bytes n x) = x"
proof (induction n x rule: be_bytes.induct)
  case (2 n x)
  have "x div 256 < 256 ^ n" using 2(2) by (simp add: less_mult_imp_div_less mult.commute)
  then have "foldl (\<lambda>n b. 256 * n + unat b) 0 (be_bytes n (x div 256)) = x div 256"
    using 2(1) by (simp add: be_val_def)
  moreover have "unat (of_nat (x mod 256) :: u8) = x mod 256" by (simp add: unat_of_nat)
  ultimately show ?case by (simp add: be_val_def)
qed (simp add: be_val_def)



subsection \<open>Properties\<close>

text \<open>C12: Probing a blob appends one row per relay key of its certificate, in order, whether or
  not the relay answers; one row with relay key -1 when the certificate request fails; and no
  row when the certificate is not there yet or names no relay.\<close>

theorem probeBlob_rows:
  assumes "fate d = (\<lambda>_. Acked)" and "migrated d" and "length k \<le> 128"
    and "\<forall>rk \<in> set (expected_keys (fetchCertificate (re_api env) k)). rk < 2 ^ 31"
    and "\<forall>i. small_answers (re_calls env i) k"
  shows "\<exists>rows. retrieval_probes (snd (probeBlob env v k t (Some rg, d))) = retrieval_probes d @ rows \<and>
    map (\<lambda>r. (pr_BlobKey (snd r), pr_RelayKey (snd r))) rows =
      map (Pair k) (case fetchCertificate (re_api env) k of
        Inl e \<Rightarrow> if certificate_missing e then [] else [-1] | Inr cert \<Rightarrow> map uint (ct_RelayKeys cert))"
  using probeBlob_appends [OF assms(1-3)] assms(4,5) unfolding keys_fit_def expected_keys_def [symmetric] by blast

definition demo_api :: "string \<Rightarrow> BlobCertificate go_result \<Rightarrow> Attestation go_result \<Rightarrow> api_env" where
  "demo_api status cert att = \<lparr>ae_base = ''b'', ae_http = (\<lambda>_ _. if status = '''' then Reply 200 ''x'' None else Reply 500 status None),
     ae_feed = (\<lambda>_. Inl ''unused''), ae_cert = (\<lambda>_. cert), ae_att = (\<lambda>_. att)\<rparr>"

definition demo_cert :: "u32 list \<Rightarrow> BlobCertificate" where
  "demo_cert ks = \<lparr>ct_BlobHeader = \<lparr>bh_BlobVersion = 0, bh_BlobCommitments = \<lparr>bcs_Commitment = \<lparr>bc_X = '''', bc_Y = ''''\<rparr>,
     bcs_Length = 0\<rparr>, bh_QuorumNumbers = '''', bh_PaymentMetadata = \<lparr>pm_AccountID = '''', pm_Timestamp = 0,
     pm_CumulativePayment = 0\<rparr>\<rparr>, ct_Signature = '''', ct_RelayKeys = ks\<rparr>"

definition demo_call :: relay_call where
  "demo_call = \<lparr>rc_url = (\<lambda>_. Value ''relay''), rc_now = 0, rc_stored = 0,
     rc_net = \<lparr>rn_dial = (\<lambda>_. None), rn_getBlob = (\<lambda>_ _. (Inr [1, 2, 3], 25))\<rparr>\<rparr>"

definition demo_rv :: "string \<Rightarrow> BlobCertificate go_result \<Rightarrow> Attestation go_result \<Rightarrow> rv_env" where
  "demo_rv status cert att = \<lparr>re_api = demo_api status cert att, re_keccak = (\<lambda>bs. replicate 32 (hd bs)),
     re_now = 0, re_calls = (\<lambda>_. demo_call)\<rparr>"

lemma demo_small: "small_answers (re_calls (demo_rv st c a) i) k"
  by (simp add: small_answers_def demo_rv_def demo_call_def getBlob_def relay_failure_def int_range_def Let_def split: sum.split)

lemma demo_fetch: "fetchCertificate (re_api (demo_rv [] (Inr c) a)) k = Inr c"
  by (simp add: fetchCertificate_def doGet_http_error is_429_def final_result_def demo_rv_def demo_api_def)

lemma demo_missing:
  "expected_keys (fetchCertificate (re_api (demo_rv ''certificate not found'' c a)) k) = []"
proof -
  have "utoa 500 = ''500''" by code_simp
  then have "fetchCertificate (re_api (demo_rv ''certificate not found'' c a)) k =
      Inl ((''fetch certificate for '' @ k @ '': '') @ ''HTTP 500: certificate not found'')"
    by (simp add: fetchCertificate_def doGet_http_error is_429_def final_result_def demo_rv_def demo_api_def)
  moreover have "contains ''HTTP 500: certificate not found'' ''HTTP 500''" "contains ''HTTP 500: certificate not found'' ''certificate not found''"
    by code_simp+
  ultimately show ?thesis using contains_append_left by (simp add: expected_keys_def certificate_missing_def del: append_assoc append.simps)
qed

theorem probeBlob_rows_witness:
  "\<exists>rows. retrieval_probes (snd (probeBlob (demo_rv [] (Inr (demo_cert [4, 9])) (Inl ''no'')) None ''ab'' 0 (Some demo_registry, fresh_db))) = rows \<and>
    map (\<lambda>r. (pr_BlobKey (snd r), pr_RelayKey (snd r))) rows = [(''ab'', 4), (''ab'', 9)]"
  using probeBlob_rows [OF fresh_db_fate fresh_db_migrated, of "''ab''" "demo_rv [] (Inr (demo_cert [4, 9])) (Inl ''no'')" None 0 demo_registry]
  by (simp add: demo_fetch expected_keys_def demo_small) (simp add: demo_cert_def fresh_db empty_db_def)



lemma relay_turn_idle:
  assumes "crowds_out 20 C d" and "\<forall>k \<in> C. expected_keys (fetchCertificate (re_api (envs k)) k) = []"
  shows "retrieval_probes (snd (snd (relay_turn envs v seeds (reg, d)))) = retrieval_probes d \<and>
    observed_blobs (snd (snd (relay_turn envs v seeds (reg, d)))) = observed_blobs d"
proof -
  obtain r d1 where q: "getUnprobedBlobs 20 d = (r, d1)" by fastforce
  then have d1: "d1 = d\<lparr>stmts := Suc (stmts d)\<rparr>" using query_frame(3) [of 20 d] by simp
  show ?thesis
  proof (cases r)
    case (Inr bs)
    then have "ab_BlobKey ` set bs \<subseteq> C" using crowds_out_batch [OF assms(1)] q by simp
    then have "\<forall>b \<in> set (reorder seeds bs). expected_keys (fetchCertificate (re_api (envs (ab_BlobKey b))) (ab_BlobKey b)) = []"
      using assms(2) by auto
    from verify_batch_idle [OF this, of v "(reg, d1)"]
    have x: "retrieval_probes (snd (snd (verify_batch envs v (reorder seeds bs) (reg, d1)))) = retrieval_probes d1"
      and f: "rv_frame (snd (snd (verify_batch envs v (reorder seeds bs) (reg, d1)))) = rv_frame d1" by simp_all
    from rv_frame_blobs [OF f] x show ?thesis by (simp add: relay_turn_def q Inr) (simp add: d1)
  qed (simp add: relay_turn_def q d1)
qed

text \<open>C25: Twenty or more pending blobs without a certificate, newer than all the other pending
  blobs, block the queue: as long as they get none, no turn stores any probe, over any number
  of turns, so the older blobs are never probed.\<close>

theorem relay_backlog_starved:
  assumes "crowds_out 20 C d"
    and "\<forall>(envs, seeds) \<in> set ts. \<forall>k \<in> C. expected_keys (fetchCertificate (re_api (envs k)) k) = []"
  shows "retrieval_probes (snd (snd (relay_run v ts (reg, d)))) = retrieval_probes d \<and>
    rv_pending (snd (snd (relay_run v ts (reg, d)))) = rv_pending d"
proof -
  have "retrieval_probes (snd (snd (relay_run v ts (reg, d)))) = retrieval_probes d \<and>
    observed_blobs (snd (snd (relay_run v ts (reg, d)))) = observed_blobs d"
    using assms
  proof (induction ts arbitrary: reg d)
    case (Cons t ts)
    obtain envs seeds where t: "t = (envs, seeds)" by fastforce
    obtain r reg1 d1 where o1: "relay_turn envs v seeds (reg, d) = (r, reg1, d1)" using prod_cases3 by blast
    have i: "retrieval_probes d1 = retrieval_probes d" "observed_blobs d1 = observed_blobs d"
      using relay_turn_idle [OF Cons.prems(1), of envs v seeds reg] Cons.prems(2) o1 by (auto simp: t)
    then have "crowds_out 20 C d1" using Cons.prems(1) crowds_out_cong [of d1 d] by simp
    from Cons.IH [OF this, of reg1] Cons.prems(2) i show ?case by (cases r) (auto simp: t o1)
  qed simp
  then show ?thesis by (simp add: rv_pending_def)
qed

definition demo_rows :: "ObservedBlob stamped list" where
  "demo_rows = (0, demo_blob ''old'' 1) # map (\<lambda>i. (0, demo_blob (utoa i) (of_nat (i + 100)))) [0..<20]"

theorem relay_backlog_starved_witness:
  "''old'' \<in> rv_pending (snd (snd (relay_run None (replicate 1000 (\<lambda>_. demo_rv ''certificate not found'' (Inl '''') (Inl ''''), []))
     (Some demo_registry, fresh_db\<lparr>observed_blobs := demo_rows\<rparr>))))"
proof -
  let ?d = "fresh_db\<lparr>observed_blobs := demo_rows\<rparr>"
  have p: "rv_pending ?d = insert ''old'' (set (map utoa [0..<20]))"
    by (simp add: rv_pending_def pending_keys_def blob_keys_def fresh_db empty_db_def demo_rows_def demo_blob_def comp_def del: upt_Suc)
  have "list_all (\<lambda>r. ob_BlobKey (snd r) \<noteq> ''old'' \<and> 1 < ob_RequestedAt (snd r)) (tl demo_rows)" by code_simp
  then have t: "\<forall>r \<in> set (tl demo_rows). ob_BlobKey (snd r) \<noteq> ''old'' \<and> 1 < ob_RequestedAt (snd r)" by (simp add: list_all_iff)
  have rows: "demo_rows = (0, demo_blob ''old'' 1) # tl demo_rows" "length (tl demo_rows) = 20"
    "ob_BlobKey (demo_blob ''old'' 1) = ''old''" "ob_RequestedAt (demo_blob ''old'' 1) = 1"
    by (simp_all add: demo_rows_def demo_blob_def)
  have k: "\<forall>r \<in> set (tl demo_rows). ob_BlobKey (snd r) \<in> set (map utoa [0..<20])" by (auto simp: demo_rows_def demo_blob_def)
  have old: "''old'' \<notin> set (map utoa [0..<20])" by code_simp
  have "filter (\<lambda>r. ob_BlobKey (snd r) \<in> set (map utoa [0..<20]) \<inter> rv_pending ?d) demo_rows = tl demo_rows"
    using k old by (subst rows(1)) (simp add: rows(3) p del: upt_Suc)
  then have n: "20 \<le> length (filter (\<lambda>r. ob_BlobKey (snd r) \<in> set (map utoa [0..<20]) \<inter> rv_pending ?d) (observed_blobs ?d))"
    using rows(2) by simp
  have "ob_RequestedAt (snd y) < ob_RequestedAt (snd x)"
    if "x \<in> set demo_rows" "y \<in> set demo_rows" "ob_BlobKey (snd x) \<in> set (map utoa [0..<20])" "ob_BlobKey (snd y) = ''old''" for x y
  proof -
    have "x \<in> set (tl demo_rows)" using that(1,3) old rows(1,3) by (metis set_ConsD snd_conv)
    moreover have "y = (0, demo_blob ''old'' 1)" using that(2,4) t rows(1) by (metis set_ConsD)
    ultimately show ?thesis using t rows(4) by simp
  qed
  note newer = this
  have "crowds_out 20 (set (map utoa [0..<20])) ?d"
    unfolding crowds_out_def
  proof (intro conjI n ballI impI)
    fix x y assume a: "x \<in> set (observed_blobs ?d)" "y \<in> set (observed_blobs ?d)"
      "ob_BlobKey (snd x) \<in> set (map utoa [0..<20]) \<inter> rv_pending ?d" "ob_BlobKey (snd y) \<in> rv_pending ?d - set (map utoa [0..<20])"
    then have "ob_BlobKey (snd y) = ''old''" unfolding p by blast
    moreover have "x \<in> set demo_rows" "y \<in> set demo_rows" using a by simp_all
    ultimately show "ob_RequestedAt (snd y) < ob_RequestedAt (snd x)" using newer a(3) by blast
  qed
  then show ?thesis
    using relay_backlog_starved [of "set (map utoa [0..<20])" ?d
      "replicate 1000 (\<lambda>_. demo_rv ''certificate not found'' (Inl '''') (Inl ''''), [])" None "Some demo_registry"]
    by (simp add: demo_missing p del: upt_Suc)
qed

text \<open>C13: The goroutine pool of a turn: at most \<open>RELAY_VERIFIER_PARALLEL\<close> goroutines hold a
  slot, every run stops, and a run can be completed from any point if and only if the setting
  is positive; with the setting 0 a non-empty batch blocks for ever before its first probe.\<close>

theorem relay_pool_progress:
  assumes "relay_pool cap envs v bs s p" and "bs \<noteq> []"
  shows "in_flight p \<le> nat cap \<and>
    wfP (\<lambda>y x. pool_step (nat cap) False (relay_jobs envs v bs) x y) \<and>
    ((\<exists>q. (pool_step (nat cap) False (relay_jobs envs v bs))\<^sup>*\<^sup>* p q \<and> all_finished q) \<longleftrightarrow> 0 < cap)"
proof -
  have reach: "pool_reach (nat cap) False (relay_jobs envs v bs) (Done (), s) p" and "0 \<le> cap"
    using assms(1) by (simp_all add: relay_pool_def)
  have "\<not> all_finished q" if "(pool_step 0 False (relay_jobs envs v bs))\<^sup>*\<^sup>* (init_pool (relay_jobs envs v bs) (Done (), s)) q" for q
    using that
  proof (cases rule: converse_rtranclpE)
    case base
    then show ?thesis using assms(2) by (cases bs) (auto simp: all_finished_def init_pool_def relay_jobs_def)
  next
    case (step y)
    then show ?thesis by (simp add: pool_stuck)
  qed
  then have "\<not> (\<exists>q. (pool_step (nat cap) False (relay_jobs envs v bs))\<^sup>*\<^sup>* p q \<and> all_finished q)" if "\<not> 0 < cap"
    using that \<open>0 \<le> cap\<close> reach unfolding pool_reach_def by (metis nat_0 order_antisym_conv not_less rtranclp_trans)
  note stuck = this
  have "(\<exists>q. (pool_step (nat cap) False (relay_jobs envs v bs))\<^sup>*\<^sup>* p q \<and> all_finished q) \<longleftrightarrow> 0 < cap"
  proof (cases "0 < cap")
    case True
    then have "0 < nat cap" by simp
    from pool_can_finish [OF this, of False "relay_jobs envs v bs" p] True show ?thesis by (simp only: simp_thms)
  next
    case False
    then show ?thesis using stuck [OF False] by (simp only: simp_thms)
  qed
  then show ?thesis
    using pool_cap [OF reach] pool_terminates [of "nat cap" False "relay_jobs envs v bs"] by blast
qed

definition demo_jobs :: "((unit outcome \<times> registry option \<times> db) \<Rightarrow> (unit outcome \<times> registry option \<times> db)) list list" where
  "demo_jobs = relay_jobs (\<lambda>_. demo_rv [] (Inl []) (Inl [])) None [\<lparr>ab_BlobKey = ''ab'', ab_RequestedAt = 7\<rparr>]"

theorem relay_pool_progress_witness:
  "\<not> (\<exists>q. (pool_step 0 False demo_jobs)\<^sup>*\<^sup>* (init_pool demo_jobs (Done (), None, fresh_db)) q \<and> all_finished q) \<and>
   (\<exists>q. (pool_step 3 False demo_jobs)\<^sup>*\<^sup>* (init_pool demo_jobs (Done (), None, fresh_db)) q \<and> all_finished q)"
  using relay_pool_progress [of 0 "\<lambda>_. demo_rv [] (Inl []) (Inl [])" None "[\<lparr>ab_BlobKey = ''ab'', ab_RequestedAt = 7\<rparr>]" "(None, fresh_db)"
      "init_pool demo_jobs (Done (), None, fresh_db)"]
    relay_pool_progress [of 3 "\<lambda>_. demo_rv [] (Inl []) (Inl [])" None "[\<lparr>ab_BlobKey = ''ab'', ab_RequestedAt = 7\<rparr>]" "(None, fresh_db)"
      "init_pool demo_jobs (Done (), None, fresh_db)"]
  by (simp add: relay_pool_def pool_reach_def flip: demo_jobs_def)

text \<open>C24: The operator ID of a key whose coordinates are decimal numbers: if both fit in 32
  bytes it is the hash of 64 bytes from which the absolute values of both coordinates can be
  read back (so different points give different inputs, except for signs); otherwise the
  conversion panics, which ends the process.\<close>

theorem pubkeyToOperatorID_decimal:
  assumes "json_string m ''X'' = itoa x" and "json_string m ''Y'' = itoa y"
  shows "if nat \<bar>x\<bar> < 256 ^ 32 \<and> nat \<bar>y\<bar> < 256 ^ 32
    then \<exists>buf. pubkeyToOperatorID keccak (JObj m) = Done (''0x'' @ hex_encode (keccak buf)) \<and> length buf = 64 \<and>
      be_val (take 32 buf) = nat \<bar>x\<bar> \<and> be_val (drop 32 buf) = nat \<bar>y\<bar>
    else is_panic (pubkeyToOperatorID keccak (JObj m))"
proof (cases "nat \<bar>x\<bar> < 256 ^ 32 \<and> nat \<bar>y\<bar> < 256 ^ 32")
  case True
  let ?buf = "be_bytes 32 (nat \<bar>x\<bar>) @ be_bytes 32 (nat \<bar>y\<bar>)"
  have "pubkeyToOperatorID keccak (JObj m) = Done (''0x'' @ hex_encode (keccak ?buf))"
    using True by (simp add: pubkeyToOperatorID_def assms Let_def parse_int_itoa fillBytes_def)
  then show ?thesis using True be_val_be_bytes by (simp only: if_True simp_thms) (intro exI [of _ ?buf], simp)
next
  case False
  then show ?thesis
    by (simp only: if_False) (auto simp: pubkeyToOperatorID_def assms Let_def parse_int_itoa fillBytes_def)
qed

theorem pubkeyToOperatorID_decimal_witness:
  "is_panic (pubkeyToOperatorID (\<lambda>_. []) (JObj [(''X'', JStr (itoa (256 ^ 32))), (''Y'', JStr (itoa 5))])) \<and>
   (\<exists>buf. pubkeyToOperatorID id (JObj [(''X'', JStr (itoa 6)), (''Y'', JStr (itoa 5))]) = Done (''0x'' @ hex_encode buf) \<and>
     be_val (take 32 buf) = 6)"
  using pubkeyToOperatorID_decimal [of "[(''X'', JStr (itoa (256 ^ 32))), (''Y'', JStr (itoa 5))]" "256 ^ 32" 5 "\<lambda>_. []"]
    pubkeyToOperatorID_decimal [of "[(''X'', JStr (itoa 6)), (''Y'', JStr (itoa 5))]" 6 5 id]
  by (auto simp: json_string_def)

lemma insertAttestationNonsigner_acked:
  "fate d = (\<lambda>_. Acked) \<Longrightarrow> accepts ''attestation_nonsigners'' (nonsigner_values n) d \<Longrightarrow>
     attestation_nonsigners (snd (insertAttestationNonsigner n d)) = attestation_nonsigners d @ [(now_of d, n)]"
  by (simp add: insertAttestationNonsigner_def exec_def Let_def)

lemma accepts_nonsigner:
  "migrated d \<Longrightarrow> accepts ''attestation_nonsigners'' (nonsigner_values n) d \<longleftrightarrow>
     length (an_BlobKey n) \<le> 128 \<and> int_range (an_QuorumNumber n) \<and> length (an_OperatorID n) \<le> 66"
  by (simp add: accepts_simps nonsigner_values_def int_range_def)

lemma accepts_attestation:
  "migrated d \<Longrightarrow> accepts ''attestation_snapshots'' (attestation_values a) d \<longleftrightarrow>
     length (as_BlobKey a) \<le> 128 \<and> int_range (as_QuorumNumber a) \<and> int_range (as_TotalNonSigners a)"
  by (simp add: accepts_simps attestation_values_def int_range_def)

lemma insertAttestation_acked:
  "fate d = (\<lambda>_. Acked) \<Longrightarrow> accepts ''attestation_snapshots'' (attestation_values a) d \<Longrightarrow>
     attestation_snapshots (snd (insertAttestation a d)) = attestation_snapshots d @ [(now_of d, a)] \<and>
     attestation_nonsigners (snd (insertAttestation a d)) = attestation_nonsigners d"
  by (simp add: insertAttestation_def exec_def Let_def)

lemma insertAttestationNonsigner_snapshots [simp]:
  "attestation_snapshots (snd (insertAttestationNonsigner n d)) = attestation_snapshots d"
  by (simp add: insertAttestationNonsigner_def exec_def Let_def split: stmt_fate.split)

text \<open>The IDs of the non-signers that have one, when no key panics.\<close>

definition op_ids :: "(bytes \<Rightarrow> bytes) \<Rightarrow> json list \<Rightarrow> string list" where
  "op_ids keccak pks = filter (\<lambda>s. s \<noteq> '''')
     (map (\<lambda>pk. case pubkeyToOperatorID keccak pk of Done s \<Rightarrow> s | Panic _ \<Rightarrow> '''') pks)"

definition hash_ok :: "(bytes \<Rightarrow> bytes) \<Rightarrow> bool" where
  "hash_ok keccak \<longleftrightarrow> (\<forall>bs. length (keccak bs) = 32)"

lemma pubkey_length: "hash_ok keccak \<Longrightarrow> pubkeyToOperatorID keccak pk = Done s \<Longrightarrow> length s \<le> 66"
  by (auto simp: pubkeyToOperatorID_def fillBytes_def hash_ok_def Let_def split: json.splits if_splits option.splits outcome.splits)

lemma nonsigner_loop_rows:
  assumes "fate d = (\<lambda>_. Acked)" and "migrated d" and "length k \<le> 128" and "int_range q" and "hash_ok keccak"
    and "\<forall>pk \<in> set pks. \<not> is_panic (pubkeyToOperatorID keccak pk)"
  shows "fst (nonsigner_loop keccak k q pks d) = Done () \<and>
    map snd (attestation_nonsigners (snd (nonsigner_loop keccak k q pks d))) = map snd (attestation_nonsigners d) @
      map (\<lambda>s. \<lparr>an_BlobKey = k, an_QuorumNumber = q, an_OperatorID = s\<rparr>) (op_ids keccak pks) \<and>
    attestation_snapshots (snd (nonsigner_loop keccak k q pks d)) = attestation_snapshots d"
  using assms(1,2,6)
proof (induction pks arbitrary: d)
  case (Cons pk pks)
  obtain s where s: "pubkeyToOperatorID keccak pk = Done s"
    using Cons.prems(3) by (cases "pubkeyToOperatorID keccak pk") auto
  show ?case
  proof (cases "s = ''''")
    case True
    then show ?thesis using Cons s by (simp add: op_ids_def)
  next
    case False
    let ?n = "\<lparr>an_BlobKey = k, an_QuorumNumber = q, an_OperatorID = s\<rparr>"
    let ?d = "snd (insertAttestationNonsigner ?n d)"
    have "accepts ''attestation_nonsigners'' (nonsigner_values ?n) d"
      using Cons.prems(2) assms(3,4) pubkey_length [OF assms(5) s] by (simp add: accepts_nonsigner)
    then have "attestation_nonsigners ?d = attestation_nonsigners d @ [(now_of d, ?n)]"
      using Cons.prems(1) by (rule insertAttestationNonsigner_acked [rotated])
    moreover have "fate ?d = (\<lambda>_. Acked)" "migrated ?d" using Cons.prems(1,2) by (simp_all add: migrated_def)
    ultimately show ?thesis using Cons.IH [of ?d] Cons.prems(3) s False by (simp add: op_ids_def)
  qed
qed (simp add: op_ids_def)

lemma quorum_loop_rows:
  assumes "fate d = (\<lambda>_. Acked)" and "migrated d" and "length k \<le> 128" and "hash_ok keccak"
    and "\<forall>pk \<in> set pks. \<not> is_panic (pubkeyToOperatorID keccak pk)" and "length pks < 2 ^ 31"
    and "\<forall>q \<in> set qs. int_range (fst (atoi (fst q)))"
  shows "fst (quorum_loop keccak k pks qs d) = Done () \<and>
    map snd (attestation_snapshots (snd (quorum_loop keccak k pks qs d))) = map snd (attestation_snapshots d) @
      map (\<lambda>(qs, pct). \<lparr>as_BlobKey = k, as_QuorumNumber = fst (atoi qs), as_TotalNonSigners = int (length pks),
        as_SigningStakePercentage = fl64 (of_int pct)\<rparr>) qs \<and>
    map snd (attestation_nonsigners (snd (quorum_loop keccak k pks qs d))) = map snd (attestation_nonsigners d) @
      concat (map (\<lambda>q. map (\<lambda>s. \<lparr>an_BlobKey = k, an_QuorumNumber = fst (atoi (fst q)), an_OperatorID = s\<rparr>) (op_ids keccak pks)) qs)"
  using assms(1,2,7)
proof (induction qs arbitrary: d)
  case (Cons q qs)
  obtain qStr pct where q: "q = (qStr, pct)" by fastforce
  let ?a = "\<lparr>as_BlobKey = k, as_QuorumNumber = fst (atoi qStr), as_TotalNonSigners = int (length pks),
    as_SigningStakePercentage = fl64 (of_int pct)\<rparr>"
  let ?d1 = "snd (insertAttestation ?a d)"
  have r: "int_range (fst (atoi qStr))" using Cons.prems(3) by (simp add: q)
  have "int_range (int (length pks))" using assms(6) by (simp add: int_range_def)
  then have "accepts ''attestation_snapshots'' (attestation_values ?a) d"
    using Cons.prems(2) assms(3) r by (simp add: accepts_attestation)
  note i = insertAttestation_acked [OF Cons.prems(1) this]
  have d1: "fate ?d1 = (\<lambda>_. Acked)" "migrated ?d1" using Cons.prems(1,2) by (simp_all add: migrated_def)
  note n = nonsigner_loop_rows [OF d1 assms(3) r assms(4,5)]
  obtain d2 where d2: "nonsigner_loop keccak k (fst (atoi qStr)) pks ?d1 = (Done (), d2)"
    using n by (metis prod.collapse)
  have f: "rv_frame d2 = rv_frame ?d1" using nonsigner_loop_frame [of keccak k "fst (atoi qStr)" pks ?d1] d2 by simp
  have "fate d2 = (\<lambda>_. Acked)" "migrated d2" using rv_frame_acked [OF f d1(1)] rv_frame_migrated [OF f d1(2)] .
  with Cons.IH [of d2] Cons.prems(3) n d2 i show ?case by (simp add: q Let_def)
qed simp

text \<open>C23: An attestation is recorded as one snapshot per quorum and, for every quorum, a row per
  non-signer with an ID: the same operators for each quorum, although the attestation does not
  say in which quorums an operator failed to sign.\<close>

theorem fetchAttestation_rows:
  assumes "fate d = (\<lambda>_. Acked)" and "migrated d" and "length k \<le> 128" and "hash_ok keccak"
    and "fetchAttestationInfo api k = Inr att"
    and "\<forall>pk \<in> set (at_NonSignerPubKeys att). \<not> is_panic (pubkeyToOperatorID keccak pk)"
    and "length (at_NonSignerPubKeys att) < 2 ^ 31"
    and "\<forall>q \<in> set (at_QuorumResults att). int_range (fst (atoi (fst q)))"
  shows "fst (fetchAttestation keccak api k d) = Done () \<and>
    map snd (attestation_snapshots (snd (fetchAttestation keccak api k d))) = map snd (attestation_snapshots d) @
      map (\<lambda>(qs, pct). \<lparr>as_BlobKey = k, as_QuorumNumber = fst (atoi qs),
        as_TotalNonSigners = int (length (at_NonSignerPubKeys att)), as_SigningStakePercentage = fl64 (of_int pct)\<rparr>) (at_QuorumResults att) \<and>
    map snd (attestation_nonsigners (snd (fetchAttestation keccak api k d))) = map snd (attestation_nonsigners d) @
      concat (map (\<lambda>q. map (\<lambda>s. \<lparr>an_BlobKey = k, an_QuorumNumber = fst (atoi (fst q)), an_OperatorID = s\<rparr>)
        (op_ids keccak (at_NonSignerPubKeys att))) (at_QuorumResults att))"
  using quorum_loop_rows [OF assms(1-4,6-8)] by (simp add: fetchAttestation_def assms(5))

definition demo_att :: Attestation where
  "demo_att = \<lparr>at_QuorumNumbers = '''', at_QuorumResults = [(itoa 0, 97), (itoa 1, 64)],
     at_NonSignerPubKeys = [JNull, JObj [(''X'', JStr (itoa 6)), (''Y'', JStr (itoa 5))]]\<rparr>"

theorem fetchAttestation_rows_witness:
  "length (attestation_nonsigners (snd (fetchAttestation (\<lambda>_. replicate 32 0) (re_api (demo_rv [] (Inl []) (Inr demo_att))) ''ab'' fresh_db))) = 2"
proof -
  let ?k = "\<lambda>_ :: bytes. replicate 32 0 :: bytes"
  have f: "fetchAttestationInfo (re_api (demo_rv [] (Inl []) (Inr demo_att))) ''ab'' = Inr demo_att"
    by (simp add: fetchAttestationInfo_def doGet_http_error is_429_def final_result_def demo_rv_def demo_api_def)
  have p: "pubkeyToOperatorID ?k (JObj [(''X'', JStr (itoa 6)), (''Y'', JStr (itoa 5))]) = Done (''0x'' @ hex_encode (replicate 32 0))"
    "pubkeyToOperatorID ?k JNull = Done ''''"
    by (simp_all add: pubkeyToOperatorID_def json_string_def Let_def parse_int_itoa fillBytes_def)
  have "length (map snd (attestation_nonsigners (snd (fetchAttestation ?k (re_api (demo_rv [] (Inl []) (Inr demo_att))) ''ab'' fresh_db)))) = 2"
    using fetchAttestation_rows [OF fresh_db_fate fresh_db_migrated _ _ f, of ?k]
    by (simp add: hash_ok_def p demo_att_def atoi_itoa int_range_def op_ids_def fresh_db empty_db_def)
  then show ?thesis by simp
qed

end
