(* ===== verification/Reverifier.thy ===== *)
theory Reverifier
  imports RelayVerifierFacts OperatorVerifier
begin

text \<open>
  The reverifier (internal/worker/reverifier.go): one pass over the age groups, which takes a
  few random blobs of each age and retrieves them again from their relays. Unlike the relay
  verifier it records nothing when the certificate or the relay's URL is not to be had, and it
  does not check the commitment.
\<close>

subsection \<open>The pass\<close>

definition ageGroups :: "ageGroup list" where
  "ageGroups = [
     age_group (83 / 1000) (33 / 1000) 3, age_group (5 / 10) (17 / 100) 3, age_group 2 (5 / 10) 3,
     age_group 8 1 3, age_group 24 2 5, age_group 72 4 5, age_group 168 4 5, age_group 312 4 5,
     age_group 336 4 3, age_group 360 4 3]"

fun reprobe_loop :: "(nat \<Rightarrow> relay_call) \<Rightarrow> nat \<Rightarrow> string \<Rightarrow> float64 \<Rightarrow> u32 list \<Rightarrow> registry \<times> db \<Rightarrow> registry \<times> db" where
  "reprobe_loop calls i blobKey age [] s = s"
| "reprobe_loop calls i blobKey age (k # ks) (reg, d) =
     (case getRelayURL (rc_url (calls i)) (rc_now (calls i)) (rc_stored (calls i)) k reg of
        (Inl _, reg') \<Rightarrow> reprobe_loop calls (Suc i) blobKey age ks (reg', d)
      | (Inr url, reg') \<Rightarrow> reprobe_loop calls (Suc i) blobKey age ks (reg', snd (insertProbeResult
          (probe_of blobKey age k (getBlob (rc_net (calls i)) url blobKey) None '''') d)))"

definition reprobeBlob :: "rv_env \<Rightarrow> string \<Rightarrow> u64 \<Rightarrow> registry option \<times> db \<Rightarrow> registry option \<times> db" where
  "reprobeBlob env blobKey requestedAt = (\<lambda>(reg, d). case reg of
     None \<Rightarrow> (None, d)
   | Some rg \<Rightarrow> (case fetchCertificate (re_api env) blobKey of
       Inl _ \<Rightarrow> (Some rg, d)
     | Inr cert \<Rightarrow>
         if ct_RelayKeys cert = [] then (Some rg, d)
         else (case reprobe_loop (re_calls env) 0 blobKey (age_hours (re_now env) requestedAt)
                 (ct_RelayKeys cert) (rg, d) of (rg', d') \<Rightarrow> (Some rg', d'))))"

text \<open>The clock of the group's query, and the answers per blob.\<close>

record pass_env =
  pe_now :: int
  pe_blob :: "string \<Rightarrow> rv_env"

definition reverify_group :: "pass_env \<Rightarrow> ageGroup \<Rightarrow> registry option \<times> db \<Rightarrow> registry option \<times> db" where
  "reverify_group env ag = (\<lambda>(reg, d).
     case getAgedBlobKeys (pe_now env) (ag_hoursAgo ag) (ag_windowHours ag) (ag_limit ag) d of
       (Inl _, d') \<Rightarrow> (reg, d')
     | (Inr aged, d') \<Rightarrow>
         fold (\<lambda>ab. reprobeBlob (pe_blob env (ab_BlobKey ab)) (ab_BlobKey ab) (ab_RequestedAt ab)) aged (reg, d'))"

fun reverify_groups :: "(nat \<Rightarrow> pass_env) \<Rightarrow> nat \<Rightarrow> ageGroup list \<Rightarrow> registry option \<times> db \<Rightarrow> registry option \<times> db" where
  "reverify_groups envs i [] s = s"
| "reverify_groups envs i (ag # ags) s = reverify_groups envs (Suc i) ags (reverify_group (envs i) ag s)"

definition ageBasedReverify :: "(nat \<Rightarrow> pass_env) \<Rightarrow> registry option \<times> db \<Rightarrow> registry option \<times> db" where
  "ageBasedReverify envs s = reverify_groups envs 0 ageGroups s"

text \<open>\<open>Run\<close>: one pass at the start, then one per tick.\<close>

definition rev_run :: "(nat \<Rightarrow> pass_env) list \<Rightarrow> registry option \<times> db \<Rightarrow> registry option \<times> db" where
  "rev_run ticks s = fold ageBasedReverify ticks s"

subsection \<open>Frames\<close>

lemma reprobe_loop_frame: "rv_frame (snd (reprobe_loop calls i k age ks s)) = rv_frame (snd s)"
proof (induction ks arbitrary: i s)
  case (Cons rk ks)
  obtain reg d where "s = (reg, d)" by fastforce
  then show ?case using Cons.IH by (simp split: prod.split sum.split)
qed simp

lemma reprobeBlob_frame: "rv_frame (snd (reprobeBlob env k t s)) = rv_frame (snd s)"
  using reprobe_loop_frame [of "re_calls env" 0 k "age_hours (re_now env) t"]
  by (cases s) (auto simp: reprobeBlob_def split: option.split sum.split prod.split, metis snd_conv)

lemma reprobe_fold_frame: "rv_frame (snd (fold (\<lambda>ab. reprobeBlob (f ab) (g ab) (h ab)) aged s)) = rv_frame (snd s)"
  by (induction aged arbitrary: s) (simp_all add: reprobeBlob_frame)

lemma getAgedBlobKeys_state: "getAgedBlobKeys t h w l d = (r, d') \<Longrightarrow> d' = d\<lparr>stmts := Suc (stmts d)\<rparr>"
  using query_frame(5) [of t h w l d] by simp

lemma reverify_group_frame: "rv_frame (snd (reverify_group env ag s)) = rv_frame (snd s)"
proof -
  obtain reg d where s: "s = (reg, d)" by fastforce
  obtain r d' where q: "getAgedBlobKeys (pe_now env) (ag_hoursAgo ag) (ag_windowHours ag) (ag_limit ag) d = (r, d')" by fastforce
  then show ?thesis
    using getAgedBlobKeys_state [OF q] by (cases r) (simp_all add: reverify_group_def s reprobe_fold_frame)
qed

lemma reverify_groups_frame: "rv_frame (snd (reverify_groups envs i ags s)) = rv_frame (snd s)"
  by (induction ags arbitrary: i s) (simp_all add: reverify_group_frame)

subsection \<open>Rows\<close>

text \<open>The rows a state has gained over another one.\<close>

definition gained :: "db \<Rightarrow> db \<Rightarrow> ProbeResult stamped list \<Rightarrow> bool" where
  "gained d e rows \<longleftrightarrow> retrieval_probes e = retrieval_probes d @ rows"

lemma gained_refl: "gained d d []"
  and gained_trans: "gained d e r1 \<Longrightarrow> gained e f r2 \<Longrightarrow> gained d f (r1 @ r2)"
  by (simp_all add: gained_def)

lemma insertProbeResult_gained: "gained d (snd (insertProbeResult p d)) [] \<or> gained d (snd (insertProbeResult p d)) [(now_of d, p)]"
  by (auto simp: gained_def insertProbeResult_def exec_def Let_def split: stmt_fate.split)

text \<open>A retrieval row as the reverifier writes it.\<close>

definition plain_row :: "string \<Rightarrow> u32 list \<Rightarrow> ProbeResult stamped \<Rightarrow> bool" where
  "plain_row k ks r \<longleftrightarrow> pr_BlobKey (snd r) = k \<and> pr_RelayKey (snd r) \<in> uint ` set ks \<and>
     pr_KZGVerified (snd r) = None \<and> (pr_Success (snd r) \<longrightarrow> pr_ErrorMessage (snd r) = '''')"

lemma reprobe_loop_rows:
  "\<exists>rows. gained (snd s) (snd (reprobe_loop calls i k age ks s)) rows \<and> length rows \<le> length ks \<and> (\<forall>r \<in> set rows. plain_row k ks r)"
proof (induction ks arbitrary: i s)
  case (Cons rk ks)
  obtain reg d where s: "s = (reg, d)" by fastforce
  obtain x reg' where g: "getRelayURL (rc_url (calls i)) (rc_now (calls i)) (rc_stored (calls i)) rk reg = (x, reg')" by fastforce
  have mono: "plain_row k ks r \<Longrightarrow> plain_row k (rk # ks) r" for r by (auto simp: plain_row_def)
  show ?case
  proof (cases x)
    case (Inl e)
    obtain rows where "gained d (snd (reprobe_loop calls (Suc i) k age ks (reg', d))) rows" "length rows \<le> length ks" "\<forall>r \<in> set rows. plain_row k ks r"
      using Cons.IH [of "(reg', d)" "Suc i"] by auto
    then show ?thesis using mono by (intro exI [of _ rows]) (simp add: s g Inl)
  next
    case (Inr url)
    let ?p = "probe_of k age rk (getBlob (rc_net (calls i)) url k) None ''''"
    let ?d = "snd (insertProbeResult ?p d)"
    obtain rows where rows: "gained ?d (snd (reprobe_loop calls (Suc i) k age ks (reg', ?d))) rows" "length rows \<le> length ks" "\<forall>r \<in> set rows. plain_row k ks r"
      using Cons.IH [of "(reg', ?d)" "Suc i"] by auto
    have p: "plain_row k (rk # ks) (now_of d, ?p)"
      using getBlob_success by (auto simp: plain_row_def probe_of_def)
    obtain row where row: "gained d ?d row" "length row \<le> 1" "\<forall>r \<in> set row. plain_row k (rk # ks) r"
      using insertProbeResult_gained [of d ?p] p by (elim disjE) (force intro: that)+
    have "gained d (snd (reprobe_loop calls (Suc i) k age ks (reg', ?d))) (row @ rows)"
      using gained_trans [OF row(1) rows(1)] .
    moreover have "\<forall>r \<in> set (row @ rows). plain_row k (rk # ks) r" using row(3) rows(3) mono by auto
    ultimately show ?thesis using row(2) rows(2) by (intro exI [of _ "row @ rows"]) (simp add: s g Inr)
  qed
qed (simp add: gained_refl exI [of _ "[]"])

subsection \<open>Windows\<close>

text \<open>The nanoseconds of a group: how far back, and how far to either side.\<close>

definition group_ns :: "ageGroup \<Rightarrow> int \<times> int" where
  "group_ns g = (hours_to_ns (ag_hoursAgo g), hours_to_ns (ag_windowHours g))"

definition gap_ns :: int where
  "gap_ns = 700000000000"

text \<open>Each later group starts more than the gap beyond the end of each earlier one.\<close>

fun spread :: "(int \<times> int) list \<Rightarrow> bool" where
  "spread [] = True"
| "spread ((h, w) # gs) = (0 \<le> w \<and> list_all (\<lambda>(h', w'). h + w + gap_ns < h' - w') gs \<and> spread gs)"

lemma spread_nth: "spread gs \<Longrightarrow> i < j \<Longrightarrow> j < length gs \<Longrightarrow> fst (gs ! i) + snd (gs ! i) + gap_ns < fst (gs ! j) - snd (gs ! j)"
proof (induction gs arbitrary: i j)
  case (Cons g gs)
  obtain h w where g: "g = (h, w)" by fastforce
  obtain j' where j: "j = Suc j'" using Cons.prems(2) by (cases j) auto
  have "gs ! j' \<in> set gs" using Cons.prems(3) j by simp
  then show ?case using Cons j g by (cases i) (auto simp: list_all_iff case_prod_beta)
qed simp

text \<open>The windows of both tables in nanoseconds.\<close>

lemma ageGroups_ns:
  "map group_ns ageGroups =
    [(298800000000, 118800000000), (1800000000000, 612000000000), (7200000000000, 1800000000000),
     (28800000000000, 3600000000000), (86400000000000, 7200000000000), (259200000000000, 14400000000000),
     (604800000000000, 14400000000000), (1123200000000000, 14400000000000), (1209600000000000,
     14400000000000), (1296000000000000, 14400000000000)]"
  by code_simp

lemma decodeAgeGroups_ns:
  "map group_ns decodeAgeGroups =
    [(86400000000000, 21600000000000), (172800000000000, 21600000000000), (259200000000000,
     21600000000000), (345600000000000, 21600000000000), (432000000000000, 21600000000000),
     (518400000000000, 21600000000000), (604800000000000, 21600000000000), (691200000000000,
     21600000000000), (777600000000000, 21600000000000), (864000000000000, 21600000000000),
     (950400000000000, 21600000000000), (1036800000000000, 21600000000000), (1123200000000000,
     21600000000000), (1209600000000000, 14400000000000), (1296000000000000, 21600000000000),
     (1382400000000000, 21600000000000)]"
  by code_simp

lemma age_windows_spread: "spread (map group_ns ageGroups)" "spread (map group_ns decodeAgeGroups)"
  by (simp_all add: ageGroups_ns decodeAgeGroups_ns gap_ns_def)

lemma spread_disjoint:
  assumes "spread (map group_ns groups)" and "i < j" and "j < length groups" and "now' - now \<le> gap_ns"
    and "in_window now (ag_hoursAgo (groups ! i)) (ag_windowHours (groups ! i)) t"
  shows "\<not> in_window now' (ag_hoursAgo (groups ! j)) (ag_windowHours (groups ! j)) t"
  using spread_nth [OF assms(1,2)] assms(2-5) by (simp add: in_window_def Let_def group_ns_def)

subsection \<open>Properties\<close>

text \<open>Retrieving a blob again only adds rows, at most one per relay key of its certificate;
  each is for this blob and one of those relays, carries no KZG verdict, and no error text if
  it is a success. Nothing at all is recorded when the certificate cannot be had.\<close>

theorem reprobeBlob_rows:
  "\<exists>rows. retrieval_probes (snd (reprobeBlob env k t (reg, d))) = retrieval_probes d @ rows \<and>
    (case fetchCertificate (re_api env) k of Inl _ \<Rightarrow> rows = []
     | Inr cert \<Rightarrow> length rows \<le> length (ct_RelayKeys cert) \<and>
         (\<forall>r \<in> set rows. pr_BlobKey (snd r) = k \<and> pr_RelayKey (snd r) \<in> uint ` set (ct_RelayKeys cert) \<and>
            pr_KZGVerified (snd r) = None \<and> (pr_Success (snd r) \<longrightarrow> pr_ErrorMessage (snd r) = '''')))"
proof (cases "fetchCertificate (re_api env) k")
  case (Inl e)
  then show ?thesis by (auto simp: reprobeBlob_def split: option.split)
next
  case (Inr cert)
  show ?thesis
  proof (cases "reg = None \<or> ct_RelayKeys cert = []")
    case True
    then show ?thesis using Inr by (auto simp: reprobeBlob_def split: option.split)
  next
    case False
    obtain rg where rg: "reg = Some rg" using False by (cases reg) auto
    obtain rows where "gained d (snd (reprobe_loop (re_calls env) 0 k (age_hours (re_now env) t) (ct_RelayKeys cert) (rg, d))) rows"
      "length rows \<le> length (ct_RelayKeys cert)" "\<forall>r \<in> set rows. plain_row k (ct_RelayKeys cert) r"
      using reprobe_loop_rows [of "(rg, d)" "re_calls env" 0 k "age_hours (re_now env) t" "ct_RelayKeys cert"] by auto
    moreover have "snd (reprobeBlob env k t (reg, d)) =
        snd (reprobe_loop (re_calls env) 0 k (age_hours (re_now env) t) (ct_RelayKeys cert) (rg, d))"
      using False rg Inr by (simp add: reprobeBlob_def split: prod.split)
    ultimately show ?thesis using Inr by (auto simp: gained_def plain_row_def)
  qed
qed

theorem reprobeBlob_rows_witness:
  "retrieval_probes (snd (reprobeBlob (demo_rv ''gone'' (Inl '''') (Inl '''')) ''ab'' 0 (Some demo_registry, fresh_db))) = []"
proof -
  have f: "\<exists>e. fetchCertificate (re_api (demo_rv ''gone'' (Inl '''') (Inl ''''))) ''ab'' = Inl e"
    by (simp add: fetchCertificate_def doGet_http_error is_429_def final_result_def demo_rv_def demo_api_def)
  show ?thesis
    using reprobeBlob_rows [of "demo_rv ''gone'' (Inl '''') (Inl '''')" "''ab''" 0 "Some demo_registry" fresh_db] f
    by (auto simp: fresh_db empty_db_def)
qed

text \<open>C34: No blob is due twice in one pass: with the clock of a later query at most 700 seconds
  after that of an earlier one, the blobs in the earlier group's window are not in the later
  group's, for the ten age groups of the reverifier and the sixteen of the operator verifier.\<close>

theorem age_windows_disjoint:
  assumes "groups = ageGroups \<or> groups = decodeAgeGroups" and "i < j" and "j < length groups"
    and "now' - now \<le> 700000000000"
    and "in_window now (ag_hoursAgo (groups ! i)) (ag_windowHours (groups ! i)) t"
  shows "\<not> in_window now' (ag_hoursAgo (groups ! j)) (ag_windowHours (groups ! j)) t"
  using spread_disjoint [of groups i j now' now t] assms age_windows_spread by (auto simp: gap_ns_def)

theorem age_windows_disjoint_witness:
  "\<not> in_window 1000600000000000 (ag_hoursAgo (ageGroups ! 1)) (ag_windowHours (ageGroups ! 1)) 999701200000000"
proof -
  have "in_window 1000000000000000 (ag_hoursAgo (ageGroups ! 0)) (ag_windowHours (ageGroups ! 0)) 999701200000000" by code_simp
  then show ?thesis
    using age_windows_disjoint [of ageGroups 0 1 1000600000000000 1000000000000000 999701200000000]
    by (simp add: ageGroups_def)
qed

end
