(* ===== verification/StakeIndexer.thy ===== *)
theory StakeIndexer
  imports DatabaseFacts Discovery
begin

text \<open>
  The stake indexer (internal/worker/stake_indexer.go): per quorum the stakes of the operators,
  their sum, the Herfindahl-Hirschman index in floating point, one snapshot row and one row
  per operator. A \<open>big.Float\<close> made by \<open>SetInt\<close> has the precision of its number, at least 64
  bits, and keeps it in the division; the products and sums are those of a platform without
  fused multiply-add.
\<close>

subsection \<open>One quorum\<close>

record stake_env =
  se_chain :: chain
  se_listNow :: int
  se_listStored :: int
  se_stake :: "bytes \<Rightarrow> u8 \<Rightarrow> int abi_reply"

text \<open>The loop over the operators: a failed call or a stake that is not positive is skipped.\<close>

fun collect_stakes :: "stake_env \<Rightarrow> u8 \<Rightarrow> OperatorInfo list \<Rightarrow> (bytes \<times> int) list" where
  "collect_stakes env q [] = []"
| "collect_stakes env q (op # ops) = (case getCurrentStake (se_stake env) (oi_OperatorID op) q of
     Inl _ \<Rightarrow> collect_stakes env q ops
   | Inr s \<Rightarrow> if 0 < s then (oi_OperatorID op, s) # collect_stakes env q ops else collect_stakes env q ops)"

definition total_stake :: "(bytes \<times> int) list \<Rightarrow> int" where
  "total_stake stakes = sum_list (map snd stakes)"

definition stake_fraction :: "int \<Rightarrow> int \<Rightarrow> float64" where
  "stake_fraction tot s = fl64 (rnd (nat (max 64 (bitlen s))) (of_int s / of_int tot))"

definition stake_percentage :: "int \<Rightarrow> int \<Rightarrow> float64" where
  "stake_percentage tot s = fl64 (stake_fraction tot s * 100)"

fun hhi_loop :: "int \<Rightarrow> int list \<Rightarrow> float64 \<Rightarrow> float64" where
  "hhi_loop tot [] hhi = hhi"
| "hhi_loop tot (s # ss) hhi =
     hhi_loop tot ss (fl64 (hhi + fl64 (stake_percentage tot s * stake_percentage tot s)))"

fun insert_stakes :: "int \<Rightarrow> int \<Rightarrow> (bytes \<times> int) list \<Rightarrow> db \<Rightarrow> db" where
  "insert_stakes q tot [] d = d"
| "insert_stakes q tot ((opid, s) # ss) d = insert_stakes q tot ss (snd (insertStakeSnapshotOperator
     \<lparr>so_QuorumID = q, so_OperatorID = hex_encode (take 8 opid), so_Stake = itoa s,
      so_StakePct = stake_percentage tot s\<rparr> d))"

definition quorum_row :: "u8 \<Rightarrow> (bytes \<times> int) list \<Rightarrow> StakeSnapshot" where
  "quorum_row q stakes = \<lparr>ss_QuorumID = uint q, ss_TotalStake = itoa (total_stake stakes),
     ss_OperatorCount = int (length stakes),
     ss_HHI = hhi_loop (total_stake stakes) (map snd stakes) 0\<rparr>"

definition snapshot_quorum :: "stake_env \<Rightarrow> OperatorInfo list \<Rightarrow> u8 \<Rightarrow> db \<Rightarrow> db" where
  "snapshot_quorum env ops q d =
     (let stakes = collect_stakes env q ops; tot = total_stake stakes in
      if tot = 0 \<or> stakes = [] then d
      else insert_stakes (uint q) tot stakes (snd (insertStakeSnapshot (quorum_row q stakes) d)))"

subsection \<open>One snapshot\<close>

definition stake_snapshot :: "stake_env \<Rightarrow> discovery \<times> db \<Rightarrow> discovery \<times> db" where
  "stake_snapshot env = (\<lambda>(disc, d). case getOperators (se_chain env) (se_listNow env) (se_listStored env) disc of
     (Inl _, disc') \<Rightarrow> (disc', d)
   | (Inr ops, disc') \<Rightarrow> (disc', fold (snapshot_quorum env ops) [0, 1, 2] d))"

text \<open>\<open>Run\<close>: the registry is resolved once, then one snapshot at the start and one per tick.\<close>

definition stake_run :: "(string \<Rightarrow> address abi_reply) \<Rightarrow> stake_env list \<Rightarrow> discovery \<times> db \<Rightarrow> discovery \<times> db" where
  "stake_run directory envs s = (case resolveAddress directory ''STAKE_REGISTRY'' of
     Inl _ \<Rightarrow> s
   | Inr _ \<Rightarrow> fold stake_snapshot envs s)"

subsection \<open>The index\<close>

definition exact_hhi :: "int \<Rightarrow> int list \<Rightarrow> rat" where
  "exact_hhi tot ss = sum_list (map (\<lambda>s. (of_int s / of_int tot * 100)\<^sup>2) ss)"

lemma exact_hhi_nonneg: "0 \<le> exact_hhi tot ss"
  unfolding exact_hhi_def by (rule sum_list_nonneg) auto

lemma stake_percentage_approx:
  assumes "0 \<le> s" and "0 < tot"
  shows "approx 3 (stake_percentage tot s) (of_int s / of_int tot * 100)"
proof -
  have nn: "0 \<le> (of_int s / of_int tot :: rat)" using assms by simp
  have "approx (Suc 0) (rnd (nat (max 64 (bitlen s))) (of_int s / of_int tot)) (of_int s / of_int tot)"
    using approx_rnd [OF approx_refl nn, of "nat (max 64 (bitlen s))"] by simp
  then have "approx 2 (stake_fraction tot s) (of_int s / of_int tot)"
    using approx_fl64 [OF _ nn] unfolding stake_fraction_def by (simp add: numeral_2_eq_2)
  from approx_scale [OF this, of 100] have a: "approx 2 (stake_fraction tot s * 100) (of_int s / of_int tot * 100)" by simp
  have "0 \<le> (of_int s / of_int tot * 100 :: rat)" using nn by (intro mult_nonneg_nonneg) simp_all
  from approx_fl64 [OF a this] show ?thesis by (simp only: stake_percentage_def numeral_3_eq_3 numeral_2_eq_2)
qed

lemma hhi_loop_approx:
  assumes "\<forall>s \<in> set ss. 0 \<le> s" and "0 < tot" and "approx (7 + k) h x" and "0 \<le> x"
  shows "approx (7 + k + length ss) (hhi_loop tot ss h) (x + exact_hhi tot ss)"
  using assms(1,3,4)
proof (induction ss arbitrary: h x k)
  case Nil
  then show ?case by (simp add: exact_hhi_def)
next
  case (Cons s ss)
  let ?p = "of_int s / of_int tot * 100 :: rat"
  have p: "0 \<le> ?p" using Cons.prems(1) assms(2) by simp
  have "approx 3 (stake_percentage tot s) ?p"
    using Cons.prems(1) assms(2) by (intro stake_percentage_approx) auto
  from approx_fl64 [OF approx_square [OF this p]] p
  have "approx 7 (fl64 (stake_percentage tot s * stake_percentage tot s)) (?p * ?p)" by simp
  then have "approx (7 + k) (fl64 (stake_percentage tot s * stake_percentage tot s)) (?p * ?p)"
    using p by (rule_tac approx_mono) auto
  from approx_fl64 [OF approx_add [OF Cons.prems(2) this]] Cons.prems(3) p
  have "approx (7 + Suc k) (fl64 (h + fl64 (stake_percentage tot s * stake_percentage tot s))) (x + ?p * ?p)"
    by simp
  from Cons.IH [OF _ this] Cons.prems(1,3) p show ?case
    by (simp add: exact_hhi_def power2_eq_square add.assoc)
qed

lemma square_sum_le: "\<forall>y \<in> set xs. 0 \<le> (y :: rat) \<Longrightarrow> sum_list (map power2 xs) \<le> (sum_list xs)\<^sup>2"
proof (induction xs)
  case (Cons a xs)
  have "0 \<le> sum_list xs" using Cons.prems by (intro sum_list_nonneg) auto
  then have "0 \<le> a * sum_list xs" using Cons.prems by simp
  then show ?case using Cons by (simp add: power2_sum)
qed simp

lemma sum_square_le: "(sum_list xs)\<^sup>2 \<le> of_nat (length xs) * sum_list (map power2 (xs :: rat list))"
proof (induction xs)
  case (Cons a xs)
  let ?S = "sum_list xs" and ?Q = "sum_list (map power2 xs)" and ?n = "of_nat (length xs) :: rat"
  have "2 * a * ?S \<le> ?n * a\<^sup>2 + ?Q"
  proof (cases "xs = []")
    case False
    then have n: "0 < ?n" by simp
    have "0 \<le> (?n * a - ?S)\<^sup>2" by simp
    then have "?n * (2 * a * ?S) \<le> ?n * (?n * a\<^sup>2) + ?S\<^sup>2" by (simp add: power2_eq_square algebra_simps)
    then have "?n * (2 * a * ?S) \<le> ?n * (?n * a\<^sup>2 + ?Q)" using Cons.IH by (simp add: distrib_left)
    then show ?thesis using n by simp
  qed simp
  then show ?case using Cons.IH by (simp add: power2_sum algebra_simps)
qed simp

lemma sum_percentages:
  assumes "0 < sum_list ss"
  shows "sum_list (map (\<lambda>s. of_int s / of_int (sum_list ss) * 100 :: rat) ss) = 100"
proof -
  have "sum_list (map (\<lambda>s. of_int s / of_int t * 100 :: rat) xs) = of_int (sum_list xs) / of_int t * 100" for t xs
    by (induction xs) (simp_all add: add_divide_distrib distrib_right)
  then show ?thesis using assms by simp
qed

lemma exact_hhi_bounds:
  assumes "\<forall>s \<in> set ss. 0 < s" and "ss \<noteq> []"
  shows "exact_hhi (sum_list ss) ss \<le> 10000" "10000 \<le> of_nat (length ss) * exact_hhi (sum_list ss) ss"
    "0 < sum_list ss"
proof -
  show pos: "0 < sum_list ss"
    using assms by (cases ss) (auto intro!: add_pos_nonneg sum_list_nonneg)
  let ?xs = "map (\<lambda>s. of_int s / of_int (sum_list ss) * 100 :: rat) ss"
  have h: "exact_hhi (sum_list ss) ss = sum_list (map power2 ?xs)" by (simp add: exact_hhi_def comp_def)
  have s: "sum_list ?xs = 100" using pos by (rule sum_percentages)
  have "\<forall>y \<in> set ?xs. 0 \<le> y" using assms(1) pos by (auto intro!: divide_nonneg_pos)
  from square_sum_le [OF this] show "exact_hhi (sum_list ss) ss \<le> 10000" unfolding h s by simp
  show "10000 \<le> of_nat (length ss) * exact_hhi (sum_list ss) ss"
    using sum_square_le [of ?xs] unfolding h s by simp
qed

subsection \<open>What a snapshot stores\<close>

lemma insertStakeSnapshotOperator_rejected:
  "migrated d \<Longrightarrow> snd (insertStakeSnapshotOperator x d) = d\<lparr>stmts := Suc (stmts d)\<rparr>"
  using rejects_stake_operator [of d x]
  by (simp add: insertStakeSnapshotOperator_def exec_def Let_def split: stmt_fate.split)

lemma insert_stakes_rejected: "migrated d \<Longrightarrow> insert_stakes q tot ss d = d\<lparr>stmts := stmts d + length ss\<rparr>"
proof (induction ss arbitrary: d)
  case (Cons s ss)
  obtain opid x where s: "s = (opid, x)" by fastforce
  have "migrated (d\<lparr>stmts := Suc (stmts d)\<rparr>)" using Cons.prems by (simp add: migrated_def)
  from Cons.IH [OF this] show ?case by (simp add: s insertStakeSnapshotOperator_rejected [OF Cons.prems])
qed simp

lemma insertStakeSnapshot_tables:
  "stake_snapshot_operators (snd (insertStakeSnapshot s d)) = stake_snapshot_operators d"
  by (simp add: insertStakeSnapshot_def exec_def Let_def split: stmt_fate.split)

lemma snapshot_quorum_cases:
  assumes "migrated d"
  shows "migrated (snapshot_quorum env ops q d) \<and> fate (snapshot_quorum env ops q d) = fate d \<and>
    stake_snapshot_operators (snapshot_quorum env ops q d) = stake_snapshot_operators d"
proof -
  have "migrated (snd (insertStakeSnapshot r d))" for r using assms by (simp add: migrated_def)
  note i = insert_stakes_rejected [OF this] this
  show ?thesis using assms i insertStakeSnapshot_tables [of _ d] by (simp add: snapshot_quorum_def Let_def migrated_def)
qed

lemma stake_snapshot_frame:
  assumes "migrated (snd s)"
  shows "migrated (snd (stake_snapshot env s)) \<and>
    stake_snapshot_operators (snd (stake_snapshot env s)) = stake_snapshot_operators (snd s)"
proof -
  obtain disc d where s: "s = (disc, d)" by fastforce
  have "migrated (fold (snapshot_quorum env ops) qs d) \<and>
    stake_snapshot_operators (fold (snapshot_quorum env ops) qs d) = stake_snapshot_operators d" for ops qs
    using assms unfolding s snd_conv
    by (induction qs arbitrary: d) (simp_all add: snapshot_quorum_cases)
  from this [where qs = "[0, 1, 2]"] assms show ?thesis
    by (simp add: s stake_snapshot_def split: prod.split sum.split del: fold_simps)
qed

lemma numeric_itoa: "0 \<le> n \<Longrightarrow> numeric_text (itoa n)"
proof -
  assume "0 \<le> n"
  have "\<not> hasPrefix (utoa k) ''-''" for k
    using unsign_utoa [of k] by (cases "utoa k") (auto simp: hasPrefix_def unsign_def split: if_splits)
  then show ?thesis using \<open>0 \<le> n\<close> all_digits_utoa
    by (simp add: numeric_text_def itoa_def Let_def all_digits_def)
qed

lemma collect_stakes_positive: "\<forall>x \<in> set (collect_stakes env q ops). 0 < snd x"
  by (induction ops) (auto split: sum.split)

lemma collect_stakes_length: "length (collect_stakes env q ops) \<le> length ops"
  by (induction ops) (auto split: sum.split)

lemma total_positive: "collect_stakes env q ops \<noteq> [] \<Longrightarrow> 0 < total_stake (collect_stakes env q ops)"
  unfolding total_stake_def using collect_stakes_positive [of env q ops] by (intro exact_hhi_bounds(3)) auto

lemma accepts_quorum_row:
  assumes "migrated d" and "collect_stakes env q ops \<noteq> []" and "length ops < 2 ^ 31"
  shows "accepts ''stake_snapshots'' (stake_values (quorum_row q (collect_stakes env q ops))) d"
proof -
  have "uint q < 256" using unsigned_less [of q, where ?'a = int] by simp
  then have "uint q < 2 ^ 31" by simp
  moreover have "- (2 ^ 31) \<le> uint q" by (rule order_trans [of _ 0]) simp_all
  ultimately have "fits TInteger (SInt (uint q))" by simp
  then show ?thesis
    using collect_stakes_length [of env q ops] assms(3) total_positive [OF assms(2)]
    by (simp add: accepts_stake [OF assms(1)] quorum_row_def numeric_itoa)
qed

lemma snapshot_quorum_row:
  assumes "migrated d" and "fate d = (\<lambda>_. Acked)" and "length ops < 2 ^ 31"
  shows "map snd (stake_snapshots (snapshot_quorum env ops q d)) = map snd (stake_snapshots d) @
    (if collect_stakes env q ops = [] then [] else [quorum_row q (collect_stakes env q ops)])"
proof (cases "collect_stakes env q ops = []")
  case False
  let ?r = "quorum_row q (collect_stakes env q ops)"
  have m: "migrated (snd (insertStakeSnapshot ?r d))" using assms(1) by (simp add: migrated_def)
  have "stake_snapshots (snd (insertStakeSnapshot ?r d)) = stake_snapshots d @ [(now_of d, ?r)]"
    using accepts_quorum_row [OF assms(1) False assms(3)] assms(2)
    by (simp add: insertStakeSnapshot_def exec_def Let_def)
  then show ?thesis using False total_positive [OF False]
    by (simp add: snapshot_quorum_def Let_def insert_stakes_rejected [OF m])
qed (simp add: snapshot_quorum_def Let_def)

subsection \<open>Properties\<close>

text \<open>C16: The index of a quorum as computed: with \<open>n\<close> positive stakes it differs from the exact
  index, the sum of the squared percentages, by at most \<open>n + 7\<close> roundings to 53 bits, and the
  exact index lies between 10000 / n and 10000.\<close>

theorem hhi_accuracy:
  assumes "stakes \<noteq> []" and "\<forall>s \<in> set stakes. 0 < snd s"
  shows "(1 - 1 / 2 ^ 53) ^ (length stakes + 7) * exact_hhi (total_stake stakes) (map snd stakes) \<le> ss_HHI (quorum_row q stakes) \<and>
    ss_HHI (quorum_row q stakes) \<le> (1 + 1 / 2 ^ 53) ^ (length stakes + 7) * exact_hhi (total_stake stakes) (map snd stakes) \<and>
    exact_hhi (total_stake stakes) (map snd stakes) \<le> 10000 \<and>
    10000 \<le> of_nat (length stakes) * exact_hhi (total_stake stakes) (map snd stakes)"
proof -
  have ss: "\<forall>s \<in> set (map snd stakes). 0 < s" "map snd stakes \<noteq> []" using assms by auto
  note b = exact_hhi_bounds [OF ss, folded total_stake_def]
  have "approx (7 + 0 + length (map snd stakes)) (hhi_loop (total_stake stakes) (map snd stakes) 0)
      (0 + exact_hhi (total_stake stakes) (map snd stakes))"
    using ss(1) b(3) by (intro hhi_loop_approx) (auto simp: approx_def)
  then show ?thesis using b by (simp add: approx_def unit_roundoff_def quorum_row_def add.commute)
qed

theorem hhi_accuracy_witness:
  "ss_HHI (quorum_row 0 [([1], 600), ([2], 400)]) \<le> (1 + 1 / 2 ^ 53) ^ 9 * 5200"
  using hhi_accuracy [of "[([1], 600), ([2], 400)]" 0]
  by (simp add: exact_hhi_def total_stake_def power2_eq_square)


definition demo_stake_env :: stake_env where
  "demo_stake_env = \<lparr>se_chain = demo_chain, se_listNow = 10, se_listStored = 11,
     se_stake = (\<lambda>opid q. if q = 1 then CallFails ''revert'' else if opid = [1] then Value 600 else Value 0)\<rparr>"


text \<open>C39: No stake of a single operator is ever stored: on the schema the migrations create,
  whatever the connection and the node do, over any number of snapshots the table
  \<open>stake_snapshot_operators\<close> stays as it was, because the insert leaves out the column
  \<open>snapshot_time\<close>, which is NOT NULL and has no default.\<close>

theorem stake_operators_never_stored:
  assumes "migrated d"
  shows "stake_snapshot_operators (snd (stake_run directory envs (disc, d))) = stake_snapshot_operators d"
proof -
  have "migrated (snd s) \<Longrightarrow> stake_snapshot_operators (snd (fold stake_snapshot envs s)) = stake_snapshot_operators (snd s)" for s
    by (induction envs arbitrary: s) (simp_all add: stake_snapshot_frame)
  from this [of "(disc, d)"] assms show ?thesis by (simp add: stake_run_def split: sum.split)
qed

theorem stake_operators_never_stored_witness:
  "stake_snapshot_operators (snd (stake_run (\<lambda>_. Value (replicate 20 1)) [demo_stake_env, demo_stake_env] (demo_disc, fresh_db))) = []"
  using stake_operators_never_stored [OF fresh_db_migrated] by (simp add: fresh_db empty_db_def)

end
