(* ===== verification/OperatorStatus.thy ===== *)
theory OperatorStatus
  imports DatabaseFacts Discovery DataApi
begin

text \<open>
  The operator status worker (internal/worker/operator_status_worker.go) and the metadata
  client it uses (internal/eigenexplorer/client.go): from an operator ID to an address, to the
  latest metadata URI event, to the JSON behind the URI. The contracts, the node's logs, HTTP
  and the JSON decoder are a parameter.
\<close>

subsection \<open>The metadata client\<close>

record OperatorMeta =
  me_Address :: address
  me_Name :: string
  me_Description :: string
  me_Logo :: string
  me_Website :: string
  me_Twitter :: string

record meta_env =
  mt_operator :: "bytes \<Rightarrow> address abi_reply"
  mt_head :: "u64 go_result"
  mt_logs :: "u64 \<Rightarrow> u64 \<Rightarrow> address \<Rightarrow> string abi_reply list go_result"
  mt_get :: "string \<Rightarrow> http_attempt"
  mt_json :: "string \<Rightarrow> OperatorMeta go_result"
  mt_hex :: "address \<Rightarrow> string"

definition empty_meta :: "address \<Rightarrow> OperatorMeta" where
  "empty_meta a = \<lparr>me_Address = a, me_Name = '''', me_Description = '''', me_Logo = '''', me_Website = '''', me_Twitter = ''''\<rparr>"

definition resolveOperatorAddress :: "meta_env \<Rightarrow> bytes \<Rightarrow> address go_result" where
  "resolveOperatorAddress env opid = (case mt_operator env opid of
     PackFails e \<Rightarrow> Inl e
   | CallFails e \<Rightarrow> Inl (''call getOperatorFromId: '' @ e)
   | UnpackFails e \<Rightarrow> Inl ''unpack getOperatorFromId failed''
   | WrongType \<Rightarrow> Inl ''unexpected return type''
   | Value a \<Rightarrow> Inr a)"

text \<open>The block ranges, widest first: unsigned subtractions, which wrap.\<close>

definition metadata_ranges :: "u64 \<Rightarrow> (u64 \<times> u64) list" where
  "metadata_ranges latest =
     [(latest - 650000, latest), (latest - 100000, latest), (latest - 10000, latest), (latest - 1000, latest)]"

fun search_ranges :: "meta_env \<Rightarrow> address \<Rightarrow> (u64 \<times> u64) list \<Rightarrow> string go_result" where
  "search_ranges env a [] = Inl (''no OperatorMetadataURIUpdated event found for '' @ mt_hex env a)"
| "search_ranges env a ((fromBlock, toBlock) # rs) = (case mt_logs env fromBlock toBlock a of
     Inl _ \<Rightarrow> search_ranges env a rs
   | Inr logs \<Rightarrow>
       if logs = [] then search_ranges env a rs
       else (case last logs of
          Value uri \<Rightarrow> Inr uri
        | WrongType \<Rightarrow> Inl ''unexpected URI type''
        | UnpackFails e \<Rightarrow> Inl (''unpack event data: '' @ e)
        | CallFails e \<Rightarrow> Inl (''unpack event data: '' @ e)
        | PackFails e \<Rightarrow> Inl (''unpack event data: '' @ e)))"

definition fetchMetadataURI :: "meta_env \<Rightarrow> address \<Rightarrow> string go_result" where
  "fetchMetadataURI env a = (case mt_head env of
     Inl e \<Rightarrow> Inl (''get latest block: '' @ e)
   | Inr latest \<Rightarrow> search_ranges env a (metadata_ranges latest))"

definition gateway_uri :: "string \<Rightarrow> string" where
  "gateway_uri uri = (if hasPrefix uri ''ipfs://'' then ''https://ipfs.io/ipfs/'' @ trimPrefix uri ''ipfs://'' else uri)"

definition fetchMetadataJSON :: "meta_env \<Rightarrow> string \<Rightarrow> OperatorMeta go_result" where
  "fetchMetadataJSON env uri = (case mt_get env (gateway_uri uri) of
     BadRequest e \<Rightarrow> Inl (''fetch metadata URI: '' @ e)
   | DoFails e \<Rightarrow> Inl (''fetch metadata URI: '' @ e)
   | Reply status body rerr \<Rightarrow>
       if status \<noteq> 200 then Inl (''metadata URI returned HTTP '' @ utoa status)
       else (case rerr of
          Some e \<Rightarrow> Inl e
        | None \<Rightarrow> (case mt_json env body of
            Inl e \<Rightarrow> Inl (''decode metadata JSON: '' @ e)
          | Inr m \<Rightarrow> Inr m)))"

definition fetchMetadata :: "meta_env \<Rightarrow> bytes \<Rightarrow> OperatorMeta go_result" where
  "fetchMetadata env opid = (case resolveOperatorAddress env opid of
     Inl e \<Rightarrow> Inl (''resolve address: '' @ e)
   | Inr a \<Rightarrow> (case fetchMetadataURI env a of
       Inl _ \<Rightarrow> Inr (empty_meta a)
     | Inr uri \<Rightarrow> (case fetchMetadataJSON env uri of
         Inl _ \<Rightarrow> Inr (empty_meta a)
       | Inr m \<Rightarrow> Inr (m\<lparr>me_Address := a\<rparr>))))"

subsection \<open>The worker\<close>

record status_env =
  sv_chain :: chain
  sv_listNow :: int
  sv_listStored :: int
  sv_meta :: meta_env

definition status_row :: "meta_env \<Rightarrow> discovery \<Rightarrow> OperatorInfo \<Rightarrow> OperatorStatus" where
  "status_row env disc op = \<lparr>os_OperatorAddress = hex_encode (take 8 (oi_OperatorID op)),
     os_MetadataName = (case fetchMetadata env (oi_OperatorID op) of Inl _ \<Rightarrow> '''' | Inr m \<Rightarrow> me_Name m),
     os_Status = (if isBlacklisted (oi_OperatorID op) disc then ''dead'' else ''active''),
     os_TotalStakers = 0, os_TotalAvs = 0, os_TVLETH = 0\<rparr>"

text \<open>The loop over the operators; the database error is only logged.\<close>

fun status_loop :: "meta_env \<Rightarrow> discovery \<Rightarrow> OperatorInfo list \<Rightarrow> db \<Rightarrow> db" where
  "status_loop env disc [] d = d"
| "status_loop env disc (op # ops) d = status_loop env disc ops (snd (upsertOperatorStatus (status_row env disc op) d))"

definition status_snapshot :: "status_env \<Rightarrow> discovery \<times> db \<Rightarrow> discovery \<times> db" where
  "status_snapshot env = (\<lambda>(disc, d). case getOperators (sv_chain env) (sv_listNow env) (sv_listStored env) disc of
     (Inl _, disc') \<Rightarrow> (disc', d)
   | (Inr ops, disc') \<Rightarrow> (disc', status_loop (sv_meta env) disc' ops d))"

text \<open>\<open>Run\<close>: one snapshot at the start, one per tick.\<close>

definition status_run :: "status_env list \<Rightarrow> discovery \<times> db \<Rightarrow> discovery \<times> db" where
  "status_run envs s = fold status_snapshot envs s"

subsection \<open>Rows\<close>

lemma upsertOperatorStatus_rows:
  "operator_status_snapshots (snd (upsertOperatorStatus s d)) = operator_status_snapshots d \<or>
   operator_status_snapshots (snd (upsertOperatorStatus s d)) = operator_status_snapshots d @ [(now_of d, s)]"
  by (auto simp: upsertOperatorStatus_def exec_def Let_def split: stmt_fate.split)

lemma accepts_status_row:
  "migrated d \<Longrightarrow> accepts ''operator_status_snapshots'' (status_values (status_row env disc op)) d"
  by (simp add: accepts_status status_row_def min_def)

lemma status_loop_rows:
  assumes "fate d = (\<lambda>_. Acked)" and "migrated d"
  shows "map snd (operator_status_snapshots (status_loop env disc ops d)) =
    map snd (operator_status_snapshots d) @ map (status_row env disc) ops"
  using assms
proof (induction ops arbitrary: d)
  case (Cons op ops)
  let ?d = "snd (upsertOperatorStatus (status_row env disc op) d)"
  have "operator_status_snapshots ?d = operator_status_snapshots d @ [(now_of d, status_row env disc op)]"
    using Cons.prems accepts_status_row [of d env disc op] by (simp add: upsertOperatorStatus_def exec_def Let_def)
  moreover have "fate ?d = (\<lambda>_. Acked)" "migrated ?d" using Cons.prems by (simp_all add: migrated_def)
  ultimately show ?case using Cons.IH [of ?d] by simp
qed simp

text \<open>The statuses a table holds.\<close>

definition statuses :: "db \<Rightarrow> string set" where
  "statuses d = (\<lambda>r. os_Status (snd r)) ` set (operator_status_snapshots d)"

lemma upsertOperatorStatus_statuses:
  "statuses (snd (upsertOperatorStatus s d)) \<subseteq> insert (os_Status s) (statuses d)"
  using upsertOperatorStatus_rows [of s d] by (elim disjE) (simp_all add: statuses_def subset_insertI)

lemma status_loop_statuses: "statuses (status_loop env disc ops d) \<subseteq> statuses d \<union> {''dead'', ''active''}"
proof (induction ops arbitrary: d)
  case (Cons op ops)
  have "statuses (snd (upsertOperatorStatus (status_row env disc op) d)) \<subseteq> statuses d \<union> {''dead'', ''active''}"
    using upsertOperatorStatus_statuses [of "status_row env disc op" d] by (auto simp: status_row_def split: if_splits)
  then show ?case using Cons.IH [of "snd (upsertOperatorStatus (status_row env disc op) d)"] by auto
qed auto

lemma status_run_statuses: "statuses (snd (status_run envs s)) \<subseteq> statuses (snd s) \<union> {''dead'', ''active''}"
proof -
  have one: "statuses (snd (status_snapshot env s)) \<subseteq> statuses (snd s) \<union> {''dead'', ''active''}" for env s
    using status_loop_statuses by (cases s) (auto simp: status_snapshot_def split: prod.split sum.split dest!: subsetD)
  show ?thesis unfolding status_run_def
  proof (induction envs arbitrary: s)
    case (Cons env envs)
    then show ?case using one [of env s] by (fastforce dest!: subsetD)
  qed auto
qed

lemma latest_statuses_subset: "set (latest_statuses rows) \<subseteq> set rows"
  using set_distinct_on by (fastforce simp: latest_statuses_def)

subsection \<open>Properties\<close>

text \<open>C33: A snapshot of a reliable database stores one row per operator the discovery gives, in
  its order: the status is "dead" exactly for the operators with five failures in a row, and
  the name is what the operator's metadata says, empty if any step towards it fails.\<close>

theorem status_snapshot_rows:
  assumes "fate d = (\<lambda>_. Acked)" and "migrated d"
    and "getOperators (sv_chain env) (sv_listNow env) (sv_listStored env) disc = (Inr ops, disc')"
  shows "map snd (operator_status_snapshots (snd (status_snapshot env (disc, d)))) =
    map snd (operator_status_snapshots d) @
    map (\<lambda>op. \<lparr>os_OperatorAddress = hex_encode (take 8 (oi_OperatorID op)),
      os_MetadataName = (case fetchMetadata (sv_meta env) (oi_OperatorID op) of Inl _ \<Rightarrow> '''' | Inr m \<Rightarrow> me_Name m),
      os_Status = (if isBlacklisted (oi_OperatorID op) disc' then ''dead'' else ''active''),
      os_TotalStakers = 0, os_TotalAvs = 0, os_TVLETH = 0\<rparr>) ops"
  using status_loop_rows [OF assms(1,2), of "sv_meta env" disc' ops]
  by (simp add: status_snapshot_def assms(3) status_row_def [abs_def])

definition demo_meta :: meta_env where
  "demo_meta = \<lparr>mt_operator = (\<lambda>_. Value (replicate 20 1)), mt_head = Inr 1000000,
     mt_logs = (\<lambda>a b _. if b - a > 500000 then Inl ''range too wide'' else Inr [Value ''ipfs://old'', Value ''ipfs://new'']),
     mt_get = (\<lambda>u. if u = ''https://ipfs.io/ipfs/new'' then Reply 200 ''body'' None else DoFails ''unexpected''),
     mt_json = (\<lambda>_. Inr ((empty_meta [])\<lparr>me_Name := ''node''\<rparr>)), mt_hex = (\<lambda>_. ''0x'')\<rparr>"

lemma demo_fetchMetadata: "fetchMetadata demo_meta opid = Inr ((empty_meta (replicate 20 1))\<lparr>me_Name := ''node''\<rparr>)"
proof -
  have "gateway_uri ''ipfs://new'' = ''https://ipfs.io/ipfs/new''" by code_simp
  then show ?thesis
    by (simp add: fetchMetadata_def resolveOperatorAddress_def fetchMetadataURI_def metadata_ranges_def fetchMetadataJSON_def
        demo_meta_def empty_meta_def)
qed

theorem status_snapshot_rows_witness:
  "map (\<lambda>r. (os_MetadataName (snd r), os_Status (snd r))) (operator_status_snapshots
     (snd (status_snapshot \<lparr>sv_chain = demo_chain, sv_listNow = 10, sv_listStored = 11, sv_meta = demo_meta\<rparr>
       (demo_disc\<lparr>di_failCount := [[1] \<mapsto> 5]\<rparr>, fresh_db)))) = [(''node'', ''active''), (''node'', ''dead'')]"
proof -
  let ?env = "\<lparr>sv_chain = demo_chain, sv_listNow = 10, sv_listStored = 11, sv_meta = demo_meta\<rparr>"
  let ?disc = "demo_disc\<lparr>di_failCount := [[1] \<mapsto> 5]\<rparr>"
  let ?ops = "[\<lparr>oi_OperatorID = [2], oi_Socket = ''b:1''\<rparr>, \<lparr>oi_OperatorID = [1], oi_Socket = ''a:1''\<rparr>]"
  have g: "getOperators (sv_chain ?env) (sv_listNow ?env) (sv_listStored ?env) ?disc = (Inr ?ops, ?disc)"
    by (simp add: getOperators_def cache_valid_def demo_disc_def newDiscovery_def healthy_first_def fails_def)
  have "map ((\<lambda>r. (os_MetadataName r, os_Status r)) \<circ> snd) (operator_status_snapshots (snd (status_snapshot ?env (?disc, fresh_db)))) =
      [(''node'', ''active''), (''node'', ''dead'')]"
    unfolding map_map [symmetric]
    using status_snapshot_rows [OF fresh_db_fate fresh_db_migrated g]
    by (simp add: demo_fetchMetadata empty_meta_def fresh_db empty_db_def isBlacklisted_def fails_def blacklistThreshold_def)
  then show ?thesis by (simp add: comp_def)
qed

text \<open>C40: The query for dead operators never finds one: from a table that holds no "inactive"
  row, after any number of snapshots, whatever was lost, it returns no operator, because the
  worker writes "dead" and the query asks for "inactive".\<close>

theorem dead_operators_never_found:
  assumes "''inactive'' \<notin> (\<lambda>r. os_Status (snd r)) ` set (operator_status_snapshots d)"
    and "fst (getDeadOperators (snd (status_run envs (disc, d)))) = Inr ops"
  shows "ops = []"
proof -
  let ?d = "snd (status_run envs (disc, d))"
  have "''inactive'' \<notin> statuses ?d" using status_run_statuses [of envs "(disc, d)"] assms(1) by (auto simp: statuses_def)
  moreover have "os_Status (snd r) \<in> statuses ?d" if "r \<in> set (latest_statuses (scan ?d (operator_status_snapshots ?d)))" for r
  proof -
    have "r \<in> set (operator_status_snapshots ?d)"
      using that latest_statuses_subset [of "scan ?d (operator_status_snapshots ?d)"] unfolding scan_def set_reorder by blast
    then show ?thesis unfolding statuses_def by (rule imageI)
  qed
  ultimately have "\<forall>r \<in> set (latest_statuses (scan ?d (operator_status_snapshots ?d))). os_Status (snd r) \<noteq> ''inactive''"
    by metis
  moreover have "ops = map snd (filter (\<lambda>r. os_Status (snd r) = ''inactive'') (latest_statuses (scan ?d (operator_status_snapshots ?d))))"
    using query_Inr [OF assms(2) [unfolded getDeadOperators_def]] by simp
  ultimately show ?thesis by (simp add: filter_empty_conv)
qed

theorem dead_operators_never_found_witness:
  "fst (getDeadOperators (snd (status_run [\<lparr>sv_chain = demo_chain, sv_listNow = 10, sv_listStored = 11, sv_meta = demo_meta\<rparr>]
     (demo_disc\<lparr>di_failCount := [[1] \<mapsto> 5]\<rparr>, fresh_db)))) = Inr []"
proof -
  let ?envs = "[\<lparr>sv_chain = demo_chain, sv_listNow = 10, sv_listStored = 11, sv_meta = demo_meta\<rparr>]"
  let ?disc = "demo_disc\<lparr>di_failCount := [[1] \<mapsto> 5]\<rparr>"
  have "fate (status_loop env di ops d) = fate d" for env di ops d by (induction ops arbitrary: d) simp_all
  then have "fate (snd (status_run ?envs (?disc, fresh_db))) = (\<lambda>_. Acked)"
    by (simp add: status_run_def status_snapshot_def split: prod.split sum.split)
  then obtain ops where "fst (getDeadOperators (snd (status_run ?envs (?disc, fresh_db)))) = Inr ops"
    by (simp add: getDeadOperators_def query_def)
  moreover from this have "ops = []"
    by (rule dead_operators_never_found [rotated]) (simp add: fresh_db empty_db_def)
  ultimately show ?thesis by simp
qed

text \<open>The block ranges searched for metadata events are the last 650000, 100000, 10000 and
  1000 blocks as long as the chain is that long; on a shorter chain the subtraction wraps and
  the range starts after its end, so it cannot match anything.\<close>

theorem metadata_ranges_bounds:
  assumes "(fromBlock, toBlock) \<in> set (metadata_ranges latest)"
  shows "toBlock = latest \<and> (\<exists>n \<in> {650000, 100000, 10000, 1000}.
    if n \<le> uint latest then uint fromBlock = uint latest - n else uint fromBlock = uint latest + 2 ^ 64 - n \<and> latest < fromBlock)"
proof -
  have sub: "if n \<le> uint latest then uint (latest - word_of_int n) = uint latest - n
      else uint (latest - word_of_int n) = uint latest + 2 ^ 64 - n \<and> latest < latest - word_of_int n"
    if "0 < n" "n < 2 ^ 64" for n
  proof -
    have u: "uint (word_of_int n :: u64) = n" using that by (simp add: uint_word_of_int_eq take_bit_int_eq_self)
    have "uint latest < 2 ^ 64" using unsigned_less [of latest, where ?'a = int] by simp
    then show ?thesis using that u uint_sub_if' [of latest "word_of_int n"] by (auto simp: word_less_def)
  qed
  have "\<exists>n \<in> {650000, 100000, 10000, 1000}. fromBlock = latest - word_of_int n" and to: "toBlock = latest"
    using assms by (auto simp: metadata_ranges_def)
  then obtain n where n: "n \<in> {650000, 100000, 10000, 1000}" "fromBlock = latest - word_of_int n" by blast
  then have "0 < n" "n < 2 ^ 64" by auto
  from sub [OF this] n to show ?thesis by blast
qed

theorem metadata_ranges_bounds_witness:
  "(18446744073708902616, 1000) \<in> set (metadata_ranges 1000) \<and> (1000 :: u64) < 18446744073708902616"
  using metadata_ranges_bounds [of 18446744073708902616 1000 1000] by (simp add: metadata_ranges_def)

end
