(* ===== verification/WriteProber.thy ===== *)
theory WriteProber
  imports RelayVerifierFacts Collector
begin

text \<open>
  The write prober (internal/worker/write_prober.go): the payload, the dispersal through the
  proxy, the search for the blob in the feed, the row it stores. Random bytes, the proxy and
  the clock are parameters.
\<close>

record write_prober =
  wp_proxyURL :: string
  wp_accountID :: string

definition newWriteProber :: "string \<Rightarrow> string \<Rightarrow> write_prober" where
  "newWriteProber proxyURL accountID = \<lparr>wp_proxyURL = proxyURL, wp_accountID = toLower accountID\<rparr>"

text \<open>The loop \<open>for i := 0; i < len; i += 32\<close> that clears the first byte of every field element.\<close>

function clear_bytes :: "nat \<Rightarrow> bytes \<Rightarrow> bytes" where
  "clear_bytes i payload = (if i < length payload then clear_bytes (i + 32) (payload[i := 0]) else payload)"
  by pat_completeness auto
termination by (relation "measure (\<lambda>(i, payload). length payload - i)") auto

declare clear_bytes.simps [simp del]

definition payload_size :: nat where
  "payload_size = 128 * 1024"

definition account_of :: "BlobEntry \<Rightarrow> string" where
  "account_of e = toLower (pm_AccountID (bh_PaymentMetadata (bm_BlobHeader (be_BlobMetadata e))))"

text \<open>
  \<open>findSelfBlob\<close>: up to five requests of the feed, the first entry of our account in the first
  feed that has one. The replies are a list, one per attempt that is made.
\<close>

fun find_self :: "string \<Rightarrow> nat \<Rightarrow> FeedResponse go_result list \<Rightarrow> BlobEntry option" where
  "find_self account 0 fs = None"
| "find_self account (Suc n) [] = None"
| "find_self account (Suc n) (f # fs) = (case f of
     Inl _ \<Rightarrow> find_self account n fs
   | Inr feed \<Rightarrow> (case find (\<lambda>e. account_of e = account) (fr_Blobs feed) of
       Some e \<Rightarrow> Some e
     | None \<Rightarrow> find_self account n fs))"

definition findSelfBlob :: "write_prober \<Rightarrow> FeedResponse go_result list \<Rightarrow> BlobEntry option" where
  "findSelfBlob w feeds = find_self (wp_accountID w) 5 feeds"

record disperse_env =
  dp_random :: "bytes go_result"
  dp_proxy :: "string \<Rightarrow> bytes \<Rightarrow> http_attempt"
  dp_latencyMs :: int
  dp_feeds :: "FeedResponse go_result list"
  dp_now :: u64

definition put_url :: "write_prober \<Rightarrow> string" where
  "put_url w = wp_proxyURL w @ ''/put?commitment_mode=standard''"

definition self_blob :: "BlobEntry \<Rightarrow> nat \<Rightarrow> u64 \<Rightarrow> int \<Rightarrow> ObservedBlob" where
  "self_blob e n now latencyMs = \<lparr>ob_BlobKey = be_BlobKey e, ob_AccountID = '''', ob_BlobStatus = ''CONFIRMED'',
     ob_BlobSizeBytes = int n, ob_RequestedAt = now, ob_ExpiryUnixSec = 0, ob_CommitmentX = '''',
     ob_CommitmentY = '''', ob_QuorumNumbers = '''', ob_IsSelfDispersed = True, ob_DispersalLatencyMs = latencyMs,
     ob_CumulativePayment = cumulative_payment e\<rparr>"

text \<open>\<open>disperse\<close>: the read error of the reply's body is ignored; the last log line slices the key.\<close>

definition disperse :: "disperse_env \<Rightarrow> write_prober \<Rightarrow> db \<Rightarrow> unit outcome \<times> db" where
  "disperse env w d = (case dp_random env of
     Inl _ \<Rightarrow> (Done (), d)
   | Inr bs \<Rightarrow>
       let payload = clear_bytes 0 bs in
       (case dp_proxy env (put_url w) payload of
          BadRequest _ \<Rightarrow> (Done (), d)
        | DoFails _ \<Rightarrow> (Done (), d)
        | Reply status body _ \<Rightarrow>
            if status \<noteq> 200 then (Done (), d)
            else (case findSelfBlob w (dp_feeds env) of
               None \<Rightarrow> (Done (), d)
             | Some e \<Rightarrow>
                 let d' = snd (upsertBlob (self_blob e (length payload) (dp_now env) (dp_latencyMs env)) d) in
                 (case slice_to 16 (be_BlobKey e) of Panic m \<Rightarrow> (Panic m, d') | Done _ \<Rightarrow> (Done (), d')))))"

text \<open>\<open>Run\<close>: nothing without a proxy; else one dispersal at the start and one per tick, until a panic.\<close>

fun disperse_all :: "disperse_env list \<Rightarrow> write_prober \<Rightarrow> db \<Rightarrow> unit outcome \<times> db" where
  "disperse_all [] w d = (Done (), d)"
| "disperse_all (e # es) w d = (case disperse e w d of
     (Panic m, d') \<Rightarrow> (Panic m, d')
   | (Done _, d') \<Rightarrow> disperse_all es w d')"

definition write_run :: "disperse_env list \<Rightarrow> write_prober \<Rightarrow> db \<Rightarrow> unit outcome \<times> db" where
  "write_run envs w d = (if wp_proxyURL w = '''' then (Done (), d) else disperse_all envs w d)"

subsection \<open>The payload\<close>

lemma clear_bytes_nth:
  "length (clear_bytes i p) = length p \<and> (\<forall>j < length p. clear_bytes i p ! j =
     (if i \<le> j \<and> j mod 32 = i mod 32 then 0 else p ! j))"
proof (induction i p rule: clear_bytes.induct)
  case (1 i p)
  show ?case
  proof (cases "i < length p")
    case True
    have step: "clear_bytes i p = clear_bytes (i + 32) (p[i := 0])" using True by (subst clear_bytes.simps) simp
    note IH = "1" [OF True]
    have "clear_bytes i p ! j = (if i \<le> j \<and> j mod 32 = i mod 32 then 0 else p ! j)" if "j < length p" for j
    proof -
      have "clear_bytes i p ! j = (if i + 32 \<le> j \<and> j mod 32 = (i + 32) mod 32 then 0 else p[i := 0] ! j)"
        unfolding step using IH that by simp
      moreover have "i + 32 \<le> j" if "i < j" "j mod 32 = i mod 32"
      proof -
        have "32 dvd j - i" using that mod_eq_dvd_iff_nat [of i j 32] by simp
        then have "32 \<le> j - i" using that(1) by (intro dvd_imp_le) auto
        then show ?thesis using that(1) by simp
      qed
      ultimately show ?thesis using that by (auto simp: nth_list_update)
    qed
    then show ?thesis using IH by (simp add: step)
  next
    case False
    then have "clear_bytes i p = p" by (subst clear_bytes.simps) simp
    then show ?thesis using False by auto
  qed
qed

lemma be_val_bound: "be_val bs < 256 ^ length bs"
proof (induction bs rule: rev_induct)
  case (snoc b bs)
  have "unat b < 256" using unsigned_less [of b, where ?'a = nat] by simp
  moreover have "be_val (bs @ [b]) = 256 * be_val bs + unat b" by (simp add: be_val_def)
  moreover have "be_val bs + 1 \<le> 256 ^ length bs" using snoc by simp
  ultimately show ?case using mult_le_mono2 [of "be_val bs + 1" "256 ^ length bs" 256] by simp
qed (simp add: be_val_def)

lemma be_val_leading_zero: "be_val (0 # bs) = be_val bs"
  by (simp add: be_val_def)

definition bn254_modulus :: nat where
  "bn254_modulus = 21888242871839275222246405745257275088548364400416034343698204186575808495617"

subsection \<open>The stored commitment\<close>

text \<open>The commitment coordinates of a stored blob never change: the upsert does not touch them.\<close>

definition commitment_of :: "db \<Rightarrow> string \<Rightarrow> (string \<times> string) option" where
  "commitment_of d k = map_option (\<lambda>b. (ob_CommitmentX b, ob_CommitmentY b)) (blob_map (observed_blobs d) k)"

lemma upsertBlob_commitment:
  "commitment_of d k = Some xy \<Longrightarrow> commitment_of (snd (upsertBlob b d)) k = Some xy"
  by (auto simp: commitment_of_def upsertBlob_def exec_def Let_def upsert_row_map merge_blob_def
      split: stmt_fate.splits option.splits if_splits)

lemma collect_loop_commitment:
  "commitment_of d k = Some xy \<Longrightarrow> commitment_of (snd (collect_loop seen es d)) k = Some xy"
proof (induction es arbitrary: d)
  case (Cons e es)
  have "commitment_of (snd (upsertBlob (entry_blob e) d)) k = Some xy" using Cons.prems by (rule upsertBlob_commitment)
  then show ?case using Cons.IH [of "snd (upsertBlob (entry_blob e) d)"] Cons.prems by (simp split: prod.split) (metis snd_conv)
qed simp

lemma collector_run_commitment:
  "commitment_of d k = Some xy \<Longrightarrow> collector_run fs c d = (ws, c', d') \<Longrightarrow> commitment_of d' k = Some xy"
proof (induction fs arbitrary: c d ws)
  case (Cons f fs)
  obtain n c1 d1 ws' where f: "collect_feed f c d = (n, c1, d1)" and r: "collector_run fs c1 d1 = (ws', c', d')"
    using collector_run_step [OF Cons.prems(2)] .
  have "d1 = (case f of Inl _ \<Rightarrow> d | Inr feed \<Rightarrow> snd (collect_loop (co_lastSeenTimestamp c) (fr_Blobs feed) d))"
    using collect_feed_db [of f c d] f by simp
  then have "commitment_of d1 k = Some xy" using Cons.prems(1) collect_loop_commitment by (cases f) auto
  then show ?case using r by (rule Cons.IH)
qed simp

lemma getBlobCommitment_commitment:
  "acked d \<Longrightarrow> commitment_of d k = Some xy \<Longrightarrow> fst (getBlobCommitment k d) = Inr xy"
  by (auto simp: getBlobCommitment_acked commitment_of_def)

subsection \<open>Properties\<close>

text \<open>C32: The payload that is dispersed: clearing keeps the length and every byte that is not the
  first of a 32-byte group, and each full group, read big-endian, is below the BN254 modulus,
  so it is a valid field element.\<close>

theorem payload_field_elements:
  "length (clear_bytes 0 p) = length p \<and>
    (\<forall>j < length p. j mod 32 \<noteq> 0 \<longrightarrow> clear_bytes 0 p ! j = p ! j) \<and>
    (\<forall>g. 32 * g + 32 \<le> length p \<longrightarrow> be_val (take 32 (drop (32 * g) (clear_bytes 0 p))) < bn254_modulus)"
proof (intro conjI allI impI)
  show l: "length (clear_bytes 0 p) = length p" using clear_bytes_nth by blast
  show "j < length p \<Longrightarrow> j mod 32 \<noteq> 0 \<Longrightarrow> clear_bytes 0 p ! j = p ! j" for j using clear_bytes_nth [of 0 p] by simp
  fix g assume g: "32 * g + 32 \<le> length p"
  have z: "clear_bytes 0 p ! (32 * g) = 0" using clear_bytes_nth [of 0 p] g by simp
  have "drop (32 * g) (clear_bytes 0 p) = 0 # drop (Suc (32 * g)) (clear_bytes 0 p)"
    using g l z by (metis Cons_nth_drop_Suc add_leE le_add_diff_inverse less_le_trans less_add_same_cancel1 zero_less_numeral)
  then have "take 32 (drop (32 * g) (clear_bytes 0 p)) = 0 # take 31 (drop (Suc (32 * g)) (clear_bytes 0 p))" by simp
  then have "be_val (take 32 (drop (32 * g) (clear_bytes 0 p))) = be_val (take 31 (drop (Suc (32 * g)) (clear_bytes 0 p)))"
    by (simp only: be_val_leading_zero)
  also have "\<dots> < 256 ^ length (take 31 (drop (Suc (32 * g)) (clear_bytes 0 p)))" by (rule be_val_bound)
  also have "\<dots> \<le> 256 ^ 31" by (intro power_increasing) simp_all
  also have "\<dots> < bn254_modulus" by (simp add: bn254_modulus_def)
  finally show "be_val (take 32 (drop (32 * g) (clear_bytes 0 p))) < bn254_modulus" .
qed

theorem payload_field_elements_witness:
  "be_val (take 32 (drop (32 * 1) (clear_bytes 0 (replicate 64 255)))) < bn254_modulus"
  using payload_field_elements [of "replicate 64 255"] by (auto dest: spec [of _ 1])



end
