(* ===== verification/EjectionIndexer.thy ===== *)
theory EjectionIndexer
  imports DatabaseFacts Contracts
begin

text \<open>
  The ejection indexer (internal/worker/ejection_indexer.go): one poll of the Ethereum node,
  which reads the cursor, asks for the logs of the next range of final blocks, records an
  event per log and advances the cursor. The node is a parameter: the head, the logs of a
  range and the time of a block. Times are in nanoseconds.
\<close>

subsection \<open>The node\<close>

record eth_log =
  lg_Topics :: "bytes list"
  lg_Data :: bytes
  lg_BlockNumber :: u64
  lg_TxHash :: bytes
  lg_Index :: u64

record eth_node =
  en_head :: "u64 go_result"
  en_logs :: "int \<Rightarrow> int \<Rightarrow> eth_log list go_result"
  en_blockTime :: "int \<Rightarrow> u64 go_result"
  en_now :: int

definition ejectionIndexerName :: string where
  "ejectionIndexerName = ''ejection''"

definition finalityBlocks :: int where
  "finalityBlocks = 64"

definition maxBlockRange :: int where
  "maxBlockRange = 10000"

subsection \<open>One poll\<close>

definition log_event :: "eth_node \<Rightarrow> eth_log \<Rightarrow> EjectionEvent" where
  "log_event node l = \<lparr>
     ee_EventTime = (case en_blockTime node (int64 (lg_BlockNumber l)) of
        Inl _ \<Rightarrow> en_now node | Inr t \<Rightarrow> int64 t * 1000000000),
     ee_BlockNumber = int64 (lg_BlockNumber l),
     ee_TxHash = ''0x'' @ hex_encode (lg_TxHash l),
     ee_LogIndex = int64 (lg_Index l),
     ee_OperatorID = hex_encode (take 8 (lg_Topics l ! 1)),
     ee_QuorumNumber = (if length (lg_Data l) \<ge> 32 then uint (lg_Data l ! 31) else 0)\<rparr>"

definition has_operator :: "eth_log \<Rightarrow> bool" where
  "has_operator l \<longleftrightarrow> 2 \<le> length (lg_Topics l)"

text \<open>The loop over the logs: a log without the indexed operator is skipped, an insert error ignored.\<close>

fun record_logs :: "eth_node \<Rightarrow> eth_log list \<Rightarrow> db \<Rightarrow> db" where
  "record_logs node [] d = d"
| "record_logs node (l # ls) d =
     (if has_operator l then record_logs node ls (snd (insertEjectionEvent (log_event node l) d))
      else record_logs node ls d)"

text \<open>The range of the next query from the cursor and the head: \<open>None\<close> when no block is final.\<close>

definition next_range :: "int \<Rightarrow> u64 \<Rightarrow> (int \<times> int) option" where
  "next_range cursor head =
     (let safeHead = wrap64 (int64 head - finalityBlocks) in
      if safeHead \<le> cursor then None
      else let fromBlock = wrap64 (cursor + 1)
        in Some (fromBlock, if wrap64 (safeHead - fromBlock) > maxBlockRange
             then wrap64 (fromBlock + maxBlockRange) else safeHead))"

definition ej_poll :: "eth_node \<Rightarrow> db \<Rightarrow> db" where
  "ej_poll node d = (case getIndexerCursor ejectionIndexerName d of
     (Inl _, d1) \<Rightarrow> d1
   | (Inr cursor, d1) \<Rightarrow> (case en_head node of
       Inl _ \<Rightarrow> d1
     | Inr head \<Rightarrow> (case next_range cursor head of
         None \<Rightarrow> d1
       | Some (fromBlock, toBlock) \<Rightarrow> (case en_logs node fromBlock toBlock of
           Inl _ \<Rightarrow> d1
         | Inr logs \<Rightarrow> snd (updateIndexerCursor ejectionIndexerName toBlock (record_logs node logs d1))))))"

text \<open>\<open>Run\<close>: the contract is resolved once, then one poll at the start and one per tick.\<close>

definition ej_run :: "(string \<Rightarrow> address abi_reply) \<Rightarrow> eth_node list \<Rightarrow> db \<Rightarrow> db" where
  "ej_run directory nodes d = (case resolveAddress directory ''EJECTION_MANAGER'' of
     Inl _ \<Rightarrow> d
   | Inr _ \<Rightarrow> fold ej_poll nodes d)"

subsection \<open>The range\<close>

lemma int64_wrap_head: "64 \<le> uint head \<Longrightarrow> uint head < 2 ^ 63 \<Longrightarrow> wrap64 (int64 head - finalityBlocks) = uint head - 64"
  by (simp add: int64_small finalityBlocks_def wrap64_id)

text \<open>For a head and a cursor in the positive range no operation wraps.\<close>

lemma next_range_alt:
  assumes "0 \<le> cursor" and "uint head < 2 ^ 63"
  shows "next_range cursor head = (if uint head - 64 \<le> cursor then None
    else Some (cursor + 1, min (uint head - 64) (cursor + 10001)))"
proof -
  have "wrap64 (int64 head - finalityBlocks) = uint head - 64"
    using assms(2) by (simp add: int64_small finalityBlocks_def wrap64_id)
  moreover have "\<not> uint head - 64 \<le> cursor \<Longrightarrow> wrap64 (cursor + 1) = cursor + 1"
    and "\<not> uint head - 64 \<le> cursor \<Longrightarrow> wrap64 (uint head - 64 - (cursor + 1)) = uint head - 64 - (cursor + 1)"
    using assms by (simp_all add: wrap64_id)
  moreover have "uint head - 64 - (cursor + 1) > 10000 \<Longrightarrow> wrap64 (cursor + 1 + 10000) = cursor + 1 + 10000"
    using assms by (simp add: wrap64_id)
  ultimately show ?thesis by (auto simp: next_range_def Let_def maxBlockRange_def min_def)
qed

lemma next_range_bounds:
  assumes "next_range cursor head = Some (a, b)" and "0 \<le> cursor" and "uint head < 2 ^ 63"
  shows "a = cursor + 1" "a \<le> b" "b \<le> uint head - 64" "b - a \<le> 10000"
  using assms(1) by (auto simp: next_range_alt [OF assms(2,3)] split: if_splits)

subsection \<open>What a poll does to the store\<close>

definition range_events :: "eth_node \<Rightarrow> eth_log list \<Rightarrow> EjectionEvent list" where
  "range_events node logs = map (log_event node) (filter has_operator logs)"

lemma record_logs_fold:
  "record_logs node logs d = fold (\<lambda>e d. snd (insertEjectionEvent e d)) (range_events node logs) d"
  by (induction logs arbitrary: d) (simp_all add: range_events_def)

text \<open>A poll either only costs a statement, or is one round of the store.\<close>

lemma ej_poll_cases:
  obtains (idle) "ej_poll node d = d\<lparr>stmts := Suc (stmts d)\<rparr>"
  | (round) a b logs head where "en_head node = Inr head" and "acked d"
      and "next_range (cursor_value ejectionIndexerName d) head = Some (a, b)"
      and "en_logs node a b = Inr logs"
      and "ej_poll node d = snd (updateIndexerCursor ejectionIndexerName b
        (fold (\<lambda>e d. snd (insertEjectionEvent e d)) (range_events node logs) (d\<lparr>stmts := Suc (stmts d)\<rparr>)))"
proof (cases "acked d")
  case False
  then have "getIndexerCursor ejectionIndexerName d = (Inl Unavailable, d\<lparr>stmts := Suc (stmts d)\<rparr>)"
    by (intro prod_eqI) (simp_all add: getIndexerCursor_fst)
  then show ?thesis by (intro idle) (simp add: ej_poll_def)
next
  case True
  then have g: "getIndexerCursor ejectionIndexerName d =
      (Inr (cursor_value ejectionIndexerName d), d\<lparr>stmts := Suc (stmts d)\<rparr>)"
    by (intro prod_eqI) (simp_all add: getIndexerCursor_fst)
  show ?thesis
  proof (cases "en_head node")
    case (Inl e)
    then show ?thesis by (intro idle) (simp add: ej_poll_def g)
  next
    case (Inr head)
    note h = this
    show ?thesis
    proof (cases "next_range (cursor_value ejectionIndexerName d) head")
      case None
      then show ?thesis by (intro idle) (simp add: ej_poll_def g h)
    next
      case (Some r)
      obtain a b where r: "r = (a, b)" by fastforce
      show ?thesis
        using Some r h True round [of head a b] idle
        by (cases "en_logs node a b") (simp_all add: ej_poll_def g record_logs_fold)
    qed
  qed
qed

definition sound_node :: "eth_node \<Rightarrow> bool" where
  "sound_node node \<longleftrightarrow> (case en_head node of Inl _ \<Rightarrow> True | Inr h \<Rightarrow> uint h < 2 ^ 63)"

definition node_final :: "eth_node \<Rightarrow> int" where
  "node_final node = (case en_head node of Inl _ \<Rightarrow> 0 | Inr h \<Rightarrow> uint h - finalityBlocks)"

lemma events_distinct_fold:
  "distinct (map event_id (ejection_events d)) \<Longrightarrow>
   distinct (map event_id (ejection_events (fold (\<lambda>e d. snd (insertEjectionEvent e d)) es d)))"
  by (induction es arbitrary: d) (simp_all add: insertEjectionEvent_distinct)

text \<open>The state only moves forward, up to a limit on the cursor.\<close>

definition forward :: "int \<Rightarrow> db \<Rightarrow> db \<Rightarrow> bool" where
  "forward limit d e \<longleftrightarrow>
     cursor_value ejectionIndexerName d \<le> cursor_value ejectionIndexerName e \<and>
     cursor_value ejectionIndexerName e \<le> max (cursor_value ejectionIndexerName d) limit \<and>
     event_ids d \<subseteq> event_ids e \<and>
     (distinct (map event_id (ejection_events d)) \<longrightarrow> distinct (map event_id (ejection_events e)))"

lemma forward_refl: "forward limit d d"
  by (simp add: forward_def)

lemma forward_trans: "forward limit d e \<Longrightarrow> forward limit e f \<Longrightarrow> forward limit d f"
  by (auto simp: forward_def)

lemma forward_mono: "forward limit d e \<Longrightarrow> limit \<le> limit' \<Longrightarrow> forward limit' d e"
  by (auto simp: forward_def)

lemma ej_poll_forward:
  assumes "sound_node node" and "0 \<le> cursor_value ejectionIndexerName d"
  shows "forward (node_final node) d (ej_poll node d)"
proof (cases rule: ej_poll_cases [of node d])
  case idle
  then show ?thesis by (simp add: forward_def)
next
  case (round a b logs head)
  let ?d = "d\<lparr>stmts := Suc (stmts d)\<rparr>"
  have h: "uint head < 2 ^ 63" using assms(1) round(1) by (simp add: sound_node_def)
  note r = next_range_bounds [OF round(3) assms(2) h]
  have le: "cursor_value ejectionIndexerName ?d \<le> b" using r by simp
  have limit: "b \<le> node_final node" using r(3) round(1) by (simp add: node_final_def finalityBlocks_def)
  show ?thesis
    using ejection_store.round_cursor [OF le, of "range_events node logs"]
      ejection_store.round_ids(1) [of ?d ejectionIndexerName b "range_events node logs"]
      events_distinct_fold [of ?d "range_events node logs"] limit
    by (auto simp: forward_def round(5))
qed

lemma ej_polls_forward:
  assumes "\<forall>node \<in> set nodes. sound_node node \<and> node_final node \<le> limit" and "0 \<le> cursor_value ejectionIndexerName d"
  shows "forward limit d (fold ej_poll nodes d)"
  using assms
proof (induction nodes arbitrary: d)
  case (Cons node nodes)
  have f: "forward limit d (ej_poll node d)"
    using ej_poll_forward [of node d] forward_mono Cons.prems by auto
  then have "0 \<le> cursor_value ejectionIndexerName (ej_poll node d)" using Cons.prems(2) by (simp add: forward_def)
  then show ?case using Cons f forward_trans by auto
qed (simp add: forward_refl)

subsection \<open>A reliable database\<close>

lemma updateIndexerCursor_acked:
  assumes "fate d = (\<lambda>_. Acked)" and "migrated d" and "- (2 ^ 63) \<le> b" and "b < 2 ^ 63"
  shows "cursor_value ejectionIndexerName (snd (updateIndexerCursor ejectionIndexerName b d)) = b"
  using assms by (simp add: updateIndexerCursor_def exec_def Let_def accepts_cursor ejectionIndexerName_def cursor_value_def)

lemma insertEjectionEvent_acked_ids:
  "fate d = (\<lambda>_. Acked) \<Longrightarrow> accepts ''ejection_events'' (ejection_values e) d \<Longrightarrow>
     event_ids (snd (insertEjectionEvent e d)) = insert (event_id e) (event_ids d)"
  using add_event_ids [of e "ejection_events d"]
  by (simp add: insertEjectionEvent_def exec_def Let_def event_ids_def del: set_map)

lemma record_acked:
  assumes "fate d = (\<lambda>_. Acked)" and "\<forall>e \<in> set es. accepts ''ejection_events'' (ejection_values e) d"
  shows "event_ids (fold (\<lambda>e d. snd (insertEjectionEvent e d)) es d) = event_ids d \<union> event_id ` set es \<and>
    fate (fold (\<lambda>e d. snd (insertEjectionEvent e d)) es d) = (\<lambda>_. Acked) \<and>
    catalog (fold (\<lambda>e d. snd (insertEjectionEvent e d)) es d) = catalog d"
  using assms
proof (induction es arbitrary: d)
  case (Cons e es)
  have "\<forall>x \<in> set es. accepts ''ejection_events'' (ejection_values x) (snd (insertEjectionEvent e d))"
    using Cons.prems(2) by (simp add: accepts_def)
  then show ?case using Cons by (simp add: insertEjectionEvent_acked_ids)
qed simp

lemma ej_poll_acked:
  assumes "fate d = (\<lambda>_. Acked)" and "migrated d" and "0 \<le> cursor_value ejectionIndexerName d"
    and "en_head node = Inr head" and "uint head < 2 ^ 63" and "cursor_value ejectionIndexerName d < uint head - 64"
    and "en_logs node (cursor_value ejectionIndexerName d + 1) (min (uint head - 64) (cursor_value ejectionIndexerName d + 10001)) = Inr logs"
    and "\<forall>e \<in> set (range_events node logs). accepts ''ejection_events'' (ejection_values e) d"
  shows "cursor_value ejectionIndexerName (ej_poll node d) = min (uint head - 64) (cursor_value ejectionIndexerName d + 10001)"
    and "event_ids (ej_poll node d) = event_ids d \<union> event_id ` set (range_events node logs)"
    and "fate (ej_poll node d) = (\<lambda>_. Acked)" and "migrated (ej_poll node d)"
proof -
  let ?d = "d\<lparr>stmts := Suc (stmts d)\<rparr>"
  let ?b = "min (uint head - 64) (cursor_value ejectionIndexerName d + 10001)"
  let ?r = "fold (\<lambda>e d. snd (insertEjectionEvent e d)) (range_events node logs) ?d"
  have "getIndexerCursor ejectionIndexerName d = (Inr (cursor_value ejectionIndexerName d), ?d)"
    using assms(1) by (intro prod_eqI) (simp_all add: getIndexerCursor_fst acked_def)
  moreover have "next_range (cursor_value ejectionIndexerName d) head = Some (cursor_value ejectionIndexerName d + 1, ?b)"
    using assms(6) by (simp add: next_range_alt [OF assms(3,5)])
  ultimately have p: "ej_poll node d = snd (updateIndexerCursor ejectionIndexerName ?b ?r)"
    using assms(4,7) by (simp add: ej_poll_def record_logs_fold)
  have "\<forall>e \<in> set (range_events node logs). accepts ''ejection_events'' (ejection_values e) ?d"
    using assms(8) by (simp add: accepts_def)
  then have r: "event_ids ?r = event_ids d \<union> event_id ` set (range_events node logs)"
    "fate ?r = (\<lambda>_. Acked)" "catalog ?r = catalog d"
    using record_acked [of ?d "range_events node logs"] assms(1) by simp_all
  then have m: "migrated ?r" using assms(2) by (simp add: migrated_def)
  show "cursor_value ejectionIndexerName (ej_poll node d) = ?b" unfolding p
    using r(2) m assms(3,5,6) by (intro updateIndexerCursor_acked) auto
  show "event_ids (ej_poll node d) = event_ids d \<union> event_id ` set (range_events node logs)"
    unfolding p using r(1) by (simp add: ejection_store.ids_advance)
  show "fate (ej_poll node d) = (\<lambda>_. Acked)" "migrated (ej_poll node d)"
    unfolding p using r m by (simp_all add: migrated_def)
qed

subsection \<open>Properties\<close>

text \<open>C8: Whatever the connection loses and the node answers, over any number of polls the
  cursor never moves back and never passes the highest block that is 64 deep below a head
  the node reported, no recorded event disappears, and no (transaction, log index) pair is
  ever recorded twice.\<close>

theorem ejection_polls_safe:
  assumes "\<forall>node \<in> set nodes. sound_node node \<and> node_final node \<le> limit"
    and "0 \<le> cursor_value ejectionIndexerName d" and "distinct (map event_id (ejection_events d))"
  shows "cursor_value ejectionIndexerName d \<le> cursor_value ejectionIndexerName (fold ej_poll nodes d) \<and>
    cursor_value ejectionIndexerName (fold ej_poll nodes d) \<le> max (cursor_value ejectionIndexerName d) limit \<and>
    event_ids d \<subseteq> event_ids (fold ej_poll nodes d) \<and>
    distinct (map event_id (ejection_events (fold ej_poll nodes d)))"
  using ej_polls_forward [OF assms(1,2)] assms(3) by (simp add: forward_def)

definition demo_log :: "u64 \<Rightarrow> eth_log" where
  "demo_log b = \<lparr>lg_Topics = [replicate 32 1, replicate 32 2], lg_Data = replicate 31 0 @ [1],
     lg_BlockNumber = b, lg_TxHash = replicate 32 (ucast b), lg_Index = 4\<rparr>"

definition demo_node :: "u64 \<Rightarrow> eth_node" where
  "demo_node head = \<lparr>en_head = Inr head, en_logs = (\<lambda>a b. Inr (if a \<le> 150 \<and> 150 \<le> b then [demo_log 150] else [])),
     en_blockTime = (\<lambda>_. Inr 1700000000), en_now = 0\<rparr>"

theorem ejection_polls_safe_witness:
  "cursor_value ejectionIndexerName (fold ej_poll [demo_node 1000, demo_node 5000] (fresh_db\<lparr>fate := (\<lambda>n. if even n then AckLost else Acked)\<rparr>)) \<le> 4936 \<and>
   distinct (map event_id (ejection_events (fold ej_poll [demo_node 1000, demo_node 5000]
     (fresh_db\<lparr>fate := (\<lambda>n. if even n then AckLost else Acked)\<rparr>))))"
  using ejection_polls_safe [of "[demo_node 1000, demo_node 5000]" 4936 "fresh_db\<lparr>fate := (\<lambda>n. if even n then AckLost else Acked)\<rparr>"]
  by (simp add: demo_node_def sound_node_def node_final_def finalityBlocks_def cursor_value_def fresh_db empty_db_def)

text \<open>C9: A poll of a reliable database and node advances the cursor to the lower of the last
  final block and 10001 blocks on, and records exactly the events of the blocks in between:
  consecutive polls scan adjoining ranges, with no block left out and none scanned twice.\<close>

theorem ejection_poll_complete:
  assumes "fate d = (\<lambda>_. Acked)" and "migrated d" and "cursor_value ejectionIndexerName d = c" and "0 \<le> c"
    and "en_head node = Inr head" and "uint head < 2 ^ 63" and "c < uint head - 64"
    and "en_logs node (c + 1) (min (uint head - 64) (c + 10001)) = Inr logs"
    and "\<forall>l \<in> set logs. has_operator l \<longrightarrow> accepts ''ejection_events'' (ejection_values (log_event node l)) d"
  shows "cursor_value ejectionIndexerName (ej_poll node d) = min (uint head - 64) (c + 10001) \<and>
    event_ids (ej_poll node d) = event_ids d \<union> {event_id (log_event node l) |l. l \<in> set logs \<and> has_operator l}"
  using ej_poll_acked [OF assms(1,2) _ assms(5,6), unfolded assms(3), OF assms(4,7,8)] assms(9)
  by (auto simp: range_events_def)

theorem ejection_poll_complete_witness:
  "cursor_value ejectionIndexerName (ej_poll (demo_node 50000) fresh_db) = 10001 \<and>
   event_ids (ej_poll (demo_node 50000) fresh_db) = {(''0x'' @ hex_encode (replicate 32 150), 4)}"
proof -
  have c: "cursor_value ejectionIndexerName fresh_db = 0" "event_ids fresh_db = {}"
    by (simp_all add: cursor_value_def event_ids_def fresh_db empty_db_def)
  have "accepts ''ejection_events'' (ejection_values (log_event (demo_node 50000) (demo_log 150))) fresh_db"
    by (simp add: accepts_ejection log_event_def demo_log_def demo_node_def int64_small nth_append)
  moreover have "has_operator (demo_log 150)" "event_id (log_event (demo_node 50000) (demo_log 150)) = (''0x'' @ hex_encode (replicate 32 150), 4)"
    by (simp_all add: has_operator_def demo_log_def event_id_def log_event_def int64_small)
  ultimately show ?thesis
    using ejection_poll_complete [OF fresh_db_fate fresh_db_migrated c(1), of "demo_node 50000" 50000 "[demo_log 150]"]
    by (simp add: demo_node_def c)
qed

text \<open>A node that stays at one head and answers every query with logs the database accepts.\<close>

definition steady_node :: "u64 \<Rightarrow> eth_node \<Rightarrow> db \<Rightarrow> bool" where
  "steady_node head node d \<longleftrightarrow> en_head node = Inr head \<and> uint head < 2 ^ 63 \<and>
     (\<forall>a b. \<exists>logs. en_logs node a b = Inr logs \<and>
       (\<forall>l \<in> set logs. has_operator l \<longrightarrow> accepts ''ejection_events'' (ejection_values (log_event node l)) d))"

lemma accepts_migrated: "migrated d \<Longrightarrow> migrated e \<Longrightarrow> accepts t v d = accepts t v e"
  by (simp add: accepts_def migrated_def)

lemma ej_poll_steady:
  assumes "fate d = (\<lambda>_. Acked)" and "migrated d" and "0 \<le> cursor_value ejectionIndexerName d" and "steady_node head node d"
  shows "cursor_value ejectionIndexerName (ej_poll node d) =
      (if cursor_value ejectionIndexerName d < uint head - 64
       then min (uint head - 64) (cursor_value ejectionIndexerName d + 10001) else cursor_value ejectionIndexerName d) \<and>
    fate (ej_poll node d) = (\<lambda>_. Acked) \<and> migrated (ej_poll node d)"
proof (cases "cursor_value ejectionIndexerName d < uint head - 64")
  case True
  obtain logs where l: "en_logs node (cursor_value ejectionIndexerName d + 1) (min (uint head - 64) (cursor_value ejectionIndexerName d + 10001)) = Inr logs"
    "\<forall>l \<in> set logs. has_operator l \<longrightarrow> accepts ''ejection_events'' (ejection_values (log_event node l)) d"
    using assms(4) unfolding steady_node_def by blast
  have h: "en_head node = Inr head" "uint head < 2 ^ 63" using assms(4) by (simp_all add: steady_node_def)
  have "\<forall>e \<in> set (range_events node logs). accepts ''ejection_events'' (ejection_values e) d"
    using l(2) by (auto simp: range_events_def)
  from ej_poll_acked [OF assms(1-3) h True l(1) this] True show ?thesis by simp
next
  case False
  then have "next_range (cursor_value ejectionIndexerName d) head = None"
    using assms(3,4) by (simp add: next_range_alt steady_node_def)
  then have "ej_poll node d = d\<lparr>stmts := Suc (stmts d)\<rparr>"
    using assms(4) by (cases rule: ej_poll_cases [of node d]) (auto simp: steady_node_def)
  then show ?thesis using False assms(1,2) by (simp add: migrated_def)
qed

lemma ej_polls_steady:
  assumes "fate d = (\<lambda>_. Acked)" and "migrated d" and "0 \<le> cursor_value ejectionIndexerName d" and "steady_node head node d"
    and "cursor_value ejectionIndexerName d \<le> uint head - 64"
  shows "cursor_value ejectionIndexerName ((ej_poll node ^^ n) d) = min (uint head - 64) (cursor_value ejectionIndexerName d + 10001 * int n) \<and>
    fate ((ej_poll node ^^ n) d) = (\<lambda>_. Acked) \<and> migrated ((ej_poll node ^^ n) d)"
proof (induction n)
  case 0
  show ?case using assms by simp
next
  case (Suc n)
  let ?e = "(ej_poll node ^^ n) d"
  have "steady_node head node ?e"
    using assms(2,4) Suc accepts_migrated [of ?e d] by (simp add: steady_node_def)
  with ej_poll_steady [of ?e head node] Suc assms(3,5) show ?case by (auto simp: min_def)
qed

text \<open>C10: Catching up: against a database and a node that answer, with the head at block
  \<open>h\<close>, the cursor reaches the last final block \<open>h - 64\<close> after the number of polls it takes
  to cover the distance in ranges of 10001 blocks, and stays there.\<close>

theorem ejection_catches_up:
  assumes "fate d = (\<lambda>_. Acked)" and "migrated d" and "0 \<le> cursor_value ejectionIndexerName d" and "steady_node head node d"
    and "cursor_value ejectionIndexerName d \<le> uint head - 64"
    and "uint head - 64 - cursor_value ejectionIndexerName d \<le> 10001 * int n"
  shows "cursor_value ejectionIndexerName ((ej_poll node ^^ n) d) = uint head - 64"
  using ej_polls_steady [OF assms(1-5), of n] assms(6) by simp

theorem ejection_catches_up_witness:
  "cursor_value ejectionIndexerName ((ej_poll (demo_node 25000) ^^ 3) fresh_db) = 24936"
proof -
  have "steady_node 25000 (demo_node 25000) fresh_db"
    by (simp add: steady_node_def demo_node_def accepts_ejection log_event_def demo_log_def int64_small nth_append)
  then show ?thesis
    using ejection_catches_up [OF fresh_db_fate fresh_db_migrated, of 25000 "demo_node 25000" 3]
    by (simp add: cursor_value_def fresh_db empty_db_def)
qed

lemma record_refused:
  assumes "\<forall>i < length es. fate d (stmts d + i) = Refused"
  shows "fold (\<lambda>e d. snd (insertEjectionEvent e d)) es d = d\<lparr>stmts := stmts d + length es\<rparr>"
  using assms
proof (induction es arbitrary: d)
  case (Cons e es)
  have "fate d (stmts d) = Refused" using Cons.prems by (auto dest: spec [of _ 0])
  then have "snd (insertEjectionEvent e d) = d\<lparr>stmts := Suc (stmts d)\<rparr>"
    by (simp add: insertEjectionEvent_def exec_def Let_def)
  moreover have "\<forall>i < length es. fate d (Suc (stmts d) + i) = Refused"
  proof (intro allI impI)
    fix i assume "i < length es"
    then show "fate d (Suc (stmts d) + i) = Refused" using Cons.prems by (auto dest: spec [of _ "Suc i"])
  qed
  ultimately show ?case using Cons.IH [of "d\<lparr>stmts := Suc (stmts d)\<rparr>"] by simp
qed simp

text \<open>C26: The cursor advances even if the events were not stored: when the database refuses the
  inserts of a poll and then accepts the cursor update, the events of that range are missing
  and, the cursor being past them, no later poll asks for their blocks again.\<close>

theorem ejection_events_lost:
  assumes "migrated d" and "cursor_value ejectionIndexerName d = c" and "0 \<le> c"
    and "en_head node = Inr head" and "uint head < 2 ^ 63" and "c < uint head - 64"
    and "en_logs node (c + 1) (min (uint head - 64) (c + 10001)) = Inr logs"
    and "fate d (stmts d) = Acked" and "\<forall>i < length (filter has_operator logs). fate d (Suc (stmts d) + i) = Refused"
    and "fate d (Suc (stmts d) + length (filter has_operator logs)) = Acked"
  shows "cursor_value ejectionIndexerName (ej_poll node d) = min (uint head - 64) (c + 10001) \<and>
    ejection_events (ej_poll node d) = ejection_events d \<and>
    (\<forall>h a b. next_range (cursor_value ejectionIndexerName (ej_poll node d)) h = Some (a, b) \<longrightarrow> uint h < 2 ^ 63 \<longrightarrow>
       min (uint head - 64) (c + 10001) < a)"
proof -
  let ?d = "d\<lparr>stmts := Suc (stmts d)\<rparr>"
  let ?b = "min (uint head - 64) (c + 10001)"
  let ?r = "d\<lparr>stmts := Suc (stmts d) + length (filter has_operator logs)\<rparr>"
  have "getIndexerCursor ejectionIndexerName d = (Inr c, ?d)"
    using assms(2,8) by (intro prod_eqI) (simp_all add: getIndexerCursor_fst acked_def)
  moreover have "next_range c head = Some (c + 1, ?b)" using assms(6) by (simp add: next_range_alt [OF assms(3,5)])
  moreover have "fold (\<lambda>e d. snd (insertEjectionEvent e d)) (range_events node logs) ?d = ?r"
    using record_refused [of "range_events node logs" ?d] assms(9) by (simp add: range_events_def)
  ultimately have p: "ej_poll node d = snd (updateIndexerCursor ejectionIndexerName ?b ?r)"
    using assms(4,7) by (simp add: ej_poll_def record_logs_fold)
  have "migrated ?r" using assms(1) by (simp add: migrated_def)
  then have v: "cursor_value ejectionIndexerName (ej_poll node d) = ?b" "ejection_events (ej_poll node d) = ejection_events d"
    using assms(3,5,6,10) unfolding p
    by (simp_all add: updateIndexerCursor_def exec_def Let_def accepts_cursor ejectionIndexerName_def cursor_value_def min_less_iff_disj)
  have "0 \<le> ?b" using assms(3,6) by simp
  then have "\<And>h a b'. next_range ?b h = Some (a, b') \<Longrightarrow> uint h < 2 ^ 63 \<Longrightarrow> ?b < a"
    using next_range_bounds(1) [OF _ \<open>0 \<le> ?b\<close>] by fastforce
  then show ?thesis unfolding v by blast
qed

theorem ejection_events_lost_witness:
  "cursor_value ejectionIndexerName (ej_poll (demo_node 5000) (fresh_db\<lparr>fate := (\<lambda>n. if n = 2 then Refused else Acked)\<rparr>)) = 4936 \<and>
   ejection_events (ej_poll (demo_node 5000) (fresh_db\<lparr>fate := (\<lambda>n. if n = 2 then Refused else Acked)\<rparr>)) = []"
  using ejection_events_lost [of "fresh_db\<lparr>fate := (\<lambda>n. if n = 2 then Refused else Acked)\<rparr>" 0 "demo_node 5000" 5000 "[demo_log 150]"]
  by (simp add: migrated_def fresh_db empty_db_def cursor_value_def demo_node_def demo_log_def has_operator_def)

end
