(* ===== verification/Monitor.thy ===== *)
theory Monitor
  imports Config HealthRecorder Reverifier StakeIndexer OperatorStatus WriteProber EjectionIndexer
begin

text \<open>
  Start-up (cmd/prober/main.go) and the worker manager (internal/worker/manager.go): which
  workers are registered, in which order and with which settings, when the process refuses to
  start, and what then happens to it: a worker whose ticker gets no positive interval panics
  and takes the process with it, and \<open>main\<close> returns as soon as every worker has returned.
\<close>

subsection \<open>Workers and the manager\<close>

text \<open>A registered worker with the arguments of its constructor that come from the configuration.\<close>

datatype worker =
    BlobCollector int
  | RelayVerifier bool int
  | OperatorVerifier
  | Reverifier int
  | StakeIndexer int
  | EjectionIndexer int
  | WriteProber write_prober int
  | OperatorStatusWorker int
  | HealthRecorder int

text \<open>The methods \<open>Name\<close>.\<close>

fun worker_name :: "worker \<Rightarrow> string" where
  "worker_name (BlobCollector _) = ''collector''"
| "worker_name (RelayVerifier _ _) = ''relay-verifier''"
| "worker_name OperatorVerifier = ''operator-verifier''"
| "worker_name (Reverifier _) = ''reverifier''"
| "worker_name (StakeIndexer _) = ''stake-indexer''"
| "worker_name (EjectionIndexer _) = ''ejection-indexer''"
| "worker_name (WriteProber _ _) = ''write-prober''"
| "worker_name (OperatorStatusWorker _) = ''operator-status''"
| "worker_name (HealthRecorder _) = ''health-recorder''"

type_synonym manager = "worker list"

definition newManager :: manager where
  "newManager = []"

definition register :: "worker \<Rightarrow> manager \<Rightarrow> manager" where
  "register w m = m @ [w]"

subsection \<open>Start-up\<close>

text \<open>What the outside answers while \<open>main\<close> starts.\<close>

record main_env =
  mn_vars :: environment
  mn_open :: "unit go_result"
  mn_ping :: "unit go_result"
  mn_db :: db
  mn_dial :: "unit go_result"
  mn_names :: "string list abi_reply"
  mn_directory :: "string \<Rightarrow> address abi_reply"
  mn_dispersal :: disperse_env

text \<open>\<open>db.New\<close>: opening a connection pool and a ping; the pool's sizes are settings of the library.\<close>

definition newDB :: "unit go_result \<Rightarrow> unit go_result \<Rightarrow> unit go_result" where
  "newDB opened pinged = (case opened of
     Inl err \<Rightarrow> Inl (''open db: '' @ err)
   | Inr _ \<Rightarrow> (case pinged of Inl err \<Rightarrow> Inl (''ping db: '' @ err) | Inr _ \<Rightarrow> Inr ()))"

datatype startup = Fatal string | Started config manager db

definition rpc_configured :: "config \<Rightarrow> bool" where
  "rpc_configured cfg \<longleftrightarrow> cf_EthRPCURL cfg \<noteq> '''' \<and> cf_EigenDADirectory cfg \<noteq> ''''"

text \<open>The shared client: a failed dial is only a warning.\<close>

definition eth_connected :: "main_env \<Rightarrow> config \<Rightarrow> bool" where
  "eth_connected e cfg \<longleftrightarrow> rpc_configured cfg \<and> (case mn_dial e of Inl _ \<Rightarrow> False | Inr _ \<Rightarrow> True)"

text \<open>The relay registry: \<open>None\<close> without RPC, and fatal when it cannot be resolved.\<close>

definition open_registry :: "main_env \<Rightarrow> config \<Rightarrow> registry option go_result" where
  "open_registry e cfg =
     (if rpc_configured cfg then
        (case newFromDirectory (mn_dial e) (mn_names e) (mn_directory e) (cf_EigenDADirectory cfg) of
           Inl err \<Rightarrow> Inl (''failed to resolve relay registry: '' @ err)
         | Inr r \<Rightarrow> Inr (Some r))
      else Inr None)"

text \<open>The operator discovery: only for two of the three workers that use it.\<close>

definition open_discovery :: "main_env \<Rightarrow> config \<Rightarrow> discovery option" where
  "open_discovery e cfg =
     (if (cf_OperatorVerifierEnabled cfg \<or> cf_StakeIndexerEnabled cfg) \<and> rpc_configured cfg then
        (case connectDiscovery (mn_dial e) (mn_directory e) of Inl _ \<Rightarrow> None | Inr di \<Rightarrow> Some di)
      else None)"

definition register_if :: "bool \<Rightarrow> worker \<Rightarrow> manager \<Rightarrow> manager" where
  "register_if b w m = (if b then register w m else m)"

definition register_workers :: "main_env \<Rightarrow> config \<Rightarrow> bool \<Rightarrow> registry option \<Rightarrow> discovery option \<Rightarrow> manager" where
  "register_workers e cfg eth reg disc =
     (let m = register_if (cf_CollectorEnabled cfg) (BlobCollector (cf_CollectorPollInterval cfg)) newManager;
          m = register_if (cf_RelayVerifierEnabled cfg \<and> reg \<noteq> None)
                (RelayVerifier (cf_KZGVerifyEnabled cfg) (cf_RelayVerifierParallel cfg)) m;
          m = register_if (cf_OperatorVerifierEnabled cfg \<and> disc \<noteq> None) OperatorVerifier m;
          m = register_if (cf_ReverifierEnabled cfg \<and> reg \<noteq> None) (Reverifier (cf_ReverifierInterval cfg)) m;
          m = register_if (cf_StakeIndexerEnabled cfg \<and> eth \<and> disc \<noteq> None) (StakeIndexer (cf_StakeIndexerInterval cfg)) m;
          m = register_if (cf_EjectionIndexerEnabled cfg \<and> eth) (EjectionIndexer (cf_EjectionPollInterval cfg)) m;
          m = register_if (cf_WriteProberEnabled cfg)
                (WriteProber (newWriteProber (cf_EigenDAProxyURL cfg) (cf_DisperserAccountID cfg)) (cf_WriteProberInterval cfg)) m;
          m = register_if (cf_OperatorStatusEnabled cfg \<and> eth \<and> disc \<noteq> None \<and>
                (case resolveAddress (mn_directory e) ''REGISTRY_COORDINATOR'' of Inl _ \<Rightarrow> False | Inr _ \<Rightarrow> True))
                (OperatorStatusWorker (cf_OperatorStatusInterval cfg)) m
      in register_if (cf_HealthRecorderEnabled cfg) (HealthRecorder (cf_HealthRecorderInterval cfg)) m)"

definition startup :: "main_env \<Rightarrow> startup" where
  "startup e = (let cfg = load (mn_vars e) in
     case newDB (mn_open e) (mn_ping e) of
       Inl err \<Rightarrow> Fatal (''failed to connect to database: '' @ err)
     | Inr _ \<Rightarrow> (case runMigrations (mn_db e) of
         (Some _, _) \<Rightarrow> Fatal ''failed to run migrations''
       | (None, d) \<Rightarrow> (case open_registry e cfg of
           Inl err \<Rightarrow> Fatal err
         | Inr reg \<Rightarrow>
             Started cfg (register_workers e cfg (eth_connected e cfg) reg (open_discovery e cfg)) d)))"

subsection \<open>What becomes of the process\<close>

text \<open>\<open>time.NewTicker\<close> panics unless the interval is positive.\<close>

definition new_ticker :: "int \<Rightarrow> bool outcome" where
  "new_ticker interval = (if interval \<le> 0 then Panic ''non-positive interval for NewTicker'' else Done True)"

text \<open>
  A worker's \<open>Run\<close> up to its loop: whether it enters the loop or returns. The collector, the
  relay verifier and the operator verifier have no ticker; the two indexers return when their
  contract cannot be resolved; the write prober without a proxy returns, and otherwise makes
  its first dispersal before it creates the ticker (whether that panics does not depend on the
  database, so the one of the start stands for the one it meets).
\<close>

fun run_prologue :: "main_env \<Rightarrow> worker \<Rightarrow> bool outcome" where
  "run_prologue e (BlobCollector _) = Done True"
| "run_prologue e (RelayVerifier _ _) = Done True"
| "run_prologue e OperatorVerifier = Done True"
| "run_prologue e (Reverifier i) = new_ticker i"
| "run_prologue e (StakeIndexer i) = (case resolveAddress (mn_directory e) ''STAKE_REGISTRY'' of
     Inl _ \<Rightarrow> Done False | Inr _ \<Rightarrow> new_ticker i)"
| "run_prologue e (EjectionIndexer i) = (case resolveAddress (mn_directory e) ''EJECTION_MANAGER'' of
     Inl _ \<Rightarrow> Done False | Inr _ \<Rightarrow> new_ticker i)"
| "run_prologue e (WriteProber w i) = (if wp_proxyURL w = '''' then Done False
     else case fst (disperse (mn_dispersal e) w (mn_db e)) of Panic m \<Rightarrow> Panic m | Done _ \<Rightarrow> new_ticker i)"
| "run_prologue e (OperatorStatusWorker i) = new_ticker i"
| "run_prologue e (HealthRecorder i) = new_ticker i"

text \<open>\<open>Manager.Run\<close> with no signal: a panic in any goroutine ends the process; it returns when all workers have.\<close>

datatype process_fate = ExitFatal string | Crashes | Returns | Serves

definition manager_run :: "main_env \<Rightarrow> manager \<Rightarrow> process_fate" where
  "manager_run e m =
     (if \<exists>w \<in> set m. is_panic (run_prologue e w) then Crashes
      else if \<forall>w \<in> set m. run_prologue e w = Done False then Returns
      else Serves)"

definition main_run :: "main_env \<Rightarrow> process_fate" where
  "main_run e = (case startup e of Fatal m \<Rightarrow> ExitFatal m | Started cfg m d \<Rightarrow> manager_run e m)"

subsection \<open>Registration\<close>

lemma names_register_if:
  "map worker_name (register_if b w m) = map worker_name m @ (if b then [worker_name w] else [])"
  by (simp add: register_if_def register_def)

lemma set_register_if: "set (register_if b w m) = set m \<union> (if b then {w} else {})"
  by (auto simp: register_if_def register_def)

definition all_names :: "string list" where
  "all_names = [''collector'', ''relay-verifier'', ''operator-verifier'', ''reverifier'', ''stake-indexer'',
     ''ejection-indexer'', ''write-prober'', ''operator-status'', ''health-recorder'']"

lemma register_workers_names:
  "map worker_name (register_workers e cfg eth reg disc) =
     (if cf_CollectorEnabled cfg then [''collector''] else []) @
     (if cf_RelayVerifierEnabled cfg \<and> reg \<noteq> None then [''relay-verifier''] else []) @
     (if cf_OperatorVerifierEnabled cfg \<and> disc \<noteq> None then [''operator-verifier''] else []) @
     (if cf_ReverifierEnabled cfg \<and> reg \<noteq> None then [''reverifier''] else []) @
     (if cf_StakeIndexerEnabled cfg \<and> eth \<and> disc \<noteq> None then [''stake-indexer''] else []) @
     (if cf_EjectionIndexerEnabled cfg \<and> eth then [''ejection-indexer''] else []) @
     (if cf_WriteProberEnabled cfg then [''write-prober''] else []) @
     (if cf_OperatorStatusEnabled cfg \<and> eth \<and> disc \<noteq> None \<and>
         (case resolveAddress (mn_directory e) ''REGISTRY_COORDINATOR'' of Inl _ \<Rightarrow> False | Inr _ \<Rightarrow> True)
      then [''operator-status''] else []) @
     (if cf_HealthRecorderEnabled cfg then [''health-recorder''] else [])"
  by (simp only: register_workers_def Let_def names_register_if newManager_def worker_name.simps list.map append_Nil append_assoc)

lemma startup_Started:
  assumes "startup e = Started cfg m d"
  obtains reg where "cfg = load (mn_vars e)" and "open_registry e cfg = Inr reg"
    and "m = register_workers e cfg (eth_connected e cfg) reg (open_discovery e cfg)"
    and "(reg \<noteq> None) = rpc_configured cfg"
proof -
  from assms obtain reg where r: "cfg = load (mn_vars e)" "open_registry e cfg = Inr reg"
    "m = register_workers e cfg (eth_connected e cfg) reg (open_discovery e cfg)"
    by (auto simp: startup_def Let_def split: sum.splits prod.splits option.splits)
  moreover have "(reg \<noteq> None) = rpc_configured cfg"
    using r(2) by (auto simp: open_registry_def split: if_splits sum.splits)
  ultimately show ?thesis by (rule that)
qed

lemma subseq_opt: "subseq xs ys \<Longrightarrow> subseq ((if b then [x] else []) @ xs) (x # ys)"
  by (cases b) (auto intro: list_emb_Cons)

lemma set_opt: "x \<in> set (if b then [y] else []) \<longleftrightarrow> b \<and> x = y"
  by (cases b) simp_all

lemma registered_name:
  "x \<in> worker_name ` set (register_workers e cfg eth reg disc) \<longleftrightarrow>
      cf_CollectorEnabled cfg \<and> x = ''collector'' \<or> cf_RelayVerifierEnabled cfg \<and> reg \<noteq> None \<and> x = ''relay-verifier'' \<or>
      cf_OperatorVerifierEnabled cfg \<and> disc \<noteq> None \<and> x = ''operator-verifier'' \<or>
      cf_ReverifierEnabled cfg \<and> reg \<noteq> None \<and> x = ''reverifier'' \<or>
      cf_StakeIndexerEnabled cfg \<and> eth \<and> disc \<noteq> None \<and> x = ''stake-indexer'' \<or>
      cf_EjectionIndexerEnabled cfg \<and> eth \<and> x = ''ejection-indexer'' \<or>
      cf_WriteProberEnabled cfg \<and> x = ''write-prober'' \<or>
      cf_OperatorStatusEnabled cfg \<and> eth \<and> disc \<noteq> None \<and>
        (case resolveAddress (mn_directory e) ''REGISTRY_COORDINATOR'' of Inl _ \<Rightarrow> False | Inr _ \<Rightarrow> True) \<and> x = ''operator-status'' \<or>
      cf_HealthRecorderEnabled cfg \<and> x = ''health-recorder''"
  unfolding set_map [symmetric] register_workers_names set_append Un_iff set_opt conj_assoc by (rule refl)



definition demo_main :: "(string \<Rightarrow> string) \<Rightarrow> main_env" where
  "demo_main vars = \<lparr>mn_vars = vars, mn_open = Inr (), mn_ping = Inr (), mn_db = empty_db, mn_dial = Inr (),
     mn_names = Value [], mn_directory = (\<lambda>_. Value (replicate 20 1)), 
     mn_dispersal = \<lparr>dp_random = Inl ''no entropy'', dp_proxy = (\<lambda>_ _. DoFails ''unused''), dp_latencyMs = 0,
       dp_feeds = [], dp_now = 0\<rparr>\<rparr>"

lemma demo_main_starts: "\<exists>cfg m d. startup (demo_main vars) = Started cfg m d"
proof -
  have "runMigrations empty_db = (None, fresh_db)"
    by (simp add: fresh_db_def runMigrations_def exec_def empty_db_def Let_def)
  moreover have "\<exists>r. open_registry (demo_main vars) cfg = Inr r" for cfg
    by (simp add: open_registry_def newFromDirectory_def demo_main_def relayRegistryNames_def getAddress_def zero_address_def
        getAllNames_def Let_def)
  then obtain r where "open_registry (demo_main vars) (load vars) = Inr r" by blast
  ultimately show ?thesis by (simp add: startup_def newDB_def Let_def demo_main_def)
qed


subsection \<open>The life of the process\<close>

definition interval_vars :: "string set" where
  "interval_vars = {''REVERIFIER_INTERVAL'', ''WRITE_PROBER_INTERVAL'', ''STAKE_INDEXER_INTERVAL'',
     ''EJECTION_POLL_INTERVAL'', ''OPERATOR_STATUS_INTERVAL'', ''HEALTH_RECORDER_INTERVAL''}"

definition toggle_vars :: "string set" where
  "toggle_vars = {''COLLECTOR_ENABLED'', ''RELAY_VERIFIER_ENABLED'', ''OPERATOR_VERIFIER_ENABLED'', ''REVERIFIER_ENABLED'',
     ''WRITE_PROBER_ENABLED'', ''STAKE_INDEXER_ENABLED'', ''EJECTION_INDEXER_ENABLED'', ''OPERATOR_STATUS_ENABLED'',
     ''HEALTH_RECORDER_ENABLED''}"

lemma in_opt: "w \<in> (if b then {v} else {}) \<longleftrightarrow> b \<and> w = v"
  by simp

lemma register_workers_set:
  "w \<in> set (register_workers e cfg eth reg disc) \<Longrightarrow>
     w = BlobCollector (cf_CollectorPollInterval cfg) \<or> w = RelayVerifier (cf_KZGVerifyEnabled cfg) (cf_RelayVerifierParallel cfg) \<or>
     w = OperatorVerifier \<or> w = Reverifier (cf_ReverifierInterval cfg) \<or> w = StakeIndexer (cf_StakeIndexerInterval cfg) \<or>
     w = EjectionIndexer (cf_EjectionPollInterval cfg) \<or>
     w = WriteProber (newWriteProber (cf_EigenDAProxyURL cfg) (cf_DisperserAccountID cfg)) (cf_WriteProberInterval cfg) \<or>
     w = OperatorStatusWorker (cf_OperatorStatusInterval cfg) \<or>
     cf_HealthRecorderEnabled cfg \<and> w = HealthRecorder (cf_HealthRecorderInterval cfg)"
  unfolding register_workers_def Let_def set_register_if newManager_def Un_iff in_opt by simp blast

lemma health_recorder_registered:
  "cf_HealthRecorderEnabled cfg \<Longrightarrow> HealthRecorder (cf_HealthRecorderInterval cfg) \<in> set (register_workers e cfg eth reg disc)"
  by (simp add: register_workers_def Let_def set_register_if)

lemma duration_fallback:
  "getDurationEnv env k 1 > 0 \<Longrightarrow> 0 < fallback \<Longrightarrow> getDurationEnv env k fallback > 0"
  "getDurationEnv env k 1 \<le> 0 \<Longrightarrow> getDurationEnv env k fallback \<le> 0"
  by (auto simp: getDurationEnv_def Let_def split: if_splits option.splits)

lemma default_intervals:
  assumes "\<forall>k \<in> interval_vars. 0 < getDurationEnv env k 1"
  shows "0 < cf_ReverifierInterval (load env) \<and> 0 < cf_WriteProberInterval (load env) \<and> 0 < cf_StakeIndexerInterval (load env) \<and>
    0 < cf_EjectionPollInterval (load env) \<and> 0 < cf_OperatorStatusInterval (load env) \<and> 0 < cf_HealthRecorderInterval (load env)"
  using assms by (simp add: interval_vars_def load_def duration_fallback hours_def minutes_def seconds_def)



end
