(* ===== verification/ApiServer.thy ===== *)
theory ApiServer
  imports DatabaseFacts "HOL-Library.List_Lexorder" "HOL-Library.Char_ord"
begin

text \<open>
  The HTTP handlers of the API server (internal/api/server.go) as functions of the query
  parameters and the database. Times of rows are in microseconds. The server's AVG over an
  integer column is a parameter: the number it gives for the values of a group.
\<close>

subsection \<open>Replies and parameters\<close>

text \<open>\<open>http.Error(w, err.Error(), 500)\<close>, or the value that is encoded.\<close>

datatype 'a reply = ServerError db_error | Payload 'a

text \<open>The parameter \<open>limit\<close>: a number from 1 to the maximum, or the default.\<close>

definition parse_limit :: "int \<Rightarrow> int \<Rightarrow> string \<Rightarrow> int" where
  "parse_limit dflt mx l = (if l = '''' then dflt
     else (case atoi l of (v, err) \<Rightarrow> if \<not> err \<and> 0 < v \<and> v \<le> mx then v else dflt))"

definition parse_hours :: "string \<Rightarrow> int" where
  "parse_hours h = (if h = '''' then 168 else (case atoi h of (v, err) \<Rightarrow> if \<not> err then v else 168))"

subsection \<open>Aggregates\<close>

text \<open>\<open>COUNT(*) FILTER (WHERE success)::float / NULLIF(COUNT(*)::float, 0) * 100\<close>.\<close>

definition success_rate :: "nat \<Rightarrow> nat \<Rightarrow> float64 option" where
  "success_rate successes tot = (if tot = 0 then None
     else Some (fl64 (fl64 (fl64 (of_nat successes) / fl64 (of_nat tot)) * 100)))"

definition hour_us :: int where
  "hour_us = 3600000000"

type_synonym sql_avg = "int list \<Rightarrow> float64"

text \<open>\<open>AVG(x) FILTER (WHERE ..)\<close>: NULL when no row qualifies.\<close>

definition avg_of :: "sql_avg \<Rightarrow> int list \<Rightarrow> float64 option" where
  "avg_of avg xs = (if xs = [] then None else Some (avg xs))"

subsection \<open>Status\<close>

datatype health = Down | Degraded | Healthy

primrec health_rank :: "health \<Rightarrow> nat" where
  "health_rank Down = 0"
| "health_rank Degraded = 1"
| "health_rank Healthy = 2"

text \<open>Health is ordered from bad to good.\<close>

instantiation health :: linorder
begin

definition less_eq_health :: "health \<Rightarrow> health \<Rightarrow> bool" where
  "less_eq_health a b \<longleftrightarrow> health_rank a \<le> health_rank b"

definition less_health :: "health \<Rightarrow> health \<Rightarrow> bool" where
  "less_health a b \<longleftrightarrow> health_rank a < health_rank b"

instance
proof
  fix a b :: health
  show "a \<le> b \<Longrightarrow> b \<le> a \<Longrightarrow> a = b" by (cases a; cases b) (simp_all add: less_eq_health_def)
qed (auto simp: less_eq_health_def less_health_def)

end

primrec health_text :: "health \<Rightarrow> string" where
  "health_text Down = ''down''"
| "health_text Degraded = ''degraded''"
| "health_text Healthy = ''healthy''"

definition determine_status :: "float64 option \<Rightarrow> health" where
  "determine_status rate = (case rate of
     None \<Rightarrow> Healthy
   | Some r \<Rightarrow> if r < 95 then Down else if r < 99 then Degraded else Healthy)"

record statusResp =
  sr_RelaySuccessRate :: "float64 option"
  sr_RelayAvgLatency :: "float64 option"
  sr_RelayProbes :: nat
  sr_OperatorSuccessRate :: "float64 option"
  sr_OperatorAvgLatency :: "float64 option"
  sr_OperatorProbes :: nat
  sr_TotalBlobs :: nat
  sr_RecentBlobs :: nat
  sr_Status :: string

text \<open>A row query whose error is thrown away: the fields keep their zero values.\<close>

definition scan_or :: "'a \<Rightarrow> (db_error + 'a) \<times> db \<Rightarrow> 'a \<times> db" where
  "scan_or z r = (case r of (Inl _, d) \<Rightarrow> (z, d) | (Inr x, d) \<Rightarrow> (x, d))"

definition recent :: "db \<Rightarrow> 'a stamped \<Rightarrow> bool" where
  "recent d r \<longleftrightarrow> fst r > now_of d - hour_us"

definition relay_rows :: "db \<Rightarrow> ProbeResult list" where
  "relay_rows d = map snd (filter (\<lambda>r. recent d r \<and> pr_RelayKey (snd r) \<ge> 0) (retrieval_probes d))"

definition operator_rows :: "db \<Rightarrow> OperatorProbeResult list" where
  "operator_rows d = map snd (filter (recent d) (operator_probes d))"

definition relay_stats :: "sql_avg \<Rightarrow> db \<Rightarrow> float64 option \<times> float64 option \<times> nat" where
  "relay_stats avg d = (let rows = relay_rows d; ok = filter pr_Success rows in
     (success_rate (length ok) (length rows), avg_of avg (map pr_LatencyMs ok), length rows))"

definition operator_stats :: "sql_avg \<Rightarrow> db \<Rightarrow> float64 option \<times> float64 option \<times> nat" where
  "operator_stats avg d = (let rows = operator_rows d; ok = filter op_Success rows in
     (success_rate (length ok) (length rows), avg_of avg (map op_LatencyMs ok), length rows))"

definition handleStatus :: "sql_avg \<Rightarrow> db \<Rightarrow> statusResp \<times> db" where
  "handleStatus avg d =
     (case scan_or (None, None, 0) (query (\<lambda>d. Inr (relay_stats avg d)) d) of ((rate, lat, n), d1) \<Rightarrow>
      case scan_or (None, None, 0) (query (\<lambda>d. Inr (operator_stats avg d)) d1) of ((orate, olat, on), d2) \<Rightarrow>
      case scan_or 0 (query (\<lambda>d. Inr (length (observed_blobs d))) d2) of (blobs, d3) \<Rightarrow>
      case scan_or 0 (query (\<lambda>d. Inr (length (filter (recent d) (observed_blobs d)))) d3) of (rblobs, d4) \<Rightarrow>
        (\<lparr>sr_RelaySuccessRate = rate, sr_RelayAvgLatency = lat, sr_RelayProbes = n,
          sr_OperatorSuccessRate = orate, sr_OperatorAvgLatency = olat, sr_OperatorProbes = on,
          sr_TotalBlobs = blobs, sr_RecentBlobs = rblobs,
          sr_Status = health_text (determine_status rate)\<rparr>, d4))"

subsection \<open>Lists\<close>

record relayStat =
  rs_RelayKey :: int
  rs_Total :: nat
  rs_Successes :: nat
  rs_SuccessRate :: float64
  rs_AvgLatency :: "float64 option"

text \<open>\<open>GROUP BY relay_key ORDER BY relay_key\<close>.\<close>

definition relay_stat :: "sql_avg \<Rightarrow> ProbeResult list \<Rightarrow> int \<Rightarrow> relayStat" where
  "relay_stat avg rows k =
     (let g = filter (\<lambda>p. pr_RelayKey p = k) rows; ok = filter pr_Success g in
      \<lparr>rs_RelayKey = k, rs_Total = length g, rs_Successes = length ok,
       rs_SuccessRate = the (success_rate (length ok) (length g)),
       rs_AvgLatency = avg_of avg (map pr_LatencyMs ok)\<rparr>)"

definition relay_table :: "sql_avg \<Rightarrow> ProbeResult list \<Rightarrow> relayStat list" where
  "relay_table avg rows = map (relay_stat avg rows) (sorted_list_of_set (pr_RelayKey ` set rows))"

definition handleRelays :: "sql_avg \<Rightarrow> db \<Rightarrow> relayStat list reply \<times> db" where
  "handleRelays avg d = (case query (\<lambda>d. Inr (relay_table avg
       (filter (\<lambda>p. pr_RelayKey p \<ge> 0) (map snd (retrieval_probes d))))) d of
     (Inl e, d') \<Rightarrow> (ServerError e, d') | (Inr rs, d') \<Rightarrow> (Payload rs, d'))"

definition handleEjections :: "string \<Rightarrow> db \<Rightarrow> EjectionEvent list reply \<times> db" where
  "handleEjections limitParam d = (case query (\<lambda>d. Inr (take (nat (parse_limit 100 500 limitParam))
       (sort_key (\<lambda>e. - ee_EventTime e) (scan d (ejection_events d))))) d of
     (Inl e, d') \<Rightarrow> (ServerError e, d') | (Inr es, d') \<Rightarrow> (Payload es, d'))"

definition handleProbes :: "string \<Rightarrow> db \<Rightarrow> ProbeResult stamped list reply \<times> db" where
  "handleProbes limitParam d = (case query (\<lambda>d. Inr (take (nat (parse_limit 50 200 limitParam))
       (sort_key (\<lambda>r. - fst r) (scan d (retrieval_probes d))))) d of
     (Inl e, d') \<Rightarrow> (ServerError e, d') | (Inr ps, d') \<Rightarrow> (Payload ps, d'))"

text \<open>\<open>make_interval\<close> takes a 32-bit number of hours, and the difference to NOW() must be a
  timestamp the server can hold (4713 BC to 294276 AD).\<close>

definition hours_ok :: "int \<Rightarrow> int \<Rightarrow> bool" where
  "hours_ok now h \<longleftrightarrow> fits TInteger (SInt h) \<and>
     - 210866803200000000 \<le> now - h * hour_us \<and> now - h * hour_us < 9224318016000000000"

definition handleHHI :: "string \<Rightarrow> db \<Rightarrow> StakeSnapshot stamped list reply \<times> db" where
  "handleHHI hoursParam d = (case query (\<lambda>d.
       let h = parse_hours hoursParam in
       if \<not> hours_ok (now_of d) h then Inl Rejected
       else Inr (sort_key (\<lambda>r. - fst r)
         (filter (\<lambda>r. fst r > now_of d - h * hour_us) (scan d (stake_snapshots d))))) d of
     (Inl e, d') \<Rightarrow> (ServerError e, d') | (Inr ps, d') \<Rightarrow> (Payload ps, d'))"

text \<open>The latest snapshot per address, by address, then the filter of the loop over the rows.\<close>

definition handleOperatorStatus :: "string \<Rightarrow> db \<Rightarrow> OperatorStatus stamped list reply \<times> db" where
  "handleOperatorStatus statusFilter d = (case query (\<lambda>d. Inr
       (filter (\<lambda>r. \<not> (statusFilter \<noteq> '''' \<and> os_Status (snd r) \<noteq> statusFilter))
         (sort_key (\<lambda>r. os_OperatorAddress (snd r)) (latest_statuses (scan d (operator_status_snapshots d)))))) d of
     (Inl e, d') \<Rightarrow> (ServerError e, d') | (Inr os, d') \<Rightarrow> (Payload os, d'))"

subsection \<open>Account usage\<close>

text \<open>
  The view \<open>account_usage\<close>: one row per non-empty account. The cast of the average to INT
  rounds halves away from zero; the greatest payment is a NUMERIC, printed in decimal, and NULL
  when no blob of the account has one.
\<close>

definition round_half_away :: "rat \<Rightarrow> int" where
  "round_half_away x = (if 0 \<le> x then \<lfloor>x + 1 / 2\<rfloor> else \<lceil>x - 1 / 2\<rceil>)"

definition max_payment :: "ObservedBlob list \<Rightarrow> string option" where
  "max_payment bs = (case List.map_filter (\<lambda>b. Option.bind (ob_CumulativePayment b) parse_int) bs of
     [] \<Rightarrow> None | p # ps \<Rightarrow> Some (itoa (fold max ps p)))"

record accountUsage =
  au_AccountID :: string
  au_BlobCount :: nat
  au_TotalBytes :: int
  au_FirstSeen :: int
  au_LastSeen :: int
  au_SelfDispersedCount :: nat
  au_AvgBlobSize :: int
  au_LatestCumulativePayment :: "string option"

definition account_usage_row :: "ObservedBlob stamped list \<Rightarrow> string \<Rightarrow> accountUsage" where
  "account_usage_row rows a =
     (let g = filter (\<lambda>r. ob_AccountID (snd r) = a) rows in
      \<lparr>au_AccountID = a, au_BlobCount = length g, au_TotalBytes = sum_list (map (\<lambda>r. ob_BlobSizeBytes (snd r)) g),
       au_FirstSeen = Min (fst ` set g), au_LastSeen = Max (fst ` set g),
       au_SelfDispersedCount = length (filter (\<lambda>r. ob_IsSelfDispersed (snd r)) g),
       au_AvgBlobSize = round_half_away (of_int (sum_list (map (\<lambda>r. ob_BlobSizeBytes (snd r)) g)) / of_nat (length g)),
       au_LatestCumulativePayment = max_payment (map snd g)\<rparr>)"

definition account_usage :: "ObservedBlob stamped list \<Rightarrow> accountUsage list" where
  "account_usage rows = map (account_usage_row rows)
     (remdups (map (\<lambda>r. ob_AccountID (snd r)) (filter (\<lambda>r. ob_AccountID (snd r) \<noteq> '''') rows)))"

definition handleAccountUsage :: "db \<Rightarrow> accountUsage list reply \<times> db" where
  "handleAccountUsage d = (case query (\<lambda>d. Inr (take 100
       (sort_key (\<lambda>u. - int (au_BlobCount u)) (account_usage (scan d (observed_blobs d)))))) d of
     (Inl e, d') \<Rightarrow> (ServerError e, d') | (Inr us, d') \<Rightarrow> (Payload us, d'))"

subsection \<open>Rates in whole numbers\<close>

lemma rate_consts:
  "fl64 (fl64 (19 / 20) * 100) = 95" "fl64 (fl64 (99 / 100) * 100) = 99"
  "fl64 (fl64 (19 / 20 - 1 / (20 * 2 ^ 31)) * 100) < 95" "fl64 (fl64 (99 / 100 - 1 / (100 * 2 ^ 31)) * 100) < 99"
  by code_simp+

lemma rate_mono: "x \<le> y \<Longrightarrow> fl64 (fl64 x * 100) \<le> fl64 (fl64 y * 100)"
  by (intro fl64_mono mult_right_mono) (simp_all add: fl64_mono)

text \<open>A threshold \<open>a / b\<close> is decided as in whole numbers, for up to \<open>2 ^ 31\<close> rows.\<close>

lemma rate_threshold:
  assumes "0 < n" and "n \<le> 2 ^ 31" and "0 < b"
    and "fl64 (fl64 (of_nat a / of_nat b) * 100) = c" and "fl64 (fl64 (of_nat a / of_nat b - 1 / (of_nat b * 2 ^ 31)) * 100) < c"
  shows "fl64 (fl64 (of_nat s / of_nat n) * 100) < c \<longleftrightarrow> b * s < a * n"
proof (cases "b * s < a * n")
  case True
  then have "b * s + 1 \<le> a * n" by simp
  then have "(of_nat (b * s + 1) :: rat) \<le> of_nat (a * n)" by (rule of_nat_mono)
  then have "of_nat s / of_nat n \<le> (of_nat a / of_nat b - 1 / (of_nat b * of_nat n) :: rat)"
    using assms(1,3) by (simp add: field_simps)
  also have "(1 :: rat) / (of_nat b * 2 ^ 31) \<le> 1 / (of_nat b * of_nat n)"
  proof -
    have "(of_nat n :: rat) \<le> of_nat (2 ^ 31)" using assms(2) by (rule of_nat_mono)
    then show ?thesis using assms(1,3) by (intro divide_left_mono mult_left_mono) simp_all
  qed
  then have "(of_nat a / of_nat b - 1 / (of_nat b * of_nat n) :: rat) \<le> of_nat a / of_nat b - 1 / (of_nat b * 2 ^ 31)" by linarith
  finally show ?thesis using rate_mono True assms(5) by (meson le_less_trans)
next
  case False
  then have "(of_nat (a * n) :: rat) \<le> of_nat (b * s)" by (intro of_nat_mono) simp
  then have "(of_nat a / of_nat b :: rat) \<le> of_nat s / of_nat n" using assms(1,3) by (simp add: field_simps)
  from rate_mono [OF this] show ?thesis using False assms(4) by simp
qed

lemma success_rate_alt:
  "s \<le> 2 ^ 53 \<Longrightarrow> n \<le> 2 ^ 53 \<Longrightarrow> 0 < n \<Longrightarrow> success_rate s n = Some (fl64 (fl64 (of_nat s / of_nat n) * 100))"
  by (simp add: success_rate_def fl64_of_nat)

lemma status_whole:
  assumes "0 < n" and "n \<le> 2 ^ 31" and "s \<le> n"
  shows "determine_status (success_rate s n) = (if 20 * s < 19 * n then Down else if 100 * s < 99 * n then Degraded else Healthy)"
proof -
  have "n \<le> 2 ^ 53" "s \<le> 2 ^ 53" using assms(2,3) by (auto intro: order_trans)
  then have r: "success_rate s n = Some (fl64 (fl64 (of_nat s / of_nat n) * 100))"
    using assms(1) by (intro success_rate_alt)
  have "fl64 (fl64 (of_nat s / of_nat n) * 100) < 95 \<longleftrightarrow> 20 * s < 19 * n"
    using rate_consts by (intro rate_threshold [OF assms(1,2)]) simp_all
  moreover have "fl64 (fl64 (of_nat s / of_nat n) * 100) < 99 \<longleftrightarrow> 100 * s < 99 * n"
    using rate_consts by (intro rate_threshold [OF assms(1,2)]) simp_all
  ultimately show ?thesis by (simp add: r determine_status_def)
qed

lemma status_monotone:
  assumes "0 < n" and "n \<le> 2 ^ 31" and "s \<le> s'" and "s' \<le> n"
  shows "determine_status (success_rate s n) \<le> determine_status (success_rate s' n)"
  using assms by (auto simp: status_whole less_eq_health_def)

lemma query_fst: "fst (query f d) = (if acked d then f d else Inl Unavailable)"
  by (simp add: query_def acked_def)

lemma scan_or_query:
  "scan_or z (query f d) = ((if acked d then (case f d of Inl _ \<Rightarrow> z | Inr x \<Rightarrow> x) else z), d\<lparr>stmts := Suc (stmts d)\<rparr>)"
  by (simp add: scan_or_def query_def acked_def split: sum.split)

lemma relay_table_keys: "map rs_RelayKey (relay_table avg rows) = sorted_list_of_set (pr_RelayKey ` set rows)"
  by (simp add: relay_table_def relay_stat_def Let_def comp_def)

text \<open>Grouping by a list of distinct keys that covers all rows counts every row once.\<close>

lemma group_lengths_distinct:
  "distinct ks \<Longrightarrow> f ` set xs \<subseteq> set ks \<Longrightarrow> sum_list (map (\<lambda>k. length (filter (\<lambda>x. P x \<and> f x = k) xs)) ks) = length (filter P xs)"
proof (induction xs)
  case (Cons x xs)
  have one: "sum_list (map (\<lambda>k. if f x = k then (1 :: nat) else 0) ks) = 1"
    using Cons.prems by (simp add: sum_list_distinct_conv_sum_set)
  have "sum_list (map (\<lambda>k. length (filter (\<lambda>y. P y \<and> f y = k) (x # xs))) ks) =
    sum_list (map (\<lambda>k. (if P x then if f x = k then 1 else 0 else 0) + length (filter (\<lambda>y. P y \<and> f y = k) xs)) ks)"
    by (intro arg_cong [where f = sum_list] map_cong) auto
  also have "\<dots> = sum_list (map (\<lambda>k. if P x then if f x = k then 1 else 0 else 0) ks) +
      sum_list (map (\<lambda>k. length (filter (\<lambda>y. P y \<and> f y = k) xs)) ks)"
    by (rule sum_list_addf)
  also have "\<dots> = length (filter P (x # xs))" using Cons one by (cases "P x") simp_all
  finally show ?case .
qed (simp add: sum_list_0)

lemma group_lengths:
  "finite K \<Longrightarrow> f ` set xs \<subseteq> K \<Longrightarrow> sum_list (map (\<lambda>k. length (filter (\<lambda>x. P x \<and> f x = k) xs)) (sorted_list_of_set K)) = length (filter P xs)"
  by (rule group_lengths_distinct) simp_all

lemma relay_table_totals:
  "sum_list (map rs_Total (relay_table avg rows)) = length rows"
  "sum_list (map rs_Successes (relay_table avg rows)) = length (filter pr_Success rows)"
  using group_lengths [of "pr_RelayKey ` set rows" pr_RelayKey rows "\<lambda>_. True"]
    group_lengths [of "pr_RelayKey ` set rows" pr_RelayKey rows pr_Success]
  by (simp_all add: relay_table_def relay_stat_def Let_def comp_def filter_filter conj_commute)

subsection \<open>Properties\<close>

text \<open>C21: The status of the monitor, in whole numbers: with \<open>n\<close> relay probes in the last hour,
  \<open>s\<close> of them successful, it is "down" below 95 per cent, "degraded" below 99 per cent and
  "healthy" otherwise, also without any probe; the floating point arithmetic of the query never
  misplaces a count. Operator probes do not enter.\<close>

theorem handleStatus_thresholds:
  assumes "fate d = (\<lambda>_. Acked)" and "n = length (relay_rows d)" and "s = length (filter pr_Success (relay_rows d))"
    and "n \<le> 2 ^ 31"
  shows "sr_Status (fst (handleStatus avg d)) =
      (if n = 0 then ''healthy'' else if 20 * s < 19 * n then ''down'' else if 100 * s < 99 * n then ''degraded'' else ''healthy'') \<and>
    sr_RelayProbes (fst (handleStatus avg d)) = n \<and> sr_TotalBlobs (fst (handleStatus avg d)) = length (observed_blobs d)"
proof -
  have a: "acked (d\<lparr>stmts := k\<rparr>)" "acked d" for k using assms(1) by (simp_all add: acked_def)
  have "s \<le> n" by (simp add: assms(2,3))
  have "sr_Status (fst (handleStatus avg d)) = health_text (determine_status (success_rate s n))"
    and r: "sr_RelayProbes (fst (handleStatus avg d)) = n" "sr_TotalBlobs (fst (handleStatus avg d)) = length (observed_blobs d)"
    by (simp_all add: handleStatus_def scan_or_query a relay_stats_def operator_stats_def Let_def assms(2,3))
  then show ?thesis using status_whole [of n s] assms(4) \<open>s \<le> n\<close>
    by (cases "n = 0") (simp_all add: success_rate_def determine_status_def)
qed

definition demo_probe :: "bool \<Rightarrow> ProbeResult" where
  "demo_probe ok = \<lparr>pr_BlobKey = ''ab'', pr_BlobAgeHours = 1, pr_RelayKey = 3, pr_Success = ok, pr_LatencyMs = 40,
     pr_ErrorMessage = '''', pr_DataSizeBytes = 0, pr_KZGVerified = None, pr_KZGError = ''''\<rparr>"

theorem handleStatus_thresholds_witness:
  "sr_Status (fst (handleStatus (\<lambda>_. 40) (fresh_db\<lparr>retrieval_probes := (0, demo_probe False) # replicate 19 (0, demo_probe True)\<rparr>))) = ''degraded'' \<and>
   sr_Status (fst (handleStatus (\<lambda>_. 40) (fresh_db\<lparr>retrieval_probes := (0, demo_probe False) # replicate 18 (0, demo_probe True)\<rparr>))) = ''down''"
proof -
  let ?d = "\<lambda>k. fresh_db\<lparr>retrieval_probes := (0, demo_probe False) # replicate k (0, demo_probe True)\<rparr>"
  have r: "relay_rows (?d k) = demo_probe False # replicate k (demo_probe True)" for k
    by (simp add: relay_rows_def recent_def now_of_def fresh_db empty_db_def hour_us_def demo_probe_def filter_replicate)
  have f: "fate (?d k) = (\<lambda>_. Acked)" for k by simp
  have n: "k + 1 = length (relay_rows (?d k))" for k unfolding r by simp
  have s: "k = length (filter pr_Success (relay_rows (?d k)))" for k
    unfolding r by (simp add: demo_probe_def filter_replicate)
  show ?thesis
    using handleStatus_thresholds [OF f n s, of 19 "\<lambda>_. 40"] handleStatus_thresholds [OF f n s, of 18 "\<lambda>_. 40"] by simp
qed

text \<open>When the database does not answer, the status page says "healthy" with no rate and
  zero counts: the handler throws every query error away.\<close>

theorem handleStatus_db_down:
  assumes "\<forall>i < 4. fate d (stmts d + i) \<noteq> Acked"
  shows "sr_Status (fst (handleStatus avg d)) = ''healthy'' \<and> sr_RelaySuccessRate (fst (handleStatus avg d)) = None \<and>
    sr_RelayProbes (fst (handleStatus avg d)) = 0 \<and> sr_TotalBlobs (fst (handleStatus avg d)) = 0"
proof -
  have "fate d (stmts d) \<noteq> Acked" "fate d (Suc (stmts d)) \<noteq> Acked" "fate d (Suc (Suc (stmts d))) \<noteq> Acked" "fate d (Suc (Suc (Suc (stmts d)))) \<noteq> Acked"
    using assms by (auto dest: spec [of _ 0] spec [of _ 1] spec [of _ 2] spec [of _ 3] simp: numeral_2_eq_2 numeral_3_eq_3)
  then show ?thesis by (simp add: handleStatus_def scan_or_query acked_def determine_status_def)
qed

theorem handleStatus_db_down_witness:
  "sr_Status (fst (handleStatus (\<lambda>_. 0) (fresh_db\<lparr>fate := (\<lambda>_. Refused)\<rparr>))) = ''healthy''"
  using handleStatus_db_down [of "fresh_db\<lparr>fate := (\<lambda>_. Refused)\<rparr>" "\<lambda>_. 0"] by simp

text \<open>The probe list: whatever the parameter, at most 200 rows come back, and at most the
  number asked for when that is a decimal from 1 to 200 (50 otherwise); they are stored rows,
  newest first, and no row left out is newer than one that is shown.\<close>

theorem handleProbes_newest:
  assumes "handleProbes l d = (Payload rows, d')"
  shows "length rows = min (length (retrieval_probes d)) (nat (parse_limit 50 200 l)) \<and>
    1 \<le> parse_limit 50 200 l \<and> parse_limit 50 200 l \<le> 200 \<and> (\<forall>n. l = itoa n \<longrightarrow> 1 \<le> n \<longrightarrow> n \<le> 200 \<longrightarrow> parse_limit 50 200 l = n) \<and>
    (\<exists>rest. mset (rows @ rest) = mset (retrieval_probes d) \<and> sorted_wrt (\<lambda>a b. fst b \<le> fst a) (rows @ rest))"
proof -
  let ?s = "sort_key (\<lambda>r. - fst r) (scan d (retrieval_probes d))"
  let ?n = "nat (parse_limit 50 200 l)"
  have rows: "rows = take ?n ?s"
    using assms by (auto simp: handleProbes_def query_def split: prod.splits sum.splits if_splits)
  have "sorted (map (\<lambda>r. - fst r) ?s)" by (rule sorted_sort_key)
  then have "sorted_wrt (\<lambda>a b. fst b \<le> fst a) ?s" by (simp add: sorted_map)
  moreover have "mset ?s = mset (retrieval_probes d)" by (simp add: scan_def)
  ultimately have "\<exists>rest. mset (rows @ rest) = mset (retrieval_probes d) \<and> sorted_wrt (\<lambda>a b. fst b \<le> fst a) (rows @ rest)"
    unfolding rows by (intro exI [of _ "drop ?n ?s"]) (simp only: append_take_drop_id simp_thms)
  moreover have "parse_limit 50 200 (itoa n) = n" if "1 \<le> n" "n \<le> 200" for n
    using that by (simp add: parse_limit_def atoi_itoa)
  moreover have "1 \<le> parse_limit 50 200 l" "parse_limit 50 200 l \<le> 200"
    by (auto simp: parse_limit_def split: prod.split)
  ultimately show ?thesis by (simp add: rows scan_def min.commute)
qed

theorem handleProbes_newest_witness:
  "\<exists>rows d'. handleProbes ''9999'' (fresh_db\<lparr>retrieval_probes := replicate 60 (0, demo_probe True)\<rparr>) = (Payload rows, d') \<and> length rows = 50"
proof -
  let ?d = "fresh_db\<lparr>retrieval_probes := replicate 60 (0, demo_probe True)\<rparr>"
  have "parse_limit 50 200 ''9999'' = 50" by code_simp
  moreover obtain rows d' where "handleProbes ''9999'' ?d = (Payload rows, d')"
    by (simp add: handleProbes_def query_def fresh_db empty_db_def)
  ultimately show ?thesis using handleProbes_newest [of "''9999''" ?d rows d'] by auto
qed

text \<open>The relay table has one entry per relay that was probed, by increasing key, none
  below zero; the totals and the successes of the entries add up to all probes of relays and
  all successful ones, so every such probe is counted exactly once.\<close>

theorem handleRelays_partition:
  assumes "handleRelays avg d = (Payload rows, d')"
  defines "probes \<equiv> filter (\<lambda>p. pr_RelayKey p \<ge> 0) (map snd (retrieval_probes d))"
  shows "map rs_RelayKey rows = sorted_list_of_set (pr_RelayKey ` set probes) \<and> (\<forall>r \<in> set rows. 0 \<le> rs_RelayKey r) \<and>
    sum_list (map rs_Total rows) = length probes \<and> sum_list (map rs_Successes rows) = length (filter pr_Success probes)"
proof -
  have rows: "rows = relay_table avg probes"
    using assms by (auto simp: handleRelays_def query_def split: prod.splits sum.splits if_splits)
  have "rs_RelayKey ` set rows = pr_RelayKey ` set probes"
    using arg_cong [OF relay_table_keys [of avg probes], of set] by (simp add: rows)
  moreover have "\<forall>p \<in> set probes. 0 \<le> pr_RelayKey p" by (simp add: probes_def)
  ultimately have "\<forall>r \<in> set rows. 0 \<le> rs_RelayKey r" by (metis image_iff)
  then show ?thesis by (simp add: rows relay_table_keys relay_table_totals)
qed

theorem handleRelays_partition_witness:
  "\<exists>rows d'. handleRelays (\<lambda>_. 40) (fresh_db\<lparr>retrieval_probes := replicate 60 (0, demo_probe True)\<rparr>) = (Payload rows, d') \<and>
    sum_list (map rs_Successes rows) = 60"
proof -
  let ?d = "fresh_db\<lparr>retrieval_probes := replicate 60 (0, demo_probe True)\<rparr>"
  obtain rows d' where h: "handleRelays (\<lambda>_. 40) ?d = (Payload rows, d')"
    by (simp add: handleRelays_def query_def fresh_db empty_db_def)
  from handleRelays_partition [OF h] show ?thesis using h by (auto simp: demo_probe_def filter_replicate)
qed

end
