(* ===== verification/ApiReports.thy ===== *)
theory ApiReports
  imports ApiServer
begin

text \<open>
  The two statistical reports of the API server (internal/api/server.go), survival by age and
  the operator table, the health check, and the routing of all handlers. The floating point
  of the confidence interval is computed operation by operation, without fused operations.
\<close>

subsection \<open>Survival by age\<close>

record bucket =
  bk_AgeBucketHours :: float64
  bk_Total :: nat
  bk_Successes :: nat
  bk_SuccessRate :: float64
  bk_CILower :: float64
  bk_CIUpper :: float64

text \<open>\<open>FLOOR(blob_age_hours / 12) * 12\<close>.\<close>

definition age_bucket :: "ProbeResult \<Rightarrow> float64" where
  "age_bucket p = fl64 (of_int \<lfloor>fl64 (pr_BlobAgeHours p / 12)\<rfloor> * 12)"

definition z_value :: float64 where
  "z_value = fl64 (196 / 100)"

text \<open>The Wilson interval of \<open>successes\<close> among \<open>tot\<close>: center and margin.\<close>

definition wilson_center :: "float64 \<Rightarrow> float64 \<Rightarrow> float64" where
  "wilson_center p n = fl64 (fl64 (p + fl64 (fl64 (z_value * z_value) / fl64 (2 * n))) /
     fl64 (1 + fl64 (fl64 (z_value * z_value) / n)))"

definition wilson_margin :: "float64 \<Rightarrow> float64 \<Rightarrow> float64" where
  "wilson_margin p n = fl64 (fl64 (z_value * fl_sqrt (fl64 (fl64 (fl64 (p * fl64 (1 - p)) / n) +
       fl64 (fl64 (z_value * z_value) / fl64 (fl64 (4 * n) * n))))) /
     fl64 (1 + fl64 (fl64 (z_value * z_value) / n)))"

definition interval :: "nat \<Rightarrow> nat \<Rightarrow> float64 \<times> float64" where
  "interval successes tot =
     (if tot \<ge> 10 then
        let p = fl64 (fl64 (of_nat successes) / fl64 (of_nat tot)); n = fl64 (of_nat tot);
            center = wilson_center p n; margin = wilson_margin p n
        in (max 0 (fl64 (fl64 (center - margin) * 100)), min 100 (fl64 (fl64 (center + margin) * 100)))
      else (0, 0))"

definition bucket_of :: "ProbeResult list \<Rightarrow> float64 \<Rightarrow> bucket" where
  "bucket_of rows a =
     (let g = filter (\<lambda>p. age_bucket p = a) rows; ok = length (filter pr_Success g); tot = length g
      in \<lparr>bk_AgeBucketHours = a, bk_Total = tot, bk_Successes = ok,
          bk_SuccessRate = the (success_rate ok tot), bk_CILower = fst (interval ok tot), bk_CIUpper = snd (interval ok tot)\<rparr>)"

text \<open>\<open>GROUP BY age_bucket ORDER BY age_bucket\<close>, and the loop over the rows.\<close>

definition survival_table :: "ProbeResult list \<Rightarrow> bucket list" where
  "survival_table rows = map (bucket_of rows) (sorted_list_of_set (age_bucket ` set rows))"

definition handleSurvival :: "db \<Rightarrow> bucket list reply \<times> db" where
  "handleSurvival d = (case query (\<lambda>d. Inr (survival_table
       (filter (\<lambda>p. pr_BlobAgeHours p \<ge> 0) (map snd (retrieval_probes d))))) d of
     (Inl e, d') \<Rightarrow> (ServerError e, d') | (Inr bs, d') \<Rightarrow> (Payload bs, d'))"

subsection \<open>The operator table\<close>

record opStat =
  ot_OperatorID :: string
  ot_Socket :: string
  ot_Total :: nat
  ot_Successes :: nat
  ot_SuccessRate :: float64
  ot_AvgLatency :: "float64 option"
  ot_AvgChunks :: "float64 option"

definition operator_of :: "OperatorProbeResult \<Rightarrow> string \<times> string" where
  "operator_of p = (op_OperatorID p, op_OperatorSocket p)"

definition op_stat :: "sql_avg \<Rightarrow> OperatorProbeResult list \<Rightarrow> string \<times> string \<Rightarrow> opStat" where
  "op_stat avg rows k =
     (let g = filter (\<lambda>p. operator_of p = k) rows; ok = filter op_Success g in
      \<lparr>ot_OperatorID = fst k, ot_Socket = snd k, ot_Total = length g, ot_Successes = length ok,
       ot_SuccessRate = the (success_rate (length ok) (length g)),
       ot_AvgLatency = avg_of avg (map op_LatencyMs ok), ot_AvgChunks = avg_of avg (map op_ChunksReturned ok)\<rparr>)"

text \<open>The key of \<open>ORDER BY\<close>: the ratio without the factor 100.\<close>

definition success_ratio :: "opStat \<Rightarrow> float64" where
  "success_ratio o' = fl64 (fl64 (of_nat (ot_Successes o')) / fl64 (of_nat (ot_Total o')))"

text \<open>\<open>GROUP BY operator_id, operator_socket\<close>; groups with the same ratio come in any order.\<close>

definition operator_table :: "sql_avg \<Rightarrow> nat list \<Rightarrow> OperatorProbeResult list \<Rightarrow> opStat list" where
  "operator_table avg seeds rows =
     sort_key success_ratio (map (op_stat avg rows) (reorder seeds (remdups (map operator_of rows))))"

definition handleOperators :: "sql_avg \<Rightarrow> db \<Rightarrow> opStat list reply \<times> db" where
  "handleOperators avg d = (case query (\<lambda>d. Inr (operator_table avg (plan d (stmts d)) (map snd (operator_probes d)))) d of
     (Inl e, d') \<Rightarrow> (ServerError e, d') | (Inr os, d') \<Rightarrow> (Payload os, d'))"

subsection \<open>Routing\<close>

datatype endpoint = Healthz | Status | Survival | Operators | Relays | HHI | Ejections | Probes
  | OperatorStatusPage | AccountUsage

definition routes :: "(string \<times> endpoint) list" where
  "routes = [(''/healthz'', Healthz), (''/api/status'', Status), (''/api/survival'', Survival),
     (''/api/operators'', Operators), (''/api/relays'', Relays), (''/api/hhi'', HHI),
     (''/api/ejections'', Ejections), (''/api/probes'', Probes),
     (''/api/operator-status'', OperatorStatusPage), (''/api/account-usage'', AccountUsage)]"

text \<open>What goes back to the client: the value that is encoded as JSON, an error text with 500, or 404.\<close>

datatype response =
    NotFound
  | Failure db_error
  | HealthBody
  | StatusBody statusResp
  | SurvivalBody "bucket list"
  | OperatorsBody "opStat list"
  | RelaysBody "relayStat list"
  | HHIBody "StakeSnapshot stamped list"
  | EjectionsBody "EjectionEvent list"
  | ProbesBody "ProbeResult stamped list"
  | OperatorStatusBody "OperatorStatus stamped list"
  | AccountUsageBody "accountUsage list"

definition respond :: "('a \<Rightarrow> response) \<Rightarrow> 'a reply \<times> db \<Rightarrow> response \<times> db" where
  "respond f r = (case r of (ServerError e, d) \<Rightarrow> (Failure e, d) | (Payload x, d) \<Rightarrow> (f x, d))"

text \<open>A request is its path and its query parameters; the patterns end without a slash, so they match exactly.\<close>

definition serve :: "sql_avg \<Rightarrow> string \<Rightarrow> (string \<Rightarrow> string) \<Rightarrow> db \<Rightarrow> response \<times> db" where
  "serve avg path param d = (case map_of routes path of
     None \<Rightarrow> (NotFound, d)
   | Some Healthz \<Rightarrow> (HealthBody, d)
   | Some Status \<Rightarrow> (case handleStatus avg d of (r, d') \<Rightarrow> (StatusBody r, d'))
   | Some Survival \<Rightarrow> respond SurvivalBody (handleSurvival d)
   | Some Operators \<Rightarrow> respond OperatorsBody (handleOperators avg d)
   | Some Relays \<Rightarrow> respond RelaysBody (handleRelays avg d)
   | Some HHI \<Rightarrow> respond HHIBody (handleHHI (param ''hours'') d)
   | Some Ejections \<Rightarrow> respond EjectionsBody (handleEjections (param ''limit'') d)
   | Some Probes \<Rightarrow> respond ProbesBody (handleProbes (param ''limit'') d)
   | Some OperatorStatusPage \<Rightarrow> respond OperatorStatusBody (handleOperatorStatus (param ''status'') d)
   | Some AccountUsage \<Rightarrow> respond AccountUsageBody (handleAccountUsage d))"

subsection \<open>The confidence interval\<close>

lemma interval_bounds:
  assumes "s \<le> tot" and "interval s tot = (lo, hi)"
  shows "0 \<le> lo \<and> lo \<le> hi \<and> hi \<le> 100"
proof (cases "tot \<ge> 10")
  case True
  define n p zz denom where "n = fl64 (of_nat tot)" and "p = fl64 (fl64 (of_nat s) / n)"
    and "zz = fl64 (z_value * z_value)" and "denom = fl64 (1 + fl64 (zz / n))"
  have n: "10 \<le> n" using True fl64_mono [of 10 "of_nat tot"] fl64_of_nat [of 10] by (simp add: n_def)
  have "fl64 (of_nat s) / n \<le> 1" using assms(1) n fl64_mono [of "of_nat s" "of_nat tot"] by (simp add: n_def)
  then have p: "0 \<le> p" "p \<le> 1" using n fl64_mono [of _ 1] by (auto simp: p_def)
  have zz: "0 \<le> zz" by (simp add: zz_def)
  have "\<bar>n - of_nat tot\<bar> \<le> of_nat tot / 2 ^ 53"
    using True rnd_error [of "of_nat tot" 53] by (simp add: n_def fl64_def)
  moreover have "(of_nat tot :: rat) / 2 ^ 53 \<le> of_nat tot / 2" by (rule divide_left_mono) simp_all
  ultimately have "of_nat tot \<le> 2 * n" by linarith
  then have "n \<le> fl64 (2 * n)" unfolding n_def by (rule fl64_mono)
  then have "zz / fl64 (2 * n) \<le> zz / n" using n zz by (intro divide_left_mono) auto
  then have "fl64 (p + fl64 (zz / fl64 (2 * n))) \<le> denom"
    using p unfolding denom_def by (intro fl64_mono add_mono) auto
  moreover have d: "1 \<le> denom"
    using n zz fl64_mono [of 1 "1 + fl64 (zz / n)"] by (simp add: denom_def)
  ultimately have "fl64 (p + fl64 (zz / fl64 (2 * n))) / denom \<le> 1" by simp
  then have c: "0 \<le> wilson_center p n" "wilson_center p n \<le> 1"
    using p n zz d fl64_mono [of "fl64 (p + fl64 (zz / fl64 (2 * n))) / denom" 1]
    unfolding wilson_center_def zz_def [symmetric] denom_def [symmetric] by (auto intro!: fl64_nonneg)
  have m: "0 \<le> wilson_margin p n"
    using d unfolding wilson_margin_def zz_def [symmetric] denom_def [symmetric]
    by (intro fl64_nonneg divide_nonneg_nonneg mult_nonneg_nonneg) (auto simp: z_value_def)
  let ?a = "fl64 (fl64 (wilson_center p n - wilson_margin p n) * 100)"
  let ?b = "fl64 (fl64 (wilson_center p n + wilson_margin p n) * 100)"
  have "?a \<le> ?b" using m by (intro fl64_mono mult_right_mono) auto
  moreover have "fl64 (wilson_center p n - wilson_margin p n) \<le> 1" using c m fl64_mono [of _ 1] by auto
  then have "?a \<le> 100" using fl64_mono [of _ "100"] fl64_of_nat [of 100] by fastforce
  moreover have "0 \<le> ?b" using c m by simp
  moreover have "lo = max 0 ?a" "hi = min 100 ?b"
    using True assms(2) by (simp_all add: interval_def Let_def n_def [symmetric] p_def [symmetric])
  ultimately show ?thesis by simp
next
  case False
  then show ?thesis using assms(2) by (auto simp: interval_def)
qed

lemma bucket_interval:
  "0 \<le> bk_CILower (bucket_of ps a) \<and> bk_CILower (bucket_of ps a) \<le> bk_CIUpper (bucket_of ps a) \<and>
   bk_CIUpper (bucket_of ps a) \<le> 100 \<and> (bk_Total (bucket_of ps a) < 10 \<longrightarrow> bk_CIUpper (bucket_of ps a) = 0)"
proof -
  let ?g = "filter (\<lambda>p. age_bucket p = a) ps"
  let ?i = "interval (length (filter pr_Success ?g)) (length ?g)"
  have "bk_CILower (bucket_of ps a) = fst ?i" "bk_CIUpper (bucket_of ps a) = snd ?i" "bk_Total (bucket_of ps a) = length ?g"
    by (simp_all only: bucket_of_def Let_def bucket.simps)
  moreover have "length (filter pr_Success ?g) \<le> length ?g" by (rule length_filter_le)
  from interval_bounds [OF this, of "fst ?i" "snd ?i"]
  have "0 \<le> fst ?i \<and> fst ?i \<le> snd ?i \<and> snd ?i \<le> 100" by simp
  moreover have "length ?g < 10 \<Longrightarrow> snd ?i = 0" by (simp only: interval_def not_le if_False snd_conv flip: not_le)
  ultimately show ?thesis by simp
qed

subsection \<open>Properties\<close>

text \<open>C22: The survival report: one bucket per 12-hour age that was probed, by increasing age; the
  totals and successes add up to all probes with a known age and the successful ones, so each is
  counted in exactly one bucket; and the confidence interval of a bucket is inside 0 to 100 with
  its ends in order, empty at 0 below ten probes. Rounding never breaks this.\<close>

theorem handleSurvival_intervals:
  assumes "handleSurvival d = (Payload rows, d')"
  defines "probes \<equiv> filter (\<lambda>p. pr_BlobAgeHours p \<ge> 0) (map snd (retrieval_probes d))"
  shows "map bk_AgeBucketHours rows = sorted_list_of_set (age_bucket ` set probes) \<and>
    sum_list (map bk_Total rows) = length probes \<and> sum_list (map bk_Successes rows) = length (filter pr_Success probes) \<and>
    (\<forall>b \<in> set rows. 0 \<le> bk_CILower b \<and> bk_CILower b \<le> bk_CIUpper b \<and> bk_CIUpper b \<le> 100 \<and>
      (bk_Total b < 10 \<longrightarrow> bk_CIUpper b = 0))"
proof -
  have rows: "rows = survival_table probes"
    using assms by (auto simp: handleSurvival_def query_def split: prod.splits sum.splits if_splits)
  then show ?thesis
    using bucket_interval group_lengths [of "age_bucket ` set probes" age_bucket probes "\<lambda>_. True"]
      group_lengths [of "age_bucket ` set probes" age_bucket probes pr_Success]
    by (auto simp: rows survival_table_def bucket_of_def Let_def comp_def filter_filter conj_commute)
qed

theorem handleSurvival_intervals_witness:
  "\<exists>rows d'. handleSurvival (fresh_db\<lparr>retrieval_probes := replicate 60 (0, demo_probe True)\<rparr>) = (Payload rows, d') \<and>
    sum_list (map bk_Total rows) = 60"
proof -
  let ?d = "fresh_db\<lparr>retrieval_probes := replicate 60 (0, demo_probe True)\<rparr>"
  obtain rows d' where h: "handleSurvival ?d = (Payload rows, d')"
    by (simp add: handleSurvival_def query_def fresh_db empty_db_def)
  from handleSurvival_intervals [OF h] show ?thesis using h by (auto simp: demo_probe_def filter_replicate)
qed

text \<open>C36: The operator report: every operator that was probed appears exactly once per socket, its
  counts add up with the others to all operator probes and all successful ones, and the operators
  are listed from the lowest to the highest success ratio.\<close>

theorem handleOperators_ranking:
  assumes "handleOperators avg d = (Payload rows, d')"
  defines "probes \<equiv> map snd (operator_probes d)"
  shows "distinct (map (\<lambda>r. (ot_OperatorID r, ot_Socket r)) rows) \<and>
    set (map (\<lambda>r. (ot_OperatorID r, ot_Socket r)) rows) = operator_of ` set probes \<and>
    sum_list (map ot_Total rows) = length probes \<and> sum_list (map ot_Successes rows) = length (filter op_Success probes) \<and>
    sorted (map success_ratio rows)"
proof -
  let ?ks = "reorder (plan d (stmts d)) (remdups (map operator_of probes))"
  have "rows = operator_table avg (plan d (stmts d)) probes"
    using assms by (auto simp: handleOperators_def query_def split: prod.splits sum.splits if_splits)
  then have rows: "rows = sort_key success_ratio (map (op_stat avg probes) ?ks)" by (simp add: operator_table_def)
  then have m: "mset rows = mset (map (op_stat avg probes) ?ks)" by simp
  have ids: "map (\<lambda>r. (ot_OperatorID r, ot_Socket r)) (map (op_stat avg probes) ks) = ks" for ks
    by (induction ks) (simp_all add: op_stat_def Let_def)
  have k: "mset (map (\<lambda>r. (ot_OperatorID r, ot_Socket r)) rows) = mset ?ks"
    using mset_map_cong [OF m, of "\<lambda>r. (ot_OperatorID r, ot_Socket r)"] by (simp only: ids)
  have t: "sum_list (map f rows) = sum_list (map (\<lambda>k. f (op_stat avg probes k)) ?ks)" for f :: "opStat \<Rightarrow> nat"
    using sum_list_mset_cong [OF mset_map_cong [OF m], of f] by (simp add: comp_def)
  have g: "sum_list (map (\<lambda>k. length (filter (\<lambda>p. P p \<and> operator_of p = k) probes)) ?ks) = length (filter P probes)" for P
    by (rule group_lengths_distinct) simp_all
  have "sum_list (map ot_Total rows) = length probes" "sum_list (map ot_Successes rows) = length (filter op_Success probes)"
    using t [of ot_Total] t [of ot_Successes] g [of "\<lambda>_. True"] g [of op_Success]
    by (simp_all add: op_stat_def Let_def filter_filter conj_commute)
  moreover have "distinct (map (\<lambda>r. (ot_OperatorID r, ot_Socket r)) rows)"
    using mset_eq_imp_distinct_iff [OF k] by simp
  moreover have "set (map (\<lambda>r. (ot_OperatorID r, ot_Socket r)) rows) = operator_of ` set probes"
    using mset_eq_setD [OF k] by simp
  moreover have "sorted (map success_ratio rows)" unfolding rows by (rule sorted_sort_key)
  ultimately show ?thesis by simp
qed

definition demo_operator_probe :: "string \<Rightarrow> bool \<Rightarrow> OperatorProbeResult" where
  "demo_operator_probe i ok = \<lparr>op_BlobKey = ''ab'', op_BlobAgeHours = 1, op_OperatorID = i, op_OperatorSocket = ''host'',
     op_QuorumID = 0, op_Success = ok, op_LatencyMs = 40, op_ChunksReturned = 1, op_ErrorMessage = ''''\<rparr>"

theorem handleOperators_ranking_witness:
  "\<exists>rows d'. handleOperators (\<lambda>_. 40) (fresh_db\<lparr>operator_probes := [(0, demo_operator_probe ''a'' True), (1, demo_operator_probe ''b'' False)]\<rparr>) =
     (Payload rows, d') \<and> sum_list (map ot_Successes rows) = 1"
proof -
  let ?d = "fresh_db\<lparr>operator_probes := [(0, demo_operator_probe ''a'' True), (1, demo_operator_probe ''b'' False)]\<rparr>"
  obtain rows d' where h: "handleOperators (\<lambda>_. 40) ?d = (Payload rows, d')"
    by (simp add: handleOperators_def query_def fresh_db empty_db_def)
  from handleOperators_ranking [OF h] show ?thesis using h by (auto simp: demo_operator_probe_def)
qed

end
