(* ===== verification/Traces.thy ===== *)
theory Traces
  imports Statements OperatorVerifierFacts Collector Monitor ApiReports
begin

text \<open>
  What a turn of each worker does to the database: only statements of Statements, and the rows
  about a blob that it writes are about blobs it was given. This is the contract of a database
  client (the locale \<open>db_client\<close>), which every worker and the API server satisfy.
\<close>

subsection \<open>Turns as sequences of statements\<close>

text \<open>The blob keys that the rows of a statement refer to.\<close>

fun refers_to :: "statement \<Rightarrow> string set" where
  "refers_to (InsertProbe p) = {pr_BlobKey p}"
| "refers_to (InsertAttestation a) = {as_BlobKey a}"
| "refers_to (InsertNonsigner n) = {an_BlobKey n}"
| "refers_to (InsertOperatorProbe p) = {op_BlobKey p}"
| "refers_to _ = {}"

definition issues :: "string set \<Rightarrow> db \<Rightarrow> db \<Rightarrow> bool" where
  "issues K d d' \<longleftrightarrow> (\<exists>ss. d' = run_statements ss d \<and> (\<forall>s \<in> set ss. refers_to s \<subseteq> K))"

lemma issues_refl [simp, intro]: "issues K d d"
  unfolding issues_def by (intro exI [of _ "[]"]) simp

lemma issues_trans [trans]: "issues K d d' \<Longrightarrow> issues K d' d'' \<Longrightarrow> issues K d d''"
  unfolding issues_def by (metis Un_iff run_statements_append set_append)

lemma issues_mono: "issues K d d' \<Longrightarrow> K \<subseteq> K' \<Longrightarrow> issues K' d d'"
  unfolding issues_def by (metis order_trans)

lemma issues_one: "refers_to s \<subseteq> K \<Longrightarrow> issues K d (run_statement s d)"
  unfolding issues_def by (intro exI [of _ "[s]"]) simp

lemma issues_statement [intro]:
  "issues K d (snd (upsertBlob b d))"
  "pr_BlobKey p \<in> K \<Longrightarrow> issues K d (snd (insertProbeResult p d))"
  "as_BlobKey a \<in> K \<Longrightarrow> issues K d (snd (insertAttestation a d))"
  "an_BlobKey n \<in> K \<Longrightarrow> issues K d (snd (insertAttestationNonsigner n d))"
  "op_BlobKey o' \<in> K \<Longrightarrow> issues K d (snd (insertOperatorProbe o' d))"
  "issues K d (snd (insertStakeSnapshot x d))"
  "issues K d (snd (insertStakeSnapshotOperator y d))"
  "issues K d (snd (insertEjectionEvent e d))"
  "issues K d (snd (updateIndexerCursor c i d))"
  "issues K d (snd (upsertOperatorStatus st d))"
  "issues K d (snd (insertProberHealth h d))"
  "issues K d (d\<lparr>stmts := Suc (stmts d)\<rparr>)"
  using issues_one [of "UpsertBlob b"] issues_one [of "InsertProbe p"] issues_one [of "InsertAttestation a"]
    issues_one [of "InsertNonsigner n"] issues_one [of "InsertOperatorProbe o'"] issues_one [of "InsertStake x"]
    issues_one [of "InsertStakeOperator y"] issues_one [of "InsertEjection e"] issues_one [of "SetCursor c i"]
    issues_one [of "InsertStatus st"] issues_one [of "InsertHealth h"] issues_one [of ReadOnly]
  by simp_all

lemma issues_query [intro]: "issues K d (snd (query f d))"
  by (simp add: issues_statement)

lemma issues_query': "query f d = (r, d') \<Longrightarrow> issues K d d'"
  using issues_query [of K d f] by simp

lemma issues_fold: "(\<And>x e. x \<in> set xs \<Longrightarrow> issues K e (f x e)) \<Longrightarrow> issues K d (fold f xs d)"
  by (induction xs arbitrary: d) (auto intro: issues_trans)

subsection \<open>The workers\<close>

lemma collect_loop_issues: "issues K d (snd (collect_loop seen es d))"
proof (induction es arbitrary: d)
  case (Cons e es)
  have "issues K d (snd (upsertBlob (entry_blob e) d))" by (rule issues_statement)
  also have "issues K \<dots> (snd (collect_loop seen es (snd (upsertBlob (entry_blob e) d))))" by (rule Cons.IH)
  finally show ?case by (simp add: case_prod_beta)
qed simp

lemma collect_feed_issues: "issues K d (snd (snd (collect_feed f c d)))"
  using collect_loop_issues by (simp add: collect_feed_def case_prod_beta del: collect_loop.simps split: sum.split list.split)

lemma record_logs_issues: "issues K d (record_logs node ls d)"
proof (induction ls arbitrary: d)
  case (Cons l ls)
  have "issues K d (snd (insertEjectionEvent (log_event node l) d))" by (rule issues_statement)
  also have "issues K \<dots> (record_logs node ls (snd (insertEjectionEvent (log_event node l) d)))" by (rule Cons.IH)
  finally show ?case using Cons.IH by simp
qed simp

lemma ej_poll_issues: "issues K d (ej_poll node d)"
proof -
  have q: "issues K d (snd (getIndexerCursor ejectionIndexerName d))" unfolding getIndexerCursor_def by (rule issues_query)
  have "issues K d' (snd (updateIndexerCursor ejectionIndexerName b (record_logs node logs d')))" for b logs d'
    using record_logs_issues issues_statement(9) by (rule issues_trans)
  from issues_trans [OF q this] q show ?thesis
    by (auto simp: ej_poll_def case_prod_beta split: sum.split option.split)
qed

lemma kzg_check_issues: "issues K d (snd (kzg_check v k r d))"
  using kzg_check_state [of v k r d] issues_statement(12) by auto

lemma probeRelay_issues: "k \<in> K \<Longrightarrow> issues K (snd s) (snd (probeRelay c v k age rk s))"
proof -
  assume k: "k \<in> K"
  have "issues K d (snd (insertProbeResult (empty_probe k age i e) d))" for i e d
    by (rule issues_statement(2)) (simp add: empty_probe_def k)
  moreover have "issues K d (snd (insertProbeResult (probe_of k age rk r z e) (snd (kzg_check v k r' d))))" for r r' z e d
    by (rule issues_trans [OF kzg_check_issues issues_statement(2)]) (simp add: probe_of_def k)
  ultimately show ?thesis by (simp add: probeRelay_def case_prod_beta Let_def split: sum.split)
qed

lemma relay_loop_issues: "k \<in> K \<Longrightarrow> issues K (snd s) (snd (relay_loop calls i v k age ks s))"
proof (induction calls i v k age ks s rule: relay_loop.induct)
  case (2 calls i v k age rk ks s)
  show ?case using issues_trans [OF probeRelay_issues [OF 2(2)] 2(1) [OF 2(2)]] by simp
qed simp

lemma probeBlob_issues: "k \<in> K \<Longrightarrow> issues K (snd s) (snd (probeBlob env v k t s))"
proof -
  assume k: "k \<in> K"
  have "issues K d (snd (insertProbeResult (empty_probe k age i e) d))" for age i e d
    by (rule issues_statement(2)) (simp add: empty_probe_def k)
  moreover have "issues K d (snd (relay_loop calls i v k age ks (rg, d)))" for calls i age ks rg d
    using relay_loop_issues [OF k, of "(rg, d)"] by simp
  ultimately show ?thesis by (simp add: probeBlob_def case_prod_beta Let_def split: sum.split option.split)
qed

lemma nonsigner_loop_issues: "k \<in> K \<Longrightarrow> issues K d (snd (nonsigner_loop kc k q pks d))"
proof (induction kc k q pks d rule: nonsigner_loop.induct)
  case (2 kc k q pk pks d)
  have "issues K d (snd (nonsigner_loop kc k q pks (snd (insertAttestationNonsigner
      \<lparr>an_BlobKey = k, an_QuorumNumber = q, an_OperatorID = i\<rparr> d))))"
    if "pubkeyToOperatorID kc pk = Done i" "i \<noteq> ''''" for i
    by (rule issues_trans [OF issues_statement(4) 2(2) [OF that 2(3)]]) (simp add: 2(3))
  then show ?case using 2(1) [OF _ _ 2(3)] by (simp split: outcome.split)
qed simp

lemma quorum_loop_issues: "k \<in> K \<Longrightarrow> issues K d (snd (quorum_loop kc k pks qs d))"
proof (induction kc k pks qs d rule: quorum_loop.induct)
  case (2 kc k pks qStr pct qs d)
  let ?a = "\<lparr>as_BlobKey = k, as_QuorumNumber = fst (atoi qStr), as_TotalNonSigners = int (length pks),
    as_SigningStakePercentage = fl64 (of_int pct)\<rparr>"
  obtain r d2 where n: "nonsigner_loop kc k (fst (atoi qStr)) pks (snd (insertAttestation ?a d)) = (r, d2)" by fastforce
  have "issues K d (snd (insertAttestation ?a d))" using 2(2) by (intro issues_statement) simp
  also have "issues K \<dots> d2" using nonsigner_loop_issues [OF 2(2), of "snd (insertAttestation ?a d)" kc "fst (atoi qStr)" pks] n by simp
  finally have "issues K d d2" .
  moreover have "issues K d2 (snd (quorum_loop kc k pks qs d2))" if "r = Done ()"
    using 2(1) [OF refl refl n [symmetric] that 2(2)] .
  ultimately show ?case using n by (cases r) (auto simp: Let_def intro: issues_trans)
qed simp

lemma fetchAttestation_issues: "k \<in> K \<Longrightarrow> issues K d (snd (fetchAttestation kc api k d))"
  using quorum_loop_issues by (simp add: fetchAttestation_def split: sum.split)

lemma verify_one_issues: "ab_BlobKey b \<in> K \<Longrightarrow> issues K (snd s) (snd (snd (verify_one env v b s)))"
  unfolding verify_one_state by (rule issues_trans [OF probeBlob_issues fetchAttestation_issues])

lemma verify_batch_issues:
  "ab_BlobKey ` set bs \<subseteq> K \<Longrightarrow> issues K (snd s) (snd (snd (verify_batch envs v bs s)))"
proof (induction envs v bs s rule: verify_batch.induct)
  case (2 envs v b bs s)
  obtain r s' where v: "verify_one (envs (ab_BlobKey b)) v b s = (r, s')" by (metis prod.exhaust)
  have "issues K (snd s) (snd s')" using verify_one_issues [of b K s "envs (ab_BlobKey b)" v] 2(2) v by simp
  moreover have "issues K (snd s') (snd (snd (verify_batch envs v bs s')))" if "r = Done ()"
    using 2(1) [OF v [symmetric] that] 2(2) by simp
  ultimately show ?case using v by (cases r) (auto intro: issues_trans)
qed simp

lemma relay_turn_issues:
  "issues (set (blob_keys (observed_blobs (snd s)))) (snd s) (snd (snd (relay_turn envs v seeds s)))"
proof -
  obtain reg d where s: "s = (reg, d)" by fastforce
  obtain r d1 where q: "getUnprobedBlobs 20 d = (r, d1)" by fastforce
  then have i: "issues K d d1" for K using issues_query' unfolding getUnprobedBlobs_def by blast
  show ?thesis
  proof (cases r)
    case (Inl e)
    then show ?thesis using i by (simp add: s relay_turn_def q)
  next
    case (Inr bs)
    have "fst (getUnprobedBlobs 20 d) = Inr bs" using q Inr by simp
    then have "bs = unprobed (\<lambda>p. pr_BlobKey (snd p)) 20 (scan d (observed_blobs d)) (retrieval_probes d)"
      using query_Inr unfolding getUnprobedBlobs_def by fastforce
    then have "ab_BlobKey ` set (reorder seeds bs) \<subseteq> set (blob_keys (observed_blobs d))"
      using relay_queue.take_pending [of _ 20 d] by (auto simp: pending_keys_def)
    from verify_batch_issues [OF this, of "(reg, d1)" envs v]
    show ?thesis using i Inr by (auto simp: s relay_turn_def q intro: issues_trans)
  qed
qed

lemma reprobe_loop_issues: "k \<in> K \<Longrightarrow> issues K d (snd (reprobe_loop calls i k age ks (reg, d)))"
proof (induction ks arbitrary: i reg d)
  case (Cons rk ks)
  have "issues K d (snd (insertProbeResult (probe_of k age rk r z e) d))" for r z e
    by (rule issues_statement(2)) (simp add: probe_of_def Cons.prems)
  from issues_trans [OF this Cons.IH [OF Cons.prems]] Cons.IH [OF Cons.prems]
  show ?case by (simp add: case_prod_beta split: sum.split)
qed simp

lemma reprobeBlob_issues: "k \<in> K \<Longrightarrow> issues K (snd s) (snd (reprobeBlob env k t s))"
  using reprobe_loop_issues by (simp add: reprobeBlob_def case_prod_beta split: sum.split option.split)

lemma reprobe_fold_issues:
  "ab_BlobKey ` set bs \<subseteq> K \<Longrightarrow>
   issues K (snd s) (snd (fold (\<lambda>ab. reprobeBlob (f ab) (ab_BlobKey ab) (ab_RequestedAt ab)) bs s))"
proof (induction bs arbitrary: s)
  case (Cons b bs)
  have "issues K (snd s) (snd (reprobeBlob (f b) (ab_BlobKey b) (ab_RequestedAt b) s))"
    by (rule reprobeBlob_issues) (use Cons.prems in simp)
  from issues_trans [OF this Cons.IH] Cons.prems show ?case by simp
qed simp

lemma getAgedBlobKeys_keys:
  "fst (getAgedBlobKeys now h w l d) = Inr bs \<Longrightarrow> ab_BlobKey ` set bs \<subseteq> set (blob_keys (observed_blobs d))"
proof -
  assume "fst (getAgedBlobKeys now h w l d) = Inr bs"
  from query_Inr [OF this [unfolded getAgedBlobKeys_def]]
  have "set bs \<subseteq> aged_key ` set (observed_blobs d)" by (auto simp: scan_def dest!: in_set_takeD)
  from image_mono [OF this, of ab_BlobKey] show ?thesis by (simp add: image_image blob_keys_def)
qed

lemma reverify_group_issues:
  "issues (set (blob_keys (observed_blobs (snd s)))) (snd s) (snd (reverify_group env ag s))"
proof -
  obtain reg d where s: "s = (reg, d)" by fastforce
  obtain r d1 where q: "getAgedBlobKeys (pe_now env) (ag_hoursAgo ag) (ag_windowHours ag) (ag_limit ag) d = (r, d1)" by fastforce
  then have i: "issues K d d1" for K using issues_query' unfolding getAgedBlobKeys_def by blast
  have "ab_BlobKey ` set bs \<subseteq> set (blob_keys (observed_blobs d))" if "r = Inr bs" for bs
    using getAgedBlobKeys_keys q that by (metis fst_conv)
  from reprobe_fold_issues [OF this, of _ "(reg, d1)"]
  show ?thesis using issues_trans [OF i] i by (cases r) (simp_all add: s reverify_group_def q)
qed

text \<open>No statement removes a blob.\<close>

lemma run_statement_keys: "set (blob_keys (observed_blobs d)) \<subseteq> set (blob_keys (observed_blobs (run_statement s d)))"
proof (cases s)
  case Migrate
  then show ?thesis by (auto simp: runMigrations_def exec_def Let_def split: stmt_fate.splits)
next
  case (UpsertBlob b)
  then show ?thesis using upsertBlob_keys by simp
qed (simp_all add: insert_defs exec_def Let_def split: stmt_fate.splits)

lemma issues_keys: "issues K d d' \<Longrightarrow> set (blob_keys (observed_blobs d)) \<subseteq> set (blob_keys (observed_blobs d'))"
proof -
  have "set (blob_keys (observed_blobs d)) \<subseteq> set (blob_keys (observed_blobs (run_statements ss d)))" for ss
    by (induction ss arbitrary: d) (use run_statement_keys in \<open>force+\<close>)
  then show "issues K d d' \<Longrightarrow> ?thesis" unfolding issues_def by blast
qed


text \<open>A pass of the reverifier: the keys of a later group are there since the start or were added in between.\<close>

lemma reverify_groups_refs:
  "\<exists>K. issues K (snd s) (snd (reverify_groups envs i ags s)) \<and> K \<subseteq> set (blob_keys (observed_blobs (snd (reverify_groups envs i ags s))))"
proof (induction envs i ags s rule: reverify_groups.induct)
  case (2 envs i ag ags s)
  let ?K = "set (blob_keys (observed_blobs (snd s)))" and ?s1 = "reverify_group (envs i) ag s"
  obtain K where K: "issues K (snd ?s1) (snd (reverify_groups envs (Suc i) ags ?s1))"
    "K \<subseteq> set (blob_keys (observed_blobs (snd (reverify_groups envs (Suc i) ags ?s1))))" using 2 by blast
  have "issues (?K \<union> K) (snd s) (snd (reverify_groups envs (Suc i) ags ?s1))"
    using issues_trans [OF issues_mono [OF reverify_group_issues] issues_mono [OF K(1)]] by blast
  moreover have "?K \<subseteq> set (blob_keys (observed_blobs (snd (reverify_groups envs (Suc i) ags ?s1))))"
    using issues_keys [OF reverify_group_issues] issues_keys [OF K(1)] by blast
  ultimately show ?case using K(2) by (intro exI [of _ "?K \<union> K"]) simp
qed (auto intro: exI [of _ "{}"])

lemma insert_stakes_issues: "issues K d (insert_stakes q tot ss d)"
proof (induction q tot ss d rule: insert_stakes.induct)
  case (2 q tot opid s ss d)
  from issues_trans [OF issues_statement(7) this] show ?case by simp
qed simp

lemma snapshot_quorum_issues: "issues K d (snapshot_quorum env ops q d)"
  using issues_trans [OF issues_statement(6) insert_stakes_issues] by (simp add: snapshot_quorum_def Let_def)

lemma stake_snapshot_issues: "issues K (snd s) (snd (stake_snapshot env s))"
  using issues_fold [of "[0, 1, 2]" K "snapshot_quorum env _"] snapshot_quorum_issues
  by (simp add: stake_snapshot_def case_prod_beta split: sum.split)

lemma status_loop_issues: "issues K d (status_loop env disc ops d)"
proof (induction env disc ops d rule: status_loop.induct)
  case (2 env disc op ops d)
  from issues_trans [OF issues_statement(10) this] show ?case by simp
qed simp

lemma status_snapshot_issues: "issues K (snd s) (snd (status_snapshot env s))"
  using status_loop_issues by (simp add: status_snapshot_def case_prod_beta split: sum.split)

lemma disperse_issues: "issues K d (snd (disperse env w d))"
  using issues_statement(1) by (simp add: disperse_def Let_def split: sum.split http_attempt.split option.split outcome.split)

lemma record_health_issues: "issues K d (record_health e d)"
  unfolding record_health_def by (rule issues_statement)

lemma run_actions_issues:
  "(\<And>a s. a \<in> set as \<Longrightarrow> issues K (sw_db s) (sw_db (a s))) \<Longrightarrow> issues K (sw_db s) (sw_db (run_actions as s))"
  by (induction as arbitrary: s) (auto intro: issues_trans)

lemma probeSet_issues: "k \<in> K \<Longrightarrow> issues K d (sw_db (probeSet net k age ops disc d))"
proof -
  assume k: "k \<in> K"
  have "issues K (sw_db s) (sw_db (a s))" if "a \<in> set (probe_job net k age op)" for a op s
  proof -
    have "issues K (sw_db s) (snd (insertOperatorProbe (probe_row k age op x) (sw_db s)))" for x
      by (rule issues_statement(5)) (simp add: probe_row_def k)
    then show ?thesis using that
      by (auto simp: probe_job_def Let_def report_action_def insert_action_def tally_action_def)
  qed
  then have "issues K (sw_db (start_sweep disc d)) (sw_db (probeSet net k age ops disc d))"
    unfolding probeSet_def by (intro run_actions_issues) auto
  then show ?thesis by (simp add: start_sweep_def)
qed

lemma probe_rounds_issues: "k \<in> K \<Longrightarrow> issues K (ta_db t) (ta_db (probe_rounds nets k age pending t))"
proof (induction nets k age pending t rule: probe_rounds.induct)
  case (1 nets k age pending t)
  let ?s = "probeSet (nets (ta_rounds t)) k age pending (ta_disc t) (ta_db t)"
  have s: "issues K (ta_db t) (sw_db ?s)" using 1(2) by (rule probeSet_issues)
  from 1 issues_trans [OF s] s show ?case
    by (subst probe_rounds.simps) (simp add: Let_def)
qed

lemma probeAndRetrieve_issues: "k \<in> K \<Longrightarrow> issues K d (snd (snd (probeAndRetrieve env k age disc d)))"
proof -
  assume k: "k \<in> K"
  have "issues K d (ta_db (collectChunks env k age ops di d))" for ops di
    using probe_rounds_issues [OF k, of "\<lparr>ta_chunks = 0, ta_ok = 0, ta_rounds = 0, ta_disc = di, ta_db = d\<rparr>"]
    by (simp add: collectChunks_def)
  then show ?thesis by (simp add: probeAndRetrieve_def case_prod_beta Let_def split: sum.split)
qed


lemma getUnprobedOperatorBlobs_keys:
  assumes "fst (getUnprobedOperatorBlobs l d) = Inr bs"
  shows "ab_BlobKey ` set bs \<subseteq> set (blob_keys (observed_blobs d))"
proof -
  have "bs = unprobed (\<lambda>p. op_BlobKey (snd p)) l (scan d (observed_blobs d)) (operator_probes d)"
    using query_Inr [OF assms [unfolded getUnprobedOperatorBlobs_def]] by simp
  then show ?thesis using operator_queue.take_pending [of _ l d] by (auto simp: pending_keys_def)
qed

lemma pick_blob_db:
  assumes "pick_blob env cycle d = (r, d')"
  shows "d' \<in> {d\<lparr>stmts := Suc (stmts d)\<rparr>, d\<lparr>stmts := Suc (Suc (stmts d))\<rparr>} \<and>
    (\<forall>k b. r = Done (k, Some b) \<longrightarrow> ab_BlobKey b \<in> set (blob_keys (observed_blobs d)) \<or> oe_selfBlob env = Some b)"
proof -
  let ?ag = "decodeAgeGroups ! (cycle mod length decodeAgeGroups)"
  obtain aged d1 where q: "getAgedBlobKeys (oe_queryNow env) (ag_hoursAgo ?ag) (ag_windowHours ?ag) (ag_limit ?ag) d = (aged, d1)"
    by fastforce
  obtain un d2 where u: "getUnprobedOperatorBlobs 1 d1 = (un, d2)" by fastforce
  have d1: "d1 = d\<lparr>stmts := Suc (stmts d)\<rparr>" using q by (metis query_frame(5) snd_conv)
  have d2: "d2 = d\<lparr>stmts := Suc (Suc (stmts d))\<rparr>" using u query_frame(4) [of 1 d1] d1 by simp
  have a: "aged = Inr (b # bs) \<Longrightarrow> ab_BlobKey b \<in> set (blob_keys (observed_blobs d))" for b bs
    using getAgedBlobKeys_keys q by (metis fst_conv image_subset_iff list.set_intros(1))
  have b: "un = Inr (b # bs) \<Longrightarrow> ab_BlobKey b \<in> set (blob_keys (observed_blobs d))" for b bs
    using getUnprobedOperatorBlobs_keys [of 1 d1 "b # bs"] u by (simp add: d1)
  show ?thesis using assms a b
    unfolding pick_blob_def Let_def q u prod.case
    by (auto simp: d1 d2 split: sum.splits list.splits if_splits option.splits outcome.splits)
qed

lemma ov_turn_refs:
  assumes "ov_turn env s = Done (k, s')"
    and "\<forall>b. oe_selfBlob env = Some b \<longrightarrow> ab_BlobKey b \<in> set (blob_keys (observed_blobs (ov_db s)))"
  shows "issues (set (blob_keys (observed_blobs (ov_db s)))) (ov_db s) (ov_db s')"
proof -
  obtain r d where p: "pick_blob env (ov_cycle s) (ov_db s) = (r, d)" by fastforce
  note pk = pick_blob_db [OF p]
  have d: "issues K (ov_db s) d" for K
    using pk issues_statement(12) [of K "ov_db s"] issues_trans [OF issues_statement(12) issues_statement(12)] by auto
  show ?thesis
  proof (cases r)
    case (Done x)
    obtain k' o' where x: "x = (k', o')" by fastforce
    show ?thesis
    proof (cases o')
      case None
      then show ?thesis using assms(1) p Done x d by (auto simp: ov_turn_def)
    next
      case (Some b)
      then have "ab_BlobKey b \<in> set (blob_keys (observed_blobs (ov_db s)))" using pk assms(2) Done x by auto
      from issues_trans [OF d probeAndRetrieve_issues [OF this]]
      show ?thesis using assms(1) p Done x Some by (auto simp: ov_turn_def case_prod_beta)
    qed
  qed (use assms(1) p in \<open>simp add: ov_turn_def\<close>)
qed

lemma issues_reads: "issues K d (d\<lparr>stmts := stmts d + n\<rparr>)"
proof (induction n)
  case (Suc n)
  from issues_trans [OF this issues_statement(12)] show ?case by simp
qed simp

lemma handleStatus_reads: "snd (handleStatus avg d) = d\<lparr>stmts := stmts d + 4\<rparr>"
  by (simp add: handleStatus_def scan_or_query case_prod_beta)

lemma respond_query:
  "snd (respond f (case query g d of (Inl e, d') \<Rightarrow> (ServerError e, d') | (Inr x, d') \<Rightarrow> (Payload x, d'))) =
     d\<lparr>stmts := Suc (stmts d)\<rparr>"
  by (simp add: query_def respond_def split: sum.split)

text \<open>The API server only reads: at most four statements per request.\<close>

lemma serve_reads: "\<exists>n \<le> 4. snd (serve avg path param d) = d\<lparr>stmts := stmts d + n\<rparr>"
proof -
  have "snd (serve avg path param d) \<in> {d\<lparr>stmts := stmts d\<rparr>, d\<lparr>stmts := stmts d + 1\<rparr>, d\<lparr>stmts := stmts d + 4\<rparr>}"
  proof (cases "map_of routes path")
    case (Some e)
    have "snd (case handleStatus avg d of (r, d') \<Rightarrow> (StatusBody r, d')) = d\<lparr>stmts := stmts d + 4\<rparr>"
      using handleStatus_reads [of avg d] by (simp add: case_prod_beta)
    then show ?thesis
      by (cases e) (simp_all add: serve_def Some handleSurvival_def handleOperators_def handleRelays_def handleHHI_def
          handleEjections_def handleProbes_def handleOperatorStatus_def handleAccountUsage_def respond_query)
  qed (simp add: serve_def)
  then have "\<exists>n \<in> {0, 1, 4}. snd (serve avg path param d) = d\<lparr>stmts := stmts d + n\<rparr>" by auto
  then show ?thesis by (metis add_leD1 insert_iff le_refl numeral_le_iff one_le_numeral singletonD zero_le)
qed

lemma serve_issues: "issues K d (snd (serve avg path param d))"
  using serve_reads [of avg path param d] issues_reads by metis

end
