(* ===== verification/System.thy ===== *)
theory System
  imports Traces
begin

text \<open>
  The process as a whole: the state all its workers and the API server share, a step relation
  in which one of them takes a turn in any order, and what holds in every reachable state. The
  proofs go through the contract of a database client, the locale \<open>db_client\<close>.
\<close>

subsection \<open>References between tables\<close>

text \<open>The blobs that probes and attestations are about; no foreign key in the schema checks them.\<close>

definition referenced :: "db \<Rightarrow> string set" where
  "referenced d = (\<lambda>r. pr_BlobKey (snd r)) ` set (retrieval_probes d) \<union> (\<lambda>r. op_BlobKey (snd r)) ` set (operator_probes d) \<union>
     (\<lambda>r. as_BlobKey (snd r)) ` set (attestation_snapshots d) \<union> (\<lambda>r. an_BlobKey (snd r)) ` set (attestation_nonsigners d)"

definition stored_keys :: "db \<Rightarrow> string set" where
  "stored_keys d = set (blob_keys (observed_blobs d))"

definition refs_ok :: "db \<Rightarrow> bool" where
  "refs_ok d \<longleftrightarrow> referenced d \<subseteq> stored_keys d"

text \<open>All tables but the blobs and the cursors only grow at the end.\<close>

definition appended :: "db \<Rightarrow> db \<Rightarrow> bool" where
  "appended d d' \<longleftrightarrow> prefix (retrieval_probes d) (retrieval_probes d') \<and> prefix (operator_probes d) (operator_probes d') \<and>
     prefix (attestation_snapshots d) (attestation_snapshots d') \<and> prefix (attestation_nonsigners d) (attestation_nonsigners d') \<and>
     prefix (stake_snapshots d) (stake_snapshots d') \<and> prefix (stake_snapshot_operators d) (stake_snapshot_operators d') \<and>
     prefix (ejection_events d) (ejection_events d') \<and>
     prefix (operator_status_snapshots d) (operator_status_snapshots d') \<and> prefix (prober_health d) (prober_health d')"

lemma appended_refl [simp]: "appended d d"
  by (simp add: appended_def)

lemma appended_trans: "appended d d' \<Longrightarrow> appended d' d'' \<Longrightarrow> appended d d''"
  unfolding appended_def by (meson prefix_order.trans)

lemma run_statement_appended: "appended d (run_statement s d)"
proof (cases s)
  case Migrate
  then show ?thesis by (simp add: appended_def runMigrations_def exec_def Let_def split: stmt_fate.split)
qed (simp_all add: appended_def insert_defs exec_def Let_def add_event_def split: stmt_fate.split)

lemma run_statement_referenced: "referenced (run_statement s d) \<subseteq> referenced d \<union> refers_to s"
proof (cases s)
  case Migrate
  then show ?thesis by (auto simp: referenced_def runMigrations_def exec_def Let_def split: stmt_fate.splits)
qed (auto simp: referenced_def insert_defs exec_def Let_def split: stmt_fate.splits)

lemma issues_appended: "issues K d d' \<Longrightarrow> appended d d'"
proof -
  have "appended d (run_statements ss d)" for ss
    by (induction ss arbitrary: d) (auto intro: appended_trans run_statement_appended)
  then show "issues K d d' \<Longrightarrow> ?thesis" by (auto simp: issues_def)
qed

lemma issues_referenced: "issues K d d' \<Longrightarrow> referenced d' \<subseteq> referenced d \<union> K"
proof -
  have "\<forall>s \<in> set ss. refers_to s \<subseteq> K \<Longrightarrow> referenced (run_statements ss d) \<subseteq> referenced d \<union> K" for ss
  proof (induction ss arbitrary: d)
    case (Cons s ss)
    then show ?case using run_statement_referenced [of s d] Cons.IH [of "run_statement s d"] by auto
  qed simp
  then show "issues K d d' \<Longrightarrow> ?thesis" by (auto simp: issues_def)
qed

lemma issues_ok: "issues K d d' \<Longrightarrow> db_ok d \<Longrightarrow> db_ok d'"
  using run_statements_ok by (auto simp: issues_def)

subsection \<open>The contract of a database client\<close>

locale db_client =
  fixes turn :: "'s \<Rightarrow> 's \<Rightarrow> bool" and db_of :: "'s \<Rightarrow> db"
  assumes turn_issues: "turn s s' \<Longrightarrow> \<exists>K. issues K (db_of s) (db_of s') \<and> K \<subseteq> stored_keys (db_of s')"
begin

lemma turn_safe:
  "turn s s' \<Longrightarrow> (db_ok (db_of s) \<longrightarrow> db_ok (db_of s')) \<and> (refs_ok (db_of s) \<longrightarrow> refs_ok (db_of s')) \<and>
     stored_keys (db_of s) \<subseteq> stored_keys (db_of s') \<and> appended (db_of s) (db_of s')"
proof -
  assume "turn s s'"
  then obtain K where i: "issues K (db_of s) (db_of s')" and k: "K \<subseteq> stored_keys (db_of s')" using turn_issues by blast
  have g: "stored_keys (db_of s) \<subseteq> stored_keys (db_of s')" using issues_keys [OF i] by (simp add: stored_keys_def)
  moreover have "refs_ok (db_of s) \<longrightarrow> refs_ok (db_of s')" using issues_referenced [OF i] g k unfolding refs_ok_def by blast
  ultimately show ?thesis using issues_ok [OF i] issues_appended [OF i] by simp
qed

lemma turns_safe:
  "turn\<^sup>*\<^sup>* s s' \<Longrightarrow> (db_ok (db_of s) \<longrightarrow> db_ok (db_of s')) \<and> (refs_ok (db_of s) \<longrightarrow> refs_ok (db_of s')) \<and>
     stored_keys (db_of s) \<subseteq> stored_keys (db_of s') \<and> appended (db_of s) (db_of s')"
proof (induction rule: rtranclp_induct)
  case (step y z)
  from turn_safe [OF step.hyps(2)] step.IH show ?case by (blast intro: appended_trans)
qed simp

end

subsection \<open>The system\<close>

text \<open>The relay verifier and the reverifier share the registry; three workers share the discovery.\<close>

record system =
  sy_db :: db
  sy_collector :: collector
  sy_registry :: "registry option"
  sy_disc :: discovery
  sy_cycle :: nat
  sy_retrievals :: "OperatorRetrievalResult list"

definition ov_view :: "system \<Rightarrow> ov_state" where
  "ov_view s = \<lparr>ov_cycle = sy_cycle s, ov_disc = sy_disc s, ov_db = sy_db s, ov_retrievals = sy_retrievals s\<rparr>"

text \<open>
  One turn of one worker. A turn that panics ends the process, so it is not a step. The
  self-dispersed blob that the operator verifier is given comes from a query on the same
  database, so it is a stored one.
\<close>

inductive sys_step :: "system \<Rightarrow> system \<Rightarrow> bool" where
  collect: "collectBlobs api (sy_collector s) (sy_db s) = (n, c, d) \<Longrightarrow>
    sys_step s (s\<lparr>sy_collector := c, sy_db := d\<rparr>)"
| verify: "relay_turn envs v seeds (sy_registry s, sy_db s) = (Done (), reg, d) \<Longrightarrow>
    sys_step s (s\<lparr>sy_registry := reg, sy_db := d\<rparr>)"
| reverify: "ageBasedReverify passes (sy_registry s, sy_db s) = (reg, d) \<Longrightarrow>
    sys_step s (s\<lparr>sy_registry := reg, sy_db := d\<rparr>)"
| retrieve: "ov_turn env (ov_view s) = Done (k, t) \<Longrightarrow>
    \<forall>b. oe_selfBlob env = Some b \<longrightarrow> ab_BlobKey b \<in> stored_keys (sy_db s) \<Longrightarrow>
    sys_step s (s\<lparr>sy_cycle := ov_cycle t, sy_disc := ov_disc t, sy_db := ov_db t, sy_retrievals := ov_retrievals t\<rparr>)"
| stake: "stake_snapshot senv (sy_disc s, sy_db s) = (disc, d) \<Longrightarrow>
    sys_step s (s\<lparr>sy_disc := disc, sy_db := d\<rparr>)"
| status: "status_snapshot venv (sy_disc s, sy_db s) = (disc, d) \<Longrightarrow>
    sys_step s (s\<lparr>sy_disc := disc, sy_db := d\<rparr>)"
| eject: "sys_step s (s\<lparr>sy_db := ej_poll node (sy_db s)\<rparr>)"
| disperse: "disperse denv w (sy_db s) = (Done (), d) \<Longrightarrow> sys_step s (s\<lparr>sy_db := d\<rparr>)"
| health: "sys_step s (s\<lparr>sy_db := record_health henv (sy_db s)\<rparr>)"
| serve: "serve avg path param (sy_db s) = (resp, d) \<Longrightarrow> sys_step s (s\<lparr>sy_db := d\<rparr>)"

text \<open>Every kind of step satisfies the contract.\<close>

lemma no_refs: "issues {} d d' \<Longrightarrow> \<exists>K. issues K d d' \<and> K \<subseteq> stored_keys d'"
  by blast

lemma own_refs: "issues (stored_keys d) d d' \<Longrightarrow> \<exists>K. issues K d d' \<and> K \<subseteq> stored_keys d'"
  using issues_keys unfolding stored_keys_def by blast

lemma sys_step_issues: "sys_step s s' \<Longrightarrow> \<exists>K. issues K (sy_db s) (sy_db s') \<and> K \<subseteq> stored_keys (sy_db s')"
proof (induction rule: sys_step.induct)
  case (collect api s n c d)
  then have "issues {} (sy_db s) d" using collect_feed_issues unfolding collectBlobs_def by (metis snd_conv)
  then show ?case by (simp add: no_refs)
next
  case (verify envs v seeds s reg d)
  have "issues (stored_keys (sy_db s)) (sy_db s) d"
    using relay_turn_issues [of "(sy_registry s, sy_db s)" envs v seeds] verify by (simp add: stored_keys_def)
  then show ?case by (simp add: own_refs)
next
  case (reverify passes s reg d)
  then show ?case
    using reverify_groups_refs [of "(sy_registry s, sy_db s)" passes 0 ageGroups]
    by (simp add: ageBasedReverify_def stored_keys_def)
next
  case (retrieve env s k t)
  have "issues (stored_keys (sy_db s)) (sy_db s) (ov_db t)"
    using ov_turn_refs [OF retrieve(1)] retrieve(2) by (simp add: ov_view_def stored_keys_def)
  then show ?case by (simp add: own_refs)
next
  case (stake senv s disc d)
  then show ?case using stake_snapshot_issues [of "{}" "(sy_disc s, sy_db s)" senv] by (simp add: no_refs)
next
  case (status venv s disc d)
  then show ?case using status_snapshot_issues [of "{}" "(sy_disc s, sy_db s)" venv] by (simp add: no_refs)
next
  case (eject s node)
  show ?case using no_refs [OF ej_poll_issues] by simp
next
  case (disperse denv w s d)
  then show ?case using disperse_issues [of "{}" "sy_db s" denv w] by (simp add: no_refs)
next
  case (health s henv)
  show ?case using no_refs [OF record_health_issues] by simp
next
  case (serve avg path param s resp d)
  then show ?case using serve_issues [of "{}" "sy_db s" avg path param] by (simp add: no_refs)
qed

interpretation sys: db_client sys_step sy_db
  by unfold_locales (rule sys_step_issues)

inductive_simps sys_step_simps: "sys_step s s'"

subsection \<open>Properties\<close>

text \<open>C4: The database under all workers at once. Starting from a database in order in which every
  probe and attestation is about a stored blob, after any turns of any workers and any requests
  to the API, in any order and whatever statements are lost: the database is in order, every
  probe and attestation is still about a stored blob, no blob has disappeared, and the probes,
  attestations, snapshots, events and health rows of before are still there, in front of the
  new ones.\<close>

theorem system_safe:
  assumes "sys_step\<^sup>*\<^sup>* s s'" and "db_ok (sy_db s)" and "refs_ok (sy_db s)"
  shows "db_ok (sy_db s') \<and> refs_ok (sy_db s') \<and> stored_keys (sy_db s) \<subseteq> stored_keys (sy_db s') \<and>
    appended (sy_db s) (sy_db s')"
  using sys.turns_safe [OF assms(1)] assms(2,3) by blast

definition demo_system :: system where
  "demo_system = \<lparr>sy_db = fresh_db, sy_collector = newBlobCollector 3000000000, sy_registry = None, sy_disc = newDiscovery,
     sy_cycle = 0, sy_retrievals = []\<rparr>"

theorem system_safe_witness:
  "db_ok (record_health demo_health fresh_db) \<and> appended fresh_db (record_health demo_health fresh_db)"
proof -
  have "sys_step demo_system (demo_system\<lparr>sy_db := record_health demo_health (sy_db demo_system)\<rparr>)" by (rule sys_step.health)
  then have "sys_step\<^sup>*\<^sup>* demo_system (demo_system\<lparr>sy_db := record_health demo_health (sy_db demo_system)\<rparr>)" by (rule r_into_rtranclp)
  moreover have "db_ok (sy_db demo_system)" by (simp add: demo_system_def fresh_db_ok)
  moreover have "refs_ok (sy_db demo_system)"
    by (simp add: demo_system_def refs_ok_def referenced_def fresh_db empty_db_def)
  ultimately show ?thesis using system_safe by (fastforce simp: demo_system_def)
qed

end
