(* ===== verification/Pipeline.thy ===== *)
theory Pipeline
  imports RelayVerifierFacts Collector
begin

text \<open>
  The collector and the relay verifier together, through the table they share: how fast the
  verifier works off its queue, and that what a poll adds to the queue is probed.
\<close>

subsection \<open>How much a batch takes\<close>

lemma unprobed_keys_distinct:
  "distinct (blob_keys blobs) \<Longrightarrow> distinct (map ab_BlobKey (unprobed key n blobs probes))"
proof -
  assume "distinct (blob_keys blobs)"
  then have "distinct (map (\<lambda>r. ob_BlobKey (snd r)) (filter (\<lambda>r. ob_BlobKey (snd r) \<notin> key ` set probes) blobs))"
    by (simp add: blob_keys_def distinct_map_filter)
  then have "distinct (map (\<lambda>r. ob_BlobKey (snd r)) (sort_key (\<lambda>r. - uint (ob_RequestedAt (snd r)))
      (filter (\<lambda>r. ob_BlobKey (snd r) \<notin> key ` set probes) blobs)))"
    by (simp add: distinct_map)
  then show ?thesis by (simp add: unprobed_alt comp_def flip: take_map)
qed

lemma unprobed_count:
  assumes "distinct (blob_keys blobs)"
  shows "length (unprobed key n blobs probes) = min n (card (pending_keys key blobs probes))"
proof -
  let ?fs = "filter (\<lambda>r. ob_BlobKey (snd r) \<notin> key ` set probes) blobs"
  have "pending_keys key blobs probes = set (map (\<lambda>r. ob_BlobKey (snd r)) ?fs)"
    by (auto simp: pending_keys_def blob_keys_def)
  moreover have "distinct (map (\<lambda>r. ob_BlobKey (snd r)) ?fs)"
    using assms by (simp add: blob_keys_def distinct_map_filter)
  ultimately have "card (pending_keys key blobs probes) = length ?fs"
    by (metis distinct_card length_map)
  then show ?thesis by (simp add: unprobed_alt min.commute)
qed

lemma getUnprobedBlobs_batch:
  assumes "fate d = (\<lambda>_. Acked)" and "distinct (blob_keys (observed_blobs d))"
  obtains bs where "getUnprobedBlobs n d = (Inr bs, d\<lparr>stmts := Suc (stmts d)\<rparr>)" and "ab_BlobKey ` set bs \<subseteq> rv_pending d"
    and "card (ab_BlobKey ` set bs) = min n (card (rv_pending d))"
proof -
  let ?bs = "unprobed (\<lambda>p. pr_BlobKey (snd p)) n (scan d (observed_blobs d)) (retrieval_probes d)"
  have d: "distinct (blob_keys (scan d (observed_blobs d)))" using assms(2) by (simp add: scan_def blob_keys_def distinct_map)
  have "card (ab_BlobKey ` set ?bs) = length ?bs"
    using unprobed_keys_distinct [OF d] distinct_card by fastforce
  then have "card (ab_BlobKey ` set ?bs) = min n (card (rv_pending d))"
    using unprobed_count [OF d] by (simp add: rv_pending_def)
  moreover have "getUnprobedBlobs n d = (Inr ?bs, d\<lparr>stmts := Suc (stmts d)\<rparr>)"
    using assms(1) by (simp add: getUnprobedBlobs_def query_def)
  moreover have "ab_BlobKey ` set ?bs \<subseteq> rv_pending d"
    using unprobed_pending by (fastforce simp: rv_pending_def)
  ultimately show ?thesis by (rule that [rotated 2])
qed

subsection \<open>Working off the queue\<close>

definition answers :: "(string \<Rightarrow> rv_env) \<Rightarrow> string set \<Rightarrow> bool" where
  "answers envs K \<longleftrightarrow> (\<forall>k \<in> K. answerable (envs k) k)"

lemma verify_batch_registry: "fst (snd (verify_batch envs v bs (Some rg, d))) \<noteq> None"
proof (induction bs arbitrary: rg d)
  case (Cons b bs)
  obtain r reg d' where o1: "verify_one (envs (ab_BlobKey b)) v b (Some rg, d) = (r, reg, d')" using prod_cases3 by blast
  then obtain rg' where "reg = Some rg'"
    using verify_one_registry [of "envs (ab_BlobKey b)" v b "(Some rg, d)"] probeBlob_registry by fastforce
  then show ?case using Cons.IH o1 by (simp split: outcome.split)
qed simp

lemma relay_turn_shrinks:
  assumes "fate d = (\<lambda>_. Acked)" and "migrated d" and "distinct (blob_keys (observed_blobs d))"
    and "answers envs (rv_pending d)" and "relay_turn envs v seeds (Some rg, d) = (Done (), reg', d')"
  obtains rg' where "reg' = Some rg'" and "rv_pending d' \<subseteq> rv_pending d" and "card (rv_pending d') = card (rv_pending d) - 20"
    and "fate d' = (\<lambda>_. Acked)" and "migrated d'" and "observed_blobs d' = observed_blobs d"
proof -
  obtain bs where q: "getUnprobedBlobs 20 d = (Inr bs, d\<lparr>stmts := Suc (stmts d)\<rparr>)"
    and bs: "ab_BlobKey ` set bs \<subseteq> rv_pending d" "card (ab_BlobKey ` set bs) = min 20 (card (rv_pending d))"
    using getUnprobedBlobs_batch [OF assms(1,3)] .
  let ?d = "d\<lparr>stmts := Suc (stmts d)\<rparr>"
  have b: "verify_batch envs v (reorder seeds bs) (Some rg, ?d) = (Done (), reg', d')"
    using assms(5) q by (simp add: relay_turn_def)
  have "\<forall>b \<in> set (reorder seeds bs). answerable (envs (ab_BlobKey b)) (ab_BlobKey b)"
    using assms(4) bs(1) by (auto simp: answers_def)
  with verify_batch_pending [of ?d "reorder seeds bs" envs v rg] assms(1,2) b
  have p: "rv_pending d' = rv_pending ?d - ab_BlobKey ` set bs" and f: "rv_frame d' = rv_frame ?d" by (simp_all add: migrated_def)
  then have p': "rv_pending d' = rv_pending d - ab_BlobKey ` set bs" by (simp add: rv_pending_def)
  have "finite (rv_pending d)" by (simp add: rv_pending_def pending_keys_def)
  then have "card (rv_pending d') = card (rv_pending d) - 20"
    using card_Diff_subset [of "ab_BlobKey ` set bs" "rv_pending d"] bs p' by (simp add: min_def)
  moreover obtain rg' where "reg' = Some rg'" using verify_batch_registry [of envs v "reorder seeds bs" rg ?d] b by auto
  moreover have "fate d' = (\<lambda>_. Acked)" "migrated d'" "observed_blobs d' = observed_blobs d"
    using rv_frame_acked [OF f] rv_frame_migrated [OF f] rv_frame_blobs [OF f] assms(1,2) by (simp_all add: migrated_def)
  ultimately show ?thesis using p' by (intro that) auto
qed

lemma relay_run_drains:
  assumes "fate d = (\<lambda>_. Acked)" and "migrated d" and "distinct (blob_keys (observed_blobs d))"
    and "\<forall>t \<in> set ts. answers (fst t) (rv_pending d)" and "relay_run v ts (Some rg, d) = (Done (), reg', d')"
  shows "card (rv_pending d') = card (rv_pending d) - 20 * length ts \<and> observed_blobs d' = observed_blobs d"
  using assms
proof (induction ts arbitrary: rg d)
  case (Cons t ts)
  obtain envs seeds where t: "t = (envs, seeds)" by fastforce
  obtain reg1 d1 where o1: "relay_turn envs v seeds (Some rg, d) = (Done (), reg1, d1)"
    and r: "relay_run v ts (reg1, d1) = (Done (), reg', d')"
    using Cons.prems(5) by (auto simp: t split: prod.splits outcome.splits)
  have "answers envs (rv_pending d)" using Cons.prems(4) by (simp add: t)
  from relay_turn_shrinks [OF Cons.prems(1-3) this o1] obtain rg1 where
    reg: "reg1 = Some rg1" and s: "rv_pending d1 \<subseteq> rv_pending d" "card (rv_pending d1) = card (rv_pending d) - 20"
    and ok: "fate d1 = (\<lambda>_. Acked)" "migrated d1" "observed_blobs d1 = observed_blobs d" .
  have "\<forall>t \<in> set ts. answers (fst t) (rv_pending d1)" using Cons.prems(4) s(1) by (fastforce simp: answers_def)
  then show ?case using Cons.IH [of d1 rg1] ok Cons.prems(3) r s(2) by (simp add: reg)
qed simp

subsection \<open>What a poll adds to the queue\<close>

lemma collect_loop_frame:
  "fate (snd (collect_loop seen es d)) = fate d \<and> migrated (snd (collect_loop seen es d)) = migrated d \<and>
     retrieval_probes (snd (collect_loop seen es d)) = retrieval_probes d"
proof (induction es arbitrary: d)
  case (Cons e es)
  show ?case using Cons.IH [of "snd (upsertBlob (entry_blob e) d)"] by (simp add: migrated_def case_prod_beta)
qed simp

lemma collect_loop_adds:
  assumes "fate d = (\<lambda>_. Acked)" and "entries_accepted es d" and "sorted_wrt (\<lambda>a b. requested_at b \<le> requested_at a) es"
  shows "be_BlobKey ` set (filter (\<lambda>x. seen < requested_at x) es) \<subseteq> set (blob_keys (observed_blobs (snd (collect_loop seen es d))))"
  using assms
proof (induction es arbitrary: d)
  case (Cons e es)
  show ?case
  proof (cases "requested_at e \<le> seen")
    case True
    then have "filter (\<lambda>x. seen < requested_at x) (e # es) = []"
      using Cons.prems(3) by (auto simp: filter_empty_conv dest: order_trans)
    then show ?thesis by (simp only: list.set image_empty empty_subsetI)
  next
    case False
    let ?d = "snd (upsertBlob (entry_blob e) d)"
    have l: "snd (collect_loop seen (e # es) d) = snd (collect_loop seen es ?d)" using False by (simp split: prod.split)
    have "acked d" using Cons.prems(1) by (simp add: acked_def)
    then have "be_BlobKey e \<in> set (blob_keys (observed_blobs ?d))"
      using Cons.prems(2) by (simp add: upsertBlob_acked entries_accepted_def upsert_row_keys)
    moreover have "fate ?d = (\<lambda>_. Acked)" "entries_accepted es ?d"
      using Cons.prems(1,2) by (simp_all add: entries_accepted_def)
    note Cons.IH [OF this]
    ultimately show ?thesis using collect_loop_keys [of ?d seen es] Cons.prems(3) False unfolding l by auto
  qed
qed simp

lemma collect_loop_pending:
  assumes "fate d = (\<lambda>_. Acked)" and "entries_accepted es d" and "sorted_wrt (\<lambda>a b. requested_at b \<le> requested_at a) es"
  shows "card (rv_pending (snd (collect_loop seen es d))) \<le> card (rv_pending d) + fst (collect_loop seen es d)"
proof -
  let ?fs = "filter (\<lambda>x. seen < requested_at x) es" and ?d = "snd (collect_loop seen es d)"
  have "rv_pending ?d \<subseteq> rv_pending d \<union> be_BlobKey ` set ?fs"
    using collect_loop_new [of seen es d] collect_loop_frame [of seen es d] by (auto simp: rv_pending_def pending_keys_def)
  then have "card (rv_pending ?d) \<le> card (rv_pending d \<union> be_BlobKey ` set ?fs)"
    by (intro card_mono) (simp_all add: rv_pending_def pending_keys_def)
  also have "\<dots> \<le> card (rv_pending d) + card (be_BlobKey ` set ?fs)" by (rule card_Un_le)
  also have "card (be_BlobKey ` set ?fs) \<le> length ?fs" by (metis card_length length_map set_map)
  finally show ?thesis using collect_loop_sorted [OF assms, of seen] by simp
qed

subsection \<open>Properties\<close>



end
